theory Spec2Isabelle
  imports Complex_Main "HOL-Library.AList" "HOL-Library.Sublist"
begin

section \<open>Python values and errors\<close>

text \<open>
  The exceptions the modelled code can raise. Every raise of the source is a value
  \<open>Inl e\<close> of the model. The typed-cast helper and the row are external, so they may
  return any of these.
\<close>

datatype error =
    AttributeError string
  | TypeError string
  | KeyError
  | ValueError string

text \<open>
  The values that are neither a list nor a dict nor an object of the class:
  \<open>None\<close>, strings, integers, floats and booleans.
\<close>

datatype scalar = PNone | PStr string | PInt int | PFloat real | PBool bool

text \<open>Python truthiness of such a value (\<open>if value\<close>, \<open>not value\<close>).\<close>

fun truthy :: "scalar \<Rightarrow> bool" where
  "truthy PNone = False"
| "truthy (PStr s) = (s \<noteq> [])"
| "truthy (PInt i) = (i \<noteq> 0)"
| "truthy (PFloat r) = (r \<noteq> 0)"
| "truthy (PBool b) = b"

section \<open>String methods used by the source\<close>

text \<open>\<open>s.find(sub)\<close>: the index of the first occurrence, or -1.\<close>

fun str_find :: "string \<Rightarrow> string \<Rightarrow> int" where
  "str_find [] sub = (if sub = [] then 0 else - 1)"
| "str_find (c # cs) sub =
     (if prefix sub (c # cs) then 0
      else (let r = str_find cs sub in if r = - 1 then - 1 else r + 1))"

text \<open>\<open>s.rfind(sub)\<close>: the index of the last occurrence, or -1.\<close>

fun str_rfind :: "string \<Rightarrow> string \<Rightarrow> int" where
  "str_rfind [] sub = (if sub = [] then 0 else - 1)"
| "str_rfind (c # cs) sub =
     (let r = str_rfind cs sub in
      if r \<noteq> - 1 then r + 1 else if prefix sub (c # cs) then 0 else - 1)"

text \<open>\<open>s[i:]\<close>: a negative index counts from the end, clipped at the start.\<close>

definition slice_from :: "string \<Rightarrow> int \<Rightarrow> string" where
  "slice_from s i = (if 0 \<le> i then drop (nat i) s else drop (nat (int (length s) + i)) s)"

text \<open>
  \<open>s.replace(old, new)\<close>: every non-overlapping occurrence, from the left. With an empty
  \<open>old\<close> Python puts \<open>new\<close> before every character and at the end.
\<close>

function str_replace :: "string \<Rightarrow> string \<Rightarrow> string \<Rightarrow> string" where
  "str_replace [] old new = (if old = [] then new else [])"
| "str_replace (c # cs) old new =
     (if old = [] then new @ c # str_replace cs old new
      else if prefix old (c # cs) then new @ str_replace (drop (length old) (c # cs)) old new
      else c # str_replace cs old new)"
  by pat_completeness auto
termination
  by (relation "measure (\<lambda>(s, old, new). length s)") auto

section \<open>The name normalizer\<close>

text \<open>
  \<open>_remove_model_name\<close> on a string, line by line as in the source: the first colon is
  searched with \<open>find\<close>, the last dot with \<open>rfind\<close> over the whole string.
\<close>

definition remove_model_name :: "string \<Rightarrow> bool \<Rightarrow> string" where
  "remove_model_name value role_instance =
     (let index_underscore = str_find value '':'' in
      if index_underscore \<noteq> - 1 then
        (let next_index_underscore = str_rfind value ''.'' in
         if next_index_underscore \<noteq> - 1 \<and> \<not> role_instance
         then slice_from value (next_index_underscore + 1)
         else str_replace (str_replace (slice_from value (index_underscore + 1)) '':'' ''_'')
                ''.'' ''_'')
      else value)"

text \<open>The same function on any scalar: a value that is not a string is returned as it is.\<close>

fun remove_model_name_value :: "scalar \<Rightarrow> bool \<Rightarrow> scalar" where
  "remove_model_name_value (PStr s) role_instance = PStr (remove_model_name s role_instance)"
| "remove_model_name_value v role_instance = v"

section \<open>The data model\<close>

text \<open>
  The nested dictionary given to the constructor: a value is a scalar, a dict (its entries in
  iteration order, keys are strings since it is passed as keyword arguments) or a list.
\<close>

datatype pyin = InScalar scalar | InDict "(string \<times> pyin) list" | InList "pyin list"

text \<open>
  A value held by an attribute of a \<open>MivotInstance\<close>: a scalar, an object taken from
  \<open>unit_mapping\<close> (opaque, of type \<open>'u\<close>), a nested \<open>MivotInstance\<close>, or a list of
  \<open>MivotInstance\<close>. An object is its \<open>__dict__\<close>: the attributes in insertion order.
\<close>

datatype 'u pyval =
    Scalar scalar
  | UnitObj 'u
  | Instance "(string \<times> 'u pyval) list"
  | Collection "(string \<times> 'u pyval) list list"

type_synonym 'u obj = "(string \<times> 'u pyval) list"

text \<open>
  What the module imports and the source tree does not hold: the table \<open>unit_mapping\<close> of
  \<open>pyvo.mivot.utils.vocabulary\<close>, the keys of \<open>astropy.time.TIME_FORMATS\<close>, and the helper
  \<open>MivotUtils.cast_type_value(value, dmtype)\<close>. They are parameters of the model.
\<close>

record 'u vocabulary =
  unit_mapping :: "string \<Rightarrow> 'u option"
  TIME_FORMATS :: "string list"
  cast_type_value :: "scalar \<Rightarrow> 'u pyval \<Rightarrow> error + scalar"

subsection \<open>Attribute access\<close>

definition hasattr :: "'u obj \<Rightarrow> string \<Rightarrow> bool" where
  "hasattr self name = (name \<in> set (map fst self))"

text \<open>\<open>getattr(self, name)\<close> for a name that is no member of the class.\<close>

definition getattr :: "'u obj \<Rightarrow> string \<Rightarrow> error + 'u pyval" where
  "getattr self name =
     (case map_of self name of None \<Rightarrow> Inl (AttributeError name) | Some v \<Rightarrow> Inr v)"

text \<open>
  \<open>setattr(self, name, v)\<close>. The class has the properties \<open>dict\<close> and \<open>hk_dict\<close>, which have no
  setter, and every object has \<open>__weakref__\<close>, \<open>__class__\<close> and \<open>__dict__\<close>, which refuse
  the values stored here. Any other name is written to \<open>__dict__\<close>: an existing key keeps its
  place, a new key goes to the end.
\<close>

definition setattr_error :: "string \<Rightarrow> error option" where
  "setattr_error name =
     (if name = ''dict'' \<or> name = ''hk_dict'' \<or> name = ''__weakref__''
      then Some (AttributeError name)
      else if name = ''__class__'' \<or> name = ''__dict__'' then Some (TypeError name)
      else None)"

definition setattr :: "'u obj \<Rightarrow> string \<Rightarrow> 'u pyval \<Rightarrow> error + 'u obj" where
  "setattr self name v =
     (case setattr_error name of Some e \<Rightarrow> Inl e | None \<Rightarrow> Inr (AList.update name v self))"

text \<open>
  A method is looked up on the object first: an attribute of the same name hides it, and
  calling the attribute (never a callable here) raises \<open>TypeError\<close>.
\<close>

definition method_hidden :: "'u obj \<Rightarrow> string \<Rightarrow> error option" where
  "method_hidden self m = (if hasattr self m then Some (TypeError m) else None)"

text \<open>\<open>self._remove_model_name(key, role_instance)\<close> on a key and on a value.\<close>

definition call_remove_model_name :: "'u obj \<Rightarrow> string \<Rightarrow> bool \<Rightarrow> error + string" where
  "call_remove_model_name self key role_instance =
     (case method_hidden self ''_remove_model_name'' of
        Some e \<Rightarrow> Inl e
      | None \<Rightarrow> Inr (remove_model_name key role_instance))"

definition call_remove_model_name_value :: "'u obj \<Rightarrow> scalar \<Rightarrow> error + scalar" where
  "call_remove_model_name_value self v =
     (case method_hidden self ''_remove_model_name'' of
        Some e \<Rightarrow> Inl e
      | None \<Rightarrow> Inr (remove_model_name_value v False))"

subsection \<open>Leaf test\<close>

fun is_dict :: "pyin \<Rightarrow> bool" where
  "is_dict (InDict d) = True"
| "is_dict v = False"

text \<open>\<open>_is_leaf\<close>: false at the first value that is a dict.\<close>

fun is_leaf :: "(string \<times> pyin) list \<Rightarrow> bool" where
  "is_leaf [] = True"
| "is_leaf ((k, v) # kwargs) = (if is_dict v then False else is_leaf kwargs)"

text \<open>
  \<open>self._is_leaf(**value)\<close>: the method may be hidden, and a key \<open>self\<close> collides with the
  first parameter.
\<close>

definition call_is_leaf :: "'u obj \<Rightarrow> (string \<times> pyin) list \<Rightarrow> error + bool" where
  "call_is_leaf self kwargs =
     (case method_hidden self ''_is_leaf'' of
        Some e \<Rightarrow> Inl e
      | None \<Rightarrow>
          if ''self'' \<in> set (map fst kwargs) then Inl (TypeError ''self'')
          else Inr (is_leaf kwargs))"

section \<open>The model instance builder\<close>

text \<open>\<open>value.replace("year", "yr") if value else None\<close>, the key looked up in the tables.\<close>

definition unit_lookup_key :: "scalar \<Rightarrow> error + scalar" where
  "unit_lookup_key v =
     (if truthy v then
        (case v of PStr s \<Rightarrow> Inr (PStr (str_replace s ''year'' ''yr''))
         | _ \<Rightarrow> Inl (AttributeError ''replace''))
      else Inr PNone)"

text \<open>
  The two lookups that follow: in \<open>unit_mapping\<close> first, else in \<open>TIME_FORMATS\<close>. A key that is
  not a string (\<open>None\<close>) is in neither.
\<close>

fun attach_unit :: "'u vocabulary \<Rightarrow> scalar \<Rightarrow> 'u obj \<Rightarrow> error + 'u obj" where
  "attach_unit voc (PStr u) self =
     (case unit_mapping voc u of
        Some x \<Rightarrow> setattr self ''astropy_unit'' (UnitObj x)
      | None \<Rightarrow>
          if u \<in> set (TIME_FORMATS voc)
          then setattr self ''astropy_unit_time'' (Scalar (PStr u))
          else Inr self)"
| "attach_unit voc v self = Inr self"

text \<open>
  The last branch of \<open>_create_class\<close>, for a value that is neither a list nor a dict. The
  arguments of \<open>setattr\<close> are evaluated from the left: the name first, then the value.
\<close>

definition create_attribute ::
  "'u vocabulary \<Rightarrow> string \<Rightarrow> scalar \<Rightarrow> 'u obj \<Rightarrow> error + 'u obj" where
  "create_attribute voc key v self =
     (case
        (if key = ''value'' then
           (case call_remove_model_name self key False of
              Inl e \<Rightarrow> Inl e
            | Inr name \<Rightarrow>
               (case getattr self ''dmtype'' of
                  Inl e \<Rightarrow> Inl e
                | Inr dmtype \<Rightarrow>
                   (case cast_type_value voc v dmtype of
                      Inl e \<Rightarrow> Inl e
                    | Inr w \<Rightarrow> setattr self name (Scalar w))))
         else
           (case call_remove_model_name self key False of
              Inl e \<Rightarrow> Inl e
            | Inr name \<Rightarrow>
               (case call_remove_model_name_value self v of
                  Inl e \<Rightarrow> Inl e
                | Inr w \<Rightarrow> setattr self name (Scalar w))))
      of
        Inl e \<Rightarrow> Inl e
      | Inr self1 \<Rightarrow>
          (if key = ''unit'' then
             (case unit_lookup_key v of
                Inl e \<Rightarrow> Inl e
              | Inr u \<Rightarrow> attach_unit voc u self1)
           else Inr self1))"

text \<open>
  \<open>setattr(self, self._remove_model_name(key, role_instance), MivotInstance(**value))\<close>:
  \<open>built\<close> is the result of the constructor.
\<close>

definition set_instance ::
  "'u obj \<Rightarrow> string \<Rightarrow> bool \<Rightarrow> error + 'u obj \<Rightarrow> error + 'u obj" where
  "set_instance self key role_instance built =
     (case call_remove_model_name self key role_instance of
        Inl e \<Rightarrow> Inl e
      | Inr name \<Rightarrow>
         (case built of
            Inl e \<Rightarrow> Inl e
          | Inr child \<Rightarrow> setattr self name (Instance child)))"

text \<open>
  \<open>getattr(self, self._remove_model_name(key)).append(MivotInstance(**item))\<close>: the list held
  by the attribute \<open>name\<close> grows in place; a value that is no list has no \<open>append\<close>.
\<close>

fun append_child :: "'u pyval \<Rightarrow> string \<Rightarrow> 'u obj \<Rightarrow> 'u obj \<Rightarrow> error + 'u obj" where
  "append_child (Collection cs) name child self =
     Inr (AList.update name (Collection (cs @ [child])) self)"
| "append_child v name child self = Inl (AttributeError ''append'')"

definition list_append :: "'u obj \<Rightarrow> string \<Rightarrow> error + 'u obj \<Rightarrow> error + 'u obj" where
  "list_append self key built =
     (case call_remove_model_name self key False of
        Inl e \<Rightarrow> Inl e
      | Inr name \<Rightarrow>
         (case getattr self name of
            Inl e \<Rightarrow> Inl e
          | Inr lst \<Rightarrow>
             (case built of
                Inl e \<Rightarrow> Inl e
              | Inr child \<Rightarrow> append_child lst name child self)))"

text \<open>
  The constructor and \<open>_create_class\<close>. \<open>create_class\<close> runs the loop over the entries of the
  dictionary with the attributes set so far, \<open>create_items\<close> the loop over the items of a
  list, and \<open>unpack\<close> is \<open>MivotInstance(**item)\<close>, which needs a mapping. A key \<open>self\<close>
  collides with the first parameter of \<open>__init__\<close>.
\<close>

function MivotInstance :: "'u vocabulary \<Rightarrow> (string \<times> pyin) list \<Rightarrow> error + 'u obj"
  and create_class :: "'u vocabulary \<Rightarrow> (string \<times> pyin) list \<Rightarrow> 'u obj \<Rightarrow> error + 'u obj"
  and create_items :: "'u vocabulary \<Rightarrow> string \<Rightarrow> pyin list \<Rightarrow> 'u obj \<Rightarrow> error + 'u obj"
  and unpack :: "'u vocabulary \<Rightarrow> pyin \<Rightarrow> error + 'u obj"
where
  "MivotInstance voc instance_dict =
     (if ''self'' \<in> set (map fst instance_dict) then Inl (TypeError ''self'')
      else create_class voc instance_dict [])"
| "create_class voc [] self = Inr self"
| "create_class voc ((key, InList items) # kwargs) self =
     (case call_remove_model_name self key False of
        Inl e \<Rightarrow> Inl e
      | Inr name \<Rightarrow>
         (case setattr self name (Collection []) of
            Inl e \<Rightarrow> Inl e
          | Inr self1 \<Rightarrow>
             (case create_items voc key items self1 of
                Inl e \<Rightarrow> Inl e
              | Inr self2 \<Rightarrow> create_class voc kwargs self2)))"
| "create_class voc ((key, InDict d) # kwargs) self =
     (case call_is_leaf self d of
        Inl e \<Rightarrow> Inl e
      | Inr leaf1 \<Rightarrow>
         (case (if \<not> leaf1 then set_instance self key True (MivotInstance voc d)
                else Inr self) of
            Inl e \<Rightarrow> Inl e
          | Inr self1 \<Rightarrow>
             (case call_is_leaf self1 d of
                Inl e \<Rightarrow> Inl e
              | Inr leaf2 \<Rightarrow>
                 (case (if leaf2 then set_instance self1 key False (MivotInstance voc d)
                        else Inr self1) of
                    Inl e \<Rightarrow> Inl e
                  | Inr self2 \<Rightarrow> create_class voc kwargs self2))))"
| "create_class voc ((key, InScalar v) # kwargs) self =
     (case create_attribute voc key v self of
        Inl e \<Rightarrow> Inl e
      | Inr self1 \<Rightarrow> create_class voc kwargs self1)"
| "create_items voc key [] self = Inr self"
| "create_items voc key (item # items) self =
     (case list_append self key (unpack voc item) of
        Inl e \<Rightarrow> Inl e
      | Inr self1 \<Rightarrow> create_items voc key items self1)"
| "unpack voc (InDict d) = MivotInstance voc d"
| "unpack voc (InList xs) = Inl (TypeError ''mapping'')"
| "unpack voc (InScalar v) = Inl (TypeError ''mapping'')"
  by pat_completeness auto
termination
  apply (relation "measure (\<lambda>x. case x of
      Inl (Inl (voc, d)) \<Rightarrow> 2 * size_list (size_prod (\<lambda>_. 0) size) d + 1
    | Inl (Inr (voc, d, self)) \<Rightarrow> 2 * size_list (size_prod (\<lambda>_. 0) size) d
    | Inr (Inl (voc, key, items, self)) \<Rightarrow> 2 * size_list size items
    | Inr (Inr (voc, item)) \<Rightarrow> 2 * size item)")
  apply auto
  done

section \<open>The row binder\<close>

text \<open>
  The last branch of \<open>update\<close>, on a field that holds neither a list nor an instance:
  \<open>Inr None\<close> when nothing is assigned, \<open>Inr (Some w)\<close> when \<open>value\<close> is assigned \<open>w\<close>.
\<close>

definition set_value ::
  "'u vocabulary \<Rightarrow> ('u pyval \<Rightarrow> error + scalar) \<Rightarrow> 'u pyval \<Rightarrow> 'u obj \<Rightarrow> string
     \<Rightarrow> error + scalar option" where
  "set_value voc row ref self key =
     (if key = ''value'' \<and> ref \<noteq> Scalar PNone \<and> ref \<noteq> Scalar (PStr ''null'') then
        (case call_remove_model_name self key False of
           Inl e \<Rightarrow> Inl e
         | Inr name \<Rightarrow>
            (case row ref of
               Inl e \<Rightarrow> Inl e
             | Inr raw \<Rightarrow>
                (case getattr self ''dmtype'' of
                   Inl e \<Rightarrow> Inl e
                 | Inr dmtype \<Rightarrow>
                    (case cast_type_value voc raw dmtype of
                       Inl e \<Rightarrow> Inl e
                     | Inr w \<Rightarrow> Inr (Some w)))))
      else Inr None)"

text \<open>
  \<open>update\<close>, called as a method (an attribute \<open>update\<close> hides it). The result is the object
  as the call leaves it, and the exception if one was raised: the fields are rewritten in
  place, so what was done before a failure stays. \<open>update_fields\<close> runs the loop over
  \<open>vars(self).items()\<close>: \<open>seen\<close> holds the fields already visited, as they are now. In the
  branch of a nested instance the source tests \<open>'value' not in vars(value)\<close> and then
  \<open>'value' in vars(value)\<close>; an update adds and removes no attribute (lemma \<open>update_keys\<close>
  below), so exactly one of the two calls runs. The assignment to \<open>value\<close> replaces the
  field being visited.
\<close>

function update ::
    "'u vocabulary \<Rightarrow> ('u pyval \<Rightarrow> error + scalar) \<Rightarrow> 'u pyval \<Rightarrow> 'u obj \<Rightarrow> 'u obj \<times> error option"
  and update_fields ::
    "'u vocabulary \<Rightarrow> ('u pyval \<Rightarrow> error + scalar) \<Rightarrow> 'u pyval \<Rightarrow> 'u obj \<Rightarrow> 'u obj
       \<Rightarrow> 'u obj \<times> error option"
  and update_items ::
    "'u vocabulary \<Rightarrow> ('u pyval \<Rightarrow> error + scalar) \<Rightarrow> 'u obj list \<Rightarrow> 'u obj list
       \<Rightarrow> 'u obj list \<times> error option"
where
  "update voc row ref self =
     (case method_hidden self ''update'' of
        Some e \<Rightarrow> (self, Some e)
      | None \<Rightarrow> update_fields voc row ref [] self)"
| "update_fields voc row ref seen [] = (seen, None)"
| "update_fields voc row ref seen ((key, Collection items) # todo) =
     (case update_items voc row [] items of
        (items', Some e) \<Rightarrow> (seen @ (key, Collection items') # todo, Some e)
      | (items', None) \<Rightarrow> update_fields voc row ref (seen @ [(key, Collection items')]) todo)"
| "update_fields voc row ref seen ((key, Instance sub) # todo) =
     (case (if \<not> hasattr sub ''value'' then update voc row (Scalar PNone) sub
            else (case getattr sub ''ref'' of
                    Inl e \<Rightarrow> (sub, Some e)
                  | Inr r \<Rightarrow> update voc row r sub)) of
        (sub', Some e) \<Rightarrow> (seen @ (key, Instance sub') # todo, Some e)
      | (sub', None) \<Rightarrow> update_fields voc row ref (seen @ [(key, Instance sub')]) todo)"
| "update_fields voc row ref seen ((key, Scalar v) # todo) =
     (case set_value voc row ref (seen @ (key, Scalar v) # todo) key of
        Inl e \<Rightarrow> (seen @ (key, Scalar v) # todo, Some e)
      | Inr None \<Rightarrow> update_fields voc row ref (seen @ [(key, Scalar v)]) todo
      | Inr (Some w) \<Rightarrow> update_fields voc row ref (seen @ [(key, Scalar w)]) todo)"
| "update_fields voc row ref seen ((key, UnitObj x) # todo) =
     (case set_value voc row ref (seen @ (key, UnitObj x) # todo) key of
        Inl e \<Rightarrow> (seen @ (key, UnitObj x) # todo, Some e)
      | Inr None \<Rightarrow> update_fields voc row ref (seen @ [(key, UnitObj x)]) todo
      | Inr (Some w) \<Rightarrow> update_fields voc row ref (seen @ [(key, Scalar w)]) todo)"
| "update_items voc row seen [] = (seen, None)"
| "update_items voc row seen (item # items) =
     (case update voc row (Scalar PNone) item of
        (item', Some e) \<Rightarrow> (seen @ item' # items, Some e)
      | (item', None) \<Rightarrow> update_items voc row (seen @ [item']) items)"
  by pat_completeness auto
termination
  apply (relation "measure (\<lambda>x. case x of
      Inl (voc, row, ref, self) \<Rightarrow> size_list (size_prod (\<lambda>_. 0) size) self + 1
    | Inr (Inl (voc, row, ref, seen, todo)) \<Rightarrow> size_list (size_prod (\<lambda>_. 0) size) todo
    | Inr (Inr (voc, row, seen, items)) \<Rightarrow>
        size_list (size_list (size_prod (\<lambda>_. 0) size)) items + 1)")
  apply auto
  done

text \<open>A row that is a Python dict with string keys.\<close>

definition dict_row :: "(string \<Rightarrow> scalar option) \<Rightarrow> 'u pyval \<Rightarrow> error + scalar" where
  "dict_row m ref =
     (case ref of
        Scalar (PStr s) \<Rightarrow> (case m s of None \<Rightarrow> Inl KeyError | Some v \<Rightarrow> Inr v)
      | Collection cs \<Rightarrow> Inl (TypeError ''unhashable'')
      | _ \<Rightarrow> Inl KeyError)"

section \<open>The projection\<close>

text \<open>The plain data the projection returns; \<open>PObj\<close> is an object returned as it is.\<close>

datatype 'u plain =
    PScalar scalar
  | PObj 'u
  | PDict "(string \<times> 'u plain) list"
  | PList "'u plain list"

text \<open>
  What the projection asks of an object taken from \<open>unit_mapping\<close>, whose class is not in
  the source tree: whether it is callable, whether it is true, and what
  \<open>_get_class_dict\<close> returns on it.
\<close>

record 'u introspection =
  unit_callable :: "'u \<Rightarrow> bool"
  unit_truthy :: "'u \<Rightarrow> bool"
  unit_class_dict :: "string option \<Rightarrow> bool \<Rightarrow> 'u \<Rightarrow> error + 'u plain"

fun callable :: "'u introspection \<Rightarrow> 'u pyval \<Rightarrow> bool" where
  "callable ins (UnitObj x) = unit_callable ins x"
| "callable ins v = False"

fun plain_truthy :: "'u introspection \<Rightarrow> 'u plain \<Rightarrow> bool" where
  "plain_truthy ins (PScalar v) = truthy v"
| "plain_truthy ins (PObj x) = unit_truthy ins x"
| "plain_truthy ins (PDict kvs) = (kvs \<noteq> [])"
| "plain_truthy ins (PList xs) = (xs \<noteq> [])"

text \<open>list of model leaf parameters that must be hidden for the final user\<close>

definition hk_parameters :: "string list" where
  "hk_parameters = [''astropy_unit'', ''ref'']"

text \<open>\<open>data.pop(k, None)\<close>\<close>

definition pop :: "string \<Rightarrow> (string \<times> 'a) list \<Rightarrow> (string \<times> 'a) list" where
  "pop k data = AList.delete k data"

text \<open>The removals under \<open>if slim is True\<close>.\<close>

definition remove_housekeeping ::
  "'u introspection \<Rightarrow> (string \<times> 'u plain) list \<Rightarrow> (string \<times> 'u plain) list" where
  "remove_housekeeping ins data =
     (let data1 = (if ''ref'' \<in> set (map fst data) \<or> ''value'' \<in> set (map fst data)
                   then pop ''dmtype'' data else data);
          data2 = (case map_of data1 ''unit'' of
                     Some u \<Rightarrow> if \<not> plain_truthy ins u then pop ''unit'' data1 else data1
                   | None \<Rightarrow> data1)
      in fold pop hk_parameters data2)"

text \<open>\<open>data[classkey] = obj.__class__.__name__\<close> when a class key is given.\<close>

definition add_classkey ::
  "string option \<Rightarrow> (string \<times> 'u plain) list \<Rightarrow> (string \<times> 'u plain) list" where
  "add_classkey classkey data =
     (case classkey of
        None \<Rightarrow> data
      | Some ck \<Rightarrow> AList.update ck (PScalar (PStr ''MivotInstance'')) data)"

text \<open>
  \<open>_get_class_dict(obj, classkey, slim)\<close> on the values an attribute can hold. None of them is
  a dict. An instance with an attribute \<open>_ast\<close> takes the second branch, and the call of
  that attribute raises; one with an attribute \<open>__iter__\<close> takes the third, and the loop over
  it raises; any other instance takes the fourth. \<open>class_dict_fields\<close> is the comprehension
  over \<open>obj.__dict__.items()\<close>, \<open>class_dict_items\<close> the one over a list.
\<close>

function get_class_dict ::
    "'u introspection \<Rightarrow> 'u pyval \<Rightarrow> string option \<Rightarrow> bool \<Rightarrow> error + 'u plain"
  and class_dict_fields ::
    "'u introspection \<Rightarrow> 'u obj \<Rightarrow> string option \<Rightarrow> bool \<Rightarrow> error + (string \<times> 'u plain) list"
  and class_dict_items ::
    "'u introspection \<Rightarrow> 'u obj list \<Rightarrow> string option \<Rightarrow> bool \<Rightarrow> error + 'u plain list"
where
  "get_class_dict ins (Scalar v) classkey slim = Inr (PScalar v)"
| "get_class_dict ins (UnitObj x) classkey slim = unit_class_dict ins classkey slim x"
| "get_class_dict ins (Collection items) classkey slim =
     (case class_dict_items ins items classkey slim of
        Inl e \<Rightarrow> Inl e
      | Inr ps \<Rightarrow> Inr (PList ps))"
| "get_class_dict ins (Instance attrs) classkey slim =
     (if hasattr attrs ''_ast'' then Inl (TypeError ''_ast'')
      else if hasattr attrs ''__iter__'' then Inl (TypeError ''__iter__'')
      else (case class_dict_fields ins attrs classkey slim of
              Inl e \<Rightarrow> Inl e
            | Inr data \<Rightarrow>
                Inr (PDict (add_classkey classkey
                  (if slim then remove_housekeeping ins data else data)))))"
| "class_dict_fields ins [] classkey slim = Inr []"
| "class_dict_fields ins ((key, v) # attrs) classkey slim =
     (if \<not> callable ins v \<and> \<not> prefix ''_'' key then
        (case get_class_dict ins v classkey slim of
           Inl e \<Rightarrow> Inl e
         | Inr p \<Rightarrow>
             (case class_dict_fields ins attrs classkey slim of
                Inl e \<Rightarrow> Inl e
              | Inr data \<Rightarrow> Inr ((key, p) # data)))
      else class_dict_fields ins attrs classkey slim)"
| "class_dict_items ins [] classkey slim = Inr []"
| "class_dict_items ins (item # items) classkey slim =
     (case get_class_dict ins (Instance item) classkey slim of
        Inl e \<Rightarrow> Inl e
      | Inr p \<Rightarrow>
          (case class_dict_items ins items classkey slim of
             Inl e \<Rightarrow> Inl e
           | Inr ps \<Rightarrow> Inr (p # ps)))"
  by pat_completeness auto
termination
  apply (relation "measure (\<lambda>x. case x of
      Inl (ins, v, classkey, slim) \<Rightarrow> 2 * size v
    | Inr (Inl (ins, attrs, classkey, slim)) \<Rightarrow>
        2 * size_list (size_prod (\<lambda>_. 0) size) attrs + 1
    | Inr (Inr (ins, items, classkey, slim)) \<Rightarrow>
        2 * size_list (size_list (size_prod (\<lambda>_. 0) size)) items + 1)")
  apply auto
  done

text \<open>The properties \<open>hk_dict\<close> and \<open>dict\<close>; an attribute \<open>_get_class_dict\<close> hides the method.\<close>

definition hk_dict :: "'u introspection \<Rightarrow> 'u obj \<Rightarrow> error + 'u plain" where
  "hk_dict ins self =
     (case method_hidden self ''_get_class_dict'' of
        Some e \<Rightarrow> Inl e
      | None \<Rightarrow> get_class_dict ins (Instance self) None False)"

definition dict :: "'u introspection \<Rightarrow> 'u obj \<Rightarrow> error + 'u plain" where
  "dict ins self =
     (case method_hidden self ''_get_class_dict'' of
        Some e \<Rightarrow> Inl e
      | None \<Rightarrow> get_class_dict ins (Instance self) None True)"

section \<open>The normalizer as the specification words it\<close>

text \<open>
  What follows the first occurrence of a separator, what follows its last occurrence, and
  the replacement of the separators by underscores.
\<close>

definition after_first :: "char \<Rightarrow> string \<Rightarrow> string" where
  "after_first c s = tl (dropWhile (\<lambda>x. x \<noteq> c) s)"

definition after_last :: "char \<Rightarrow> string \<Rightarrow> string" where
  "after_last c s = rev (takeWhile (\<lambda>x. x \<noteq> c) (rev s))"

definition underscores :: "string \<Rightarrow> string" where
  "underscores s = map (\<lambda>x. if x = CHR '':'' \<or> x = CHR ''.'' then CHR ''_'' else x) s"

text \<open>
  The specification's normalizer: a token without a colon is returned unchanged; otherwise
  everything up to and including the first colon is stripped; then, with \<open>role_instance\<close>
  false, if the remainder contains a dot only the segment after the last dot is kept, and
  with \<open>role_instance\<close> true the separators of the remainder become underscores.
\<close>

definition normalize_spec :: "string \<Rightarrow> bool \<Rightarrow> string" where
  "normalize_spec token role_instance =
     (if CHR '':'' \<notin> set token then token
      else (let remainder = after_first CHR '':'' token in
            if role_instance then underscores remainder
            else if CHR ''.'' \<in> set remainder then after_last CHR ''.'' remainder
            else remainder))"

section \<open>What an update may change\<close>

text \<open>A reference that is neither \<open>None\<close> nor the string \<open>null\<close>.\<close>

definition is_bound :: "'u pyval \<Rightarrow> bool" where
  "is_bound ref = (ref \<noteq> Scalar PNone \<and> ref \<noteq> Scalar (PStr ''null''))"

text \<open>
  A nested instance is bound when it has an attribute \<open>value\<close> and its attribute \<open>ref\<close> is
  such a reference: \<open>update\<close> passes that reference down.
\<close>

definition bound :: "'u obj \<Rightarrow> bool" where
  "bound sub =
     (hasattr sub ''value'' \<and> (case map_of sub ''ref'' of None \<Rightarrow> False | Some r \<Rightarrow> is_bound r))"

text \<open>
  The frame of an object: the object with every attribute \<open>value\<close> that holds neither an
  instance nor a list blanked, in the object itself when \<open>b\<close> holds and in every nested
  instance that is bound. Items of a list are updated without a reference. Everything else
  is kept: the names and the order of the attributes of every node, the length and the
  order of every list, and every other value.
\<close>

function frame_fields :: "bool \<Rightarrow> 'u obj \<Rightarrow> 'u obj"
  and frame_items :: "'u obj list \<Rightarrow> 'u obj list"
where
  "frame_fields b [] = []"
| "frame_fields b ((key, Scalar v) # attrs) =
     (key, if key = ''value'' \<and> b then Scalar PNone else Scalar v) # frame_fields b attrs"
| "frame_fields b ((key, UnitObj x) # attrs) =
     (key, if key = ''value'' \<and> b then Scalar PNone else UnitObj x) # frame_fields b attrs"
| "frame_fields b ((key, Instance sub) # attrs) =
     (key, Instance (frame_fields (bound sub) sub)) # frame_fields b attrs"
| "frame_fields b ((key, Collection items) # attrs) =
     (key, Collection (frame_items items)) # frame_fields b attrs"
| "frame_items [] = []"
| "frame_items (item # items) = frame_fields False item # frame_items items"
  by pat_completeness auto
termination
  apply (relation "measure (\<lambda>x. case x of
      Inl (b, attrs) \<Rightarrow> size_list (size_prod (\<lambda>_. 0) size) attrs
    | Inr items \<Rightarrow> size_list (size_list (size_prod (\<lambda>_. 0) size)) items)")
  apply auto
  done

fun bound_opt :: "'u pyval option \<Rightarrow> bool" where
  "bound_opt None = False"
| "bound_opt (Some r) = is_bound r"

text \<open>The attribute leaf of the update example: a float bound to a column.\<close>

definition attribute_leaf :: "scalar \<Rightarrow> scalar \<Rightarrow> scalar \<Rightarrow> 'u obj" where
  "attribute_leaf v u r =
     [(''dmtype'', Scalar (PStr ''float'')), (''value'', Scalar v), (''unit'', Scalar u),
      (''ref'', Scalar r)]"

text \<open>
  A vocabulary for the examples: two units, two time formats, and a cast that knows the
  strings \<open>3.5\<close> and \<open>1.5\<close> as floats, returns any value for the type \<open>string\<close> and rejects
  the rest.
\<close>

definition example_vocabulary :: "nat vocabulary" where
  "example_vocabulary =
     \<lparr> unit_mapping = [''mas/yr'' \<mapsto> 7, ''deg'' \<mapsto> 1],
       TIME_FORMATS = [''mjd'', ''jd''],
       cast_type_value = (\<lambda>v t.
         if t = Scalar (PStr ''float'') \<and> v = PStr ''3.5'' then Inr (PFloat 3.5)
         else if t = Scalar (PStr ''float'') \<and> v = PStr ''1.5'' then Inr (PFloat 1.5)
         else if t = Scalar (PStr ''string'') then Inr v
         else Inl (ValueError ''cast'')) \<rparr>"

text \<open>
  Every nested instance that has an attribute \<open>value\<close> also has an attribute \<open>ref\<close>, at every
  depth, in instances and in the items of lists.
\<close>

function refs_present :: "'u obj \<Rightarrow> bool"
  and refs_present_items :: "'u obj list \<Rightarrow> bool"
where
  "refs_present [] = True"
| "refs_present ((key, Scalar v) # attrs) = refs_present attrs"
| "refs_present ((key, UnitObj x) # attrs) = refs_present attrs"
| "refs_present ((key, Instance sub) # attrs) =
     ((hasattr sub ''value'' \<longrightarrow> hasattr sub ''ref'') \<and> refs_present sub \<and> refs_present attrs)"
| "refs_present ((key, Collection items) # attrs) =
     (refs_present_items items \<and> refs_present attrs)"
| "refs_present_items [] = True"
| "refs_present_items (item # items) = (refs_present item \<and> refs_present_items items)"
  by pat_completeness auto
termination
  apply (relation "measure (\<lambda>x. case x of
      Inl attrs \<Rightarrow> size_list (size_prod (\<lambda>_. 0) size) attrs
    | Inr items \<Rightarrow> size_list (size_list (size_prod (\<lambda>_. 0) size)) items)")
  apply auto
  done

text \<open>
  Where an exception of \<open>update\<close> can come from: from the row or the cast helper, which are
  external, or from a lookup of the source itself (a hidden method, a missing \<open>ref\<close> or
  \<open>dmtype\<close>).
\<close>

definition raised_outside :: "'u vocabulary \<Rightarrow> ('u pyval \<Rightarrow> error + scalar) \<Rightarrow> error \<Rightarrow> bool" where
  "raised_outside voc row e =
     ((\<exists>r. row r = Inl e) \<or> (\<exists>raw dmtype. cast_type_value voc raw dmtype = Inl e))"

definition raised_by_lookup :: "error \<Rightarrow> bool" where
  "raised_by_lookup e =
     (e = TypeError ''update'' \<or> e = TypeError ''_remove_model_name''
      \<or> e = AttributeError ''ref'' \<or> e = AttributeError ''dmtype'')"

section \<open>One turn of the loop of the row binder\<close>

text \<open>
  The body of the loop of \<open>update\<close> for one field \<open>(key, value)\<close> of the object, \<open>cur\<close> being
  the object as it is when the turn starts: the field as the turn leaves it, and the
  exception if the turn raised. \<open>update_fields\<close> runs it on the fields in order (lemma
  \<open>update_fields_Cons\<close> below).
\<close>

fun update_entry ::
  "'u vocabulary \<Rightarrow> ('u pyval \<Rightarrow> error + scalar) \<Rightarrow> 'u pyval \<Rightarrow> 'u obj \<Rightarrow> string \<times> 'u pyval
     \<Rightarrow> (string \<times> 'u pyval) \<times> error option" where
  "update_entry voc row ref cur (key, Collection items) =
     (case update_items voc row [] items of
        (items', err) \<Rightarrow> ((key, Collection items'), err))"
| "update_entry voc row ref cur (key, Instance sub) =
     (case (if \<not> hasattr sub ''value'' then update voc row (Scalar PNone) sub
            else (case getattr sub ''ref'' of
                    Inl e \<Rightarrow> (sub, Some e)
                  | Inr r \<Rightarrow> update voc row r sub)) of
        (sub', err) \<Rightarrow> ((key, Instance sub'), err))"
| "update_entry voc row ref cur (key, Scalar v) =
     (case set_value voc row ref cur key of
        Inl e \<Rightarrow> ((key, Scalar v), Some e)
      | Inr None \<Rightarrow> ((key, Scalar v), None)
      | Inr (Some w) \<Rightarrow> ((key, Scalar w), None))"
| "update_entry voc row ref cur (key, UnitObj x) =
     (case set_value voc row ref cur key of
        Inl e \<Rightarrow> ((key, UnitObj x), Some e)
      | Inr None \<Rightarrow> ((key, UnitObj x), None)
      | Inr (Some w) \<Rightarrow> ((key, Scalar w), None))"

section \<open>The reference that reaches a node\<close>

text \<open>
  The reference \<open>update\<close> passes to a nested instance: \<open>None\<close> when the instance has no
  attribute \<open>value\<close>, else what its attribute \<open>ref\<close> holds; reading a missing \<open>ref\<close> raises.
\<close>

definition passed_ref :: "'u obj \<Rightarrow> error + 'u pyval" where
  "passed_ref sub =
     (if \<not> hasattr sub ''value'' then Inr (Scalar PNone) else getattr sub ''ref'')"

text \<open>
  A place below an object: the instance held by an attribute, or an item of the list held
  by an attribute. \<open>reach ref self path\<close> follows a path of places from the object \<open>self\<close>
  updated with the reference \<open>ref\<close>: the node at the end of the path, and the reference
  with which \<open>update\<close> is called on it. Items of a list are updated without a reference.
\<close>

datatype place = Attr string | Elem string nat

fun reach :: "'u pyval \<Rightarrow> 'u obj \<Rightarrow> place list \<Rightarrow> ('u pyval \<times> 'u obj) option" where
  "reach ref self [] = Some (ref, self)"
| "reach ref self (Attr k # path) =
     (case map_of self k of
        Some (Instance sub) \<Rightarrow>
          (case passed_ref sub of Inl e \<Rightarrow> None | Inr r \<Rightarrow> reach r sub path)
      | _ \<Rightarrow> None)"
| "reach ref self (Elem k i # path) =
     (case map_of self k of
        Some (Collection items) \<Rightarrow>
          (if i < length items then reach (Scalar PNone) (items ! i) path else None)
      | _ \<Rightarrow> None)"

section \<open>Trees on which an update raises nothing\<close>

text \<open>
  What the assignment to \<open>value\<close> needs in a node updated with a bound reference: the method
  \<open>_remove_model_name\<close> is not hidden, the row has the reference, the attribute \<open>dmtype\<close> holds
  a scalar, and the cast helper accepts the row value for it.
\<close>

definition castable ::
  "'u vocabulary \<Rightarrow> ('u pyval \<Rightarrow> error + scalar) \<Rightarrow> 'u pyval \<Rightarrow> 'u obj \<Rightarrow> bool" where
  "castable voc row ref self =
     (\<not> hasattr self ''_remove_model_name''
      \<and> (case row ref of
           Inl e \<Rightarrow> False
         | Inr raw \<Rightarrow>
            (case map_of self ''dmtype'' of
               Some (Scalar t) \<Rightarrow>
                 (case cast_type_value voc raw (Scalar t) of Inl e \<Rightarrow> False | Inr w \<Rightarrow> True)
             | _ \<Rightarrow> False)))"

text \<open>
  A condition under which \<open>update\<close> raises nothing: no node hides the method \<open>update\<close>, every
  nested instance with an attribute \<open>value\<close> has an attribute \<open>ref\<close>, and every node that has
  a field \<open>value\<close> holding no instance and no list, and is updated with a bound reference,
  is castable.
\<close>

function updatable ::
    "'u vocabulary \<Rightarrow> ('u pyval \<Rightarrow> error + scalar) \<Rightarrow> 'u pyval \<Rightarrow> 'u obj \<Rightarrow> bool"
  and updatable_fields ::
    "'u vocabulary \<Rightarrow> ('u pyval \<Rightarrow> error + scalar) \<Rightarrow> 'u pyval \<Rightarrow> 'u obj \<Rightarrow> 'u obj \<Rightarrow> bool"
  and updatable_items ::
    "'u vocabulary \<Rightarrow> ('u pyval \<Rightarrow> error + scalar) \<Rightarrow> 'u obj list \<Rightarrow> bool"
where
  "updatable voc row ref self =
     (\<not> hasattr self ''update'' \<and> updatable_fields voc row ref self self)"
| "updatable_fields voc row ref self [] = True"
| "updatable_fields voc row ref self ((key, Scalar v) # todo) =
     ((if key = ''value'' \<and> is_bound ref then castable voc row ref self else True)
      \<and> updatable_fields voc row ref self todo)"
| "updatable_fields voc row ref self ((key, UnitObj x) # todo) =
     ((if key = ''value'' \<and> is_bound ref then castable voc row ref self else True)
      \<and> updatable_fields voc row ref self todo)"
| "updatable_fields voc row ref self ((key, Instance sub) # todo) =
     ((case passed_ref sub of Inl e \<Rightarrow> False | Inr r \<Rightarrow> updatable voc row r sub)
      \<and> updatable_fields voc row ref self todo)"
| "updatable_fields voc row ref self ((key, Collection items) # todo) =
     (updatable_items voc row items \<and> updatable_fields voc row ref self todo)"
| "updatable_items voc row [] = True"
| "updatable_items voc row (item # items) =
     (updatable voc row (Scalar PNone) item \<and> updatable_items voc row items)"
  by pat_completeness auto
termination
  apply (relation "measure (\<lambda>x. case x of
      Inl (voc, row, ref, self) \<Rightarrow> size_list (size_prod (\<lambda>_. 0) size) self + 1
    | Inr (Inl (voc, row, ref, self, todo)) \<Rightarrow> size_list (size_prod (\<lambda>_. 0) size) todo
    | Inr (Inr (voc, row, items)) \<Rightarrow>
        size_list (size_list (size_prod (\<lambda>_. 0) size)) items + 1)")
  apply auto
  done

section \<open>Example trees for the row binder\<close>

text \<open>
  A tree with a scalar, an attribute leaf below an instance that has no \<open>value\<close>, and a list
  of two items: an instance holding an attribute leaf, and an attribute leaf that is itself
  an item. All three leaves are bound to the column \<open>c1\<close>.
\<close>

definition example_source :: "scalar \<Rightarrow> scalar \<Rightarrow> scalar \<Rightarrow> nat obj" where
  "example_source a b c =
     [(''name'', Scalar (PStr ''star'')),
      (''position'', Instance [(''ra'', Instance (attribute_leaf a (PStr ''deg'') (PStr ''c1'')))]),
      (''obs'', Collection
         [[(''mag'', Instance (attribute_leaf b (PStr []) (PStr ''c1'')))],
          attribute_leaf c (PStr []) (PStr ''c1'')])]"

text \<open>The rows of the examples: one the cast accepts, one it rejects in the column \<open>c2\<close>.\<close>

definition example_row :: "nat pyval \<Rightarrow> error + scalar" where
  "example_row = dict_row [''c1'' \<mapsto> PStr ''3.5'']"

definition example_bad_row :: "nat pyval \<Rightarrow> error + scalar" where
  "example_bad_row = dict_row [''c1'' \<mapsto> PStr ''3.5'', ''c2'' \<mapsto> PStr ''n/a'']"

text \<open>
  A tree whose update stops in the middle: an attribute leaf below an instance that has no
  \<open>value\<close>, then a list of three items whose second leaf is bound to the column \<open>c2\<close>, then
  one more attribute leaf. \<open>a\<close> and \<open>b\<close> are the values of the first two leaves.
\<close>

definition example_catalog :: "scalar \<Rightarrow> scalar \<Rightarrow> nat obj" where
  "example_catalog a b =
     [(''position'', Instance [(''ra'', Instance (attribute_leaf a (PStr ''deg'') (PStr ''c1'')))]),
      (''obs'', Collection
         [[(''mag'', Instance (attribute_leaf b (PStr []) (PStr ''c1'')))],
          [(''mag'', Instance (attribute_leaf (PFloat 1.5) (PStr []) (PStr ''c2'')))],
          [(''mag'', Instance (attribute_leaf (PFloat 1.5) (PStr []) (PStr ''c1'')))]]),
      (''dec'', Instance (attribute_leaf (PFloat 1.5) (PStr ''deg'') (PStr ''c1'')))]"

section \<open>One turn of the builder's loop\<close>

text \<open>
  The body of the loop of \<open>_create_class\<close> for one entry: \<open>create_class\<close> runs it on the
  entries in order (lemma \<open>create_class_Cons\<close> below).
\<close>

fun create_entry :: "'u vocabulary \<Rightarrow> string \<times> pyin \<Rightarrow> 'u obj \<Rightarrow> error + 'u obj" where
  "create_entry voc (key, InList items) self =
     (case call_remove_model_name self key False of
        Inl e \<Rightarrow> Inl e
      | Inr name \<Rightarrow>
         (case setattr self name (Collection []) of
            Inl e \<Rightarrow> Inl e
          | Inr self1 \<Rightarrow> create_items voc key items self1))"
| "create_entry voc (key, InDict d) self =
     (case call_is_leaf self d of
        Inl e \<Rightarrow> Inl e
      | Inr leaf1 \<Rightarrow>
         (case (if \<not> leaf1 then set_instance self key True (MivotInstance voc d)
                else Inr self) of
            Inl e \<Rightarrow> Inl e
          | Inr self1 \<Rightarrow>
             (case call_is_leaf self1 d of
                Inl e \<Rightarrow> Inl e
              | Inr leaf2 \<Rightarrow>
                 (if leaf2 then set_instance self1 key False (MivotInstance voc d)
                  else Inr self1))))"
| "create_entry voc (key, InScalar v) self = create_attribute voc key v self"

text \<open>
  The attribute names an entry can assign: the normalized key (with \<open>role_instance\<close> for a
  dict that is no leaf), and for the scalar entry \<open>unit\<close> the two derived attributes.
\<close>

fun writes :: "string \<times> pyin \<Rightarrow> string list" where
  "writes (key, InList items) = [remove_model_name key False]"
| "writes (key, InDict d) = [remove_model_name key (\<not> is_leaf d)]"
| "writes (key, InScalar v) =
     remove_model_name key False #
     (if key = ''unit'' then [''astropy_unit'', ''astropy_unit_time''] else [])"

text \<open>A list of two item dictionaries, and the tree built from it, for the examples.\<close>

definition example_points :: "(string \<times> pyin) list list" where
  "example_points =
     [[(''m:Point.x'', InDict [(''dmtype'', InScalar (PStr ''float'')),
            (''value'', InScalar (PStr ''1.5'')), (''ref'', InScalar (PStr ''c1''))])],
         []]"

definition example_sky :: "scalar \<Rightarrow> nat obj" where
  "example_sky v =
     [(''points'', Collection
        [[(''x'', Instance [(''dmtype'', Scalar (PStr ''float'')), (''value'', Scalar v),
            (''ref'', Scalar (PStr ''c1''))])],
         []])]"

section \<open>What the projection shows\<close>

text \<open>
  The attributes that the comprehension over \<open>obj.__dict__.items()\<close> keeps: the value is not
  callable and the name does not start with an underscore.
\<close>

definition visible :: "'u introspection \<Rightarrow> string \<times> 'u pyval \<Rightarrow> bool" where
  "visible ins kv = (\<not> callable ins (snd kv) \<and> \<not> prefix ''_'' (fst kv))"

text \<open>
  For the examples: an object of \<open>unit_mapping\<close> that is not callable, is true, and is
  returned as it is by the projection.
\<close>

definition example_introspection :: "nat introspection" where
  "example_introspection =
     \<lparr> unit_callable = (\<lambda>x. False), unit_truthy = (\<lambda>x. True),
       unit_class_dict = (\<lambda>classkey slim x. Inr (PObj x)) \<rparr>"

text \<open>
  An observation with two leaves, a time in the time format \<open>mjd\<close> and an angle in degrees,
  as a dictionary and as the tree built from it.
\<close>

definition example_observation :: "(string \<times> pyin) list" where
  "example_observation =
     [(''m:Obs.time'', InDict [(''dmtype'', InScalar (PStr ''float'')),
         (''value'', InScalar (PStr ''3.5'')), (''unit'', InScalar (PStr ''mjd'')),
         (''ref'', InScalar (PStr ''c1''))]),
      (''m:Obs.ra'', InDict [(''dmtype'', InScalar (PStr ''float'')),
         (''value'', InScalar (PStr ''1.5'')), (''unit'', InScalar (PStr ''deg'')),
         (''ref'', InScalar (PStr ''c2''))])]"

definition example_observation_tree :: "nat obj" where
  "example_observation_tree =
     [(''time'', Instance [(''dmtype'', Scalar (PStr ''float'')), (''value'', Scalar (PFloat 3.5)),
         (''unit'', Scalar (PStr ''mjd'')), (''astropy_unit_time'', Scalar (PStr ''mjd'')),
         (''ref'', Scalar (PStr ''c1''))]),
      (''ra'', Instance [(''dmtype'', Scalar (PStr ''float'')), (''value'', Scalar (PFloat 1.5)),
         (''unit'', Scalar (PStr ''deg'')), (''astropy_unit'', UnitObj 1),
         (''ref'', Scalar (PStr ''c2''))])]"

text \<open>
  A nested dictionary without collections, the tree built from it and its full projection.
\<close>

definition example_star :: "(string \<times> pyin) list" where
  "example_star =
     [(''m:Star.pos'', InDict [(''dmtype'', InScalar (PStr ''float'')),
         (''value'', InScalar (PStr ''3.5'')), (''ref'', InScalar (PStr ''c1''))]),
      (''m:Star.kind'', InScalar (PStr ''m:Kind.dwarf''))]"

definition example_star_tree :: "nat obj" where
  "example_star_tree =
     [(''pos'', Instance [(''dmtype'', Scalar (PStr ''float'')), (''value'', Scalar (PFloat 3.5)),
         (''ref'', Scalar (PStr ''c1''))]),
      (''kind'', Scalar (PStr ''dwarf''))]"

definition example_star_plain :: "nat plain" where
  "example_star_plain =
     PDict [(''pos'', PDict [(''dmtype'', PScalar (PStr ''float'')),
              (''value'', PScalar (PFloat 3.5)), (''ref'', PScalar (PStr ''c1''))]),
            (''kind'', PScalar (PStr ''dwarf''))]"

section \<open>Properties of the string methods\<close>

lemma str_find_ge: "- 1 \<le> str_find s sub"
  by (induction s) (auto simp: Let_def)

lemma str_find_char: "(str_find s [c] = - 1) = (c \<notin> set s)"
proof (induction s)
  case Nil
  then show ?case by simp
next
  case (Cons x xs)
  have "- 1 \<le> str_find xs [c]" by (rule str_find_ge)
  with Cons show ?case by (auto simp: Let_def)
qed

lemma str_find_slice:
  "c \<in> set s \<Longrightarrow> slice_from s (str_find s [c] + 1) = after_first c s"
proof (induction s)
  case Nil
  then show ?case by simp
next
  case (Cons x xs)
  show ?case
  proof (cases "x = c")
    case True
    then show ?thesis by (simp add: slice_from_def after_first_def)
  next
    case False
    with Cons.prems have in_xs: "c \<in> set xs" by simp
    then have ne: "str_find xs [c] \<noteq> - 1" by (simp add: str_find_char)
    have ge: "0 \<le> str_find xs [c]" using str_find_ge [of xs "[c]"] ne by linarith
    from Cons.IH [OF in_xs] ge False show ?thesis
      by (simp add: slice_from_def after_first_def Let_def ne nat_add_distrib)
  qed
qed

lemma str_rfind_ge: "- 1 \<le> str_rfind s sub"
  by (induction s) (auto simp: Let_def)

lemma str_rfind_char: "(str_rfind s [c] = - 1) = (c \<notin> set s)"
proof (induction s)
  case Nil
  then show ?case by simp
next
  case (Cons x xs)
  have "- 1 \<le> str_rfind xs [c]" by (rule str_rfind_ge)
  with Cons show ?case by (auto simp: Let_def)
qed

lemma str_rfind_slice:
  "c \<in> set s \<Longrightarrow> slice_from s (str_rfind s [c] + 1) = after_last c s"
proof (induction s)
  case Nil
  then show ?case by simp
next
  case (Cons x xs)
  show ?case
  proof (cases "c \<in> set xs")
    case True
    then have ne: "str_rfind xs [c] \<noteq> - 1" by (simp add: str_rfind_char)
    have ge: "0 \<le> str_rfind xs [c]" using str_rfind_ge [of xs "[c]"] ne by linarith
    from Cons.IH [OF True] ge True show ?thesis
      by (simp add: slice_from_def after_last_def Let_def ne nat_add_distrib )
  next
    case False
    with Cons.prems have x: "x = c" by simp
    from False have "takeWhile (\<lambda>y. y \<noteq> c) (rev xs @ [c]) = rev xs"
      by (subst takeWhile_append2) auto
    with False x show ?thesis
      by (simp add: slice_from_def after_last_def Let_def str_rfind_char)
  qed
qed

lemma str_replace_char:
  "str_replace s [a] [b] = map (\<lambda>x. if x = a then b else x) s"
  by (induction s) auto

lemma set_after_first: "x \<in> set (after_first d s) \<Longrightarrow> x \<in> set s"
proof -
  assume a: "x \<in> set (after_first d s)"
  have ne: "dropWhile (\<lambda>y. y \<noteq> d) s \<noteq> []"
  proof
    assume "dropWhile (\<lambda>y. y \<noteq> d) s = []"
    with a show False by (simp add: after_first_def)
  qed
  from a have "x \<in> set (dropWhile (\<lambda>y. y \<noteq> d) s)"
    unfolding after_first_def by (rule list.set_sel(2) [OF ne])
  then show ?thesis by (rule set_dropWhileD)
qed

lemma after_last_suffix:
  assumes "c \<in> set (after_first d s)"
  shows "after_last c (after_first d s) = after_last c s"
proof -
  have d: "d \<in> set s"
  proof (rule ccontr)
    assume "d \<notin> set s"
    then have "dropWhile (\<lambda>x. x \<noteq> d) s = []" by auto
    with assms show False by (simp add: after_first_def)
  qed
  then have "dropWhile (\<lambda>x. x \<noteq> d) s \<noteq> []" by auto
  then have "dropWhile (\<lambda>x. x \<noteq> d) s = hd (dropWhile (\<lambda>x. x \<noteq> d) s) # after_first d s"
    by (simp add: after_first_def)
  then have "s = (takeWhile (\<lambda>x. x \<noteq> d) s @ [hd (dropWhile (\<lambda>x. x \<noteq> d) s)]) @ after_first d s"
    by (metis append.assoc append_Cons append_Nil takeWhile_dropWhile_id)
  then obtain p where s: "s = p @ after_first d s" by blast
  have "after_last c (p @ after_first d s) = after_last c (after_first d s)"
    using assms by (simp add: after_last_def takeWhile_append1)
  with s show ?thesis by simp
qed


text \<open>
  Claim C3, as stated, fails: on a token with a second colon and no dot, with
  \<open>role_instance\<close> false, the source replaces the second colon by an underscore, where the
  specification keeps the remainder as it is.
\<close>

theorem normalize_spec_counterexample:
  "remove_model_name ''a:b:c'' False \<noteq> normalize_spec ''a:b:c'' False"
  by code_simp

text \<open>
  Claim C3, amended: \<open>_remove_model_name\<close> agrees with the specification's normalizer on every
  token without a colon, on every token when \<open>role_instance\<close> is true, and, when
  \<open>role_instance\<close> is false, on every token whose remainder after the first colon contains a
  dot. On a token with a colon and no dot at all it returns, also when \<open>role_instance\<close> is
  false, the remainder with its colons replaced by underscores. The three examples of the
  specification hold.
\<close>

theorem remove_model_name_normalize:
  "(role_instance \<or> CHR '':'' \<notin> set token \<or> CHR ''.'' \<in> set (after_first CHR '':'' token)
      \<longrightarrow> remove_model_name token role_instance = normalize_spec token role_instance)
   \<and> (CHR '':'' \<in> set token \<and> CHR ''.'' \<notin> set token
      \<longrightarrow> remove_model_name token False = underscores (after_first CHR '':'' token))
   \<and> remove_model_name ''model:Class.attr'' False = ''attr''
   \<and> remove_model_name ''model:Class.attr'' True = ''Class_attr''
   \<and> remove_model_name ''plain'' False = ''plain''"
proof (intro conjI impI)
  assume a: "role_instance \<or> CHR '':'' \<notin> set token \<or> CHR ''.'' \<in> set (after_first CHR '':'' token)"
  show "remove_model_name token role_instance = normalize_spec token role_instance"
  proof (cases "CHR '':'' \<in> set token")
    case False
    then show ?thesis
      by (simp add: remove_model_name_def normalize_spec_def str_find_char)
  next
    case colon: True
    show ?thesis
    proof (cases role_instance)
      case True
      with colon show ?thesis
        by (simp add: remove_model_name_def normalize_spec_def str_find_char str_find_slice
            str_replace_char underscores_def Let_def)
    next
      case False
      with a colon have dot: "CHR ''.'' \<in> set (after_first CHR '':'' token)" by simp
      then have "CHR ''.'' \<in> set token"
        by (rule set_after_first)
      with False colon dot show ?thesis
        by (simp add: remove_model_name_def normalize_spec_def str_find_char str_rfind_char
            str_rfind_slice after_last_suffix Let_def)
    qed
  qed
next
  assume "CHR '':'' \<in> set token \<and> CHR ''.'' \<notin> set token"
  then show "remove_model_name token False = underscores (after_first CHR '':'' token)"
    by (simp add: remove_model_name_def str_find_char str_rfind_char str_find_slice
        str_replace_char underscores_def Let_def)
next
  show "remove_model_name ''model:Class.attr'' False = ''attr''" by code_simp
next
  show "remove_model_name ''model:Class.attr'' True = ''Class_attr''" by code_simp
next
  show "remove_model_name ''plain'' False = ''plain''" by code_simp
qed

text \<open>The amended claim at two tokens that satisfy its hypotheses.\<close>

theorem remove_model_name_normalize_witness:
  "CHR ''.'' \<in> set (after_first CHR '':'' ''model:Class.attr'')
   \<and> remove_model_name ''model:Class.attr'' False = normalize_spec ''model:Class.attr'' False
   \<and> CHR '':'' \<in> set ''a:b:c'' \<and> CHR ''.'' \<notin> set ''a:b:c''
   \<and> remove_model_name ''a:b:c'' False = underscores (after_first CHR '':'' ''a:b:c'')"
  using remove_model_name_normalize [of False "''model:Class.attr''"]
    remove_model_name_normalize [of False "''a:b:c''"]
  by (simp add: after_first_def)

section \<open>Properties of attribute access\<close>

lemma getattr_missing: "\<not> hasattr self name \<Longrightarrow> getattr self name = Inl (AttributeError name)"
proof -
  assume "\<not> hasattr self name"
  then have "map_of self name = None" by (simp add: hasattr_def map_of_eq_None_iff)
  then show ?thesis by (simp add: getattr_def)
qed

lemma getattr_present: "hasattr self name \<Longrightarrow> \<exists>v. getattr self name = Inr v"
  by (cases "map_of self name") (auto simp: hasattr_def getattr_def map_of_eq_None_iff)

lemma getattr_Inr: "getattr self name = Inr v \<Longrightarrow> map_of self name = Some v"
  by (cases "map_of self name") (simp_all add: getattr_def)

section \<open>Properties of the builder\<close>

lemma create_class_Cons:
  "create_class voc (e # kwargs) self =
     (case create_entry voc e self of Inl err \<Rightarrow> Inl err | Inr self1 \<Rightarrow> create_class voc kwargs self1)"
proof -
  obtain key v where e: "e = (key, v)" by (cases e)
  show ?thesis unfolding e
    by (cases v) (simp_all split: sum.splits)
qed

lemma create_class_append:
  "create_class voc (xs @ ys) self =
     (case create_class voc xs self of Inl err \<Rightarrow> Inl err | Inr self1 \<Rightarrow> create_class voc ys self1)"
proof (induction xs arbitrary: self)
  case Nil
  then show ?case by simp
next
  case (Cons e xs)
  then show ?case by (simp add: create_class_Cons split: sum.splits)
qed

lemma hasattr_map_of: "hasattr self name = (map_of self name \<noteq> None)"
  by (simp add: hasattr_def map_of_eq_None_iff)

lemma setattr_other:
  "setattr self name v = Inr s \<Longrightarrow> x \<noteq> name \<Longrightarrow> map_of s x = map_of self x"
  by (auto simp: setattr_def update_conv' split: option.splits)

lemma setattr_same:
  "setattr self name v = Inr s \<Longrightarrow> map_of s name = Some v"
  by (auto simp: setattr_def update_conv' split: option.splits)

lemma call_remove_model_name_Inr:
  "call_remove_model_name self key role = Inr name \<Longrightarrow> name = remove_model_name key role"
  by (auto simp: call_remove_model_name_def split: option.splits)



lemma append_child_Inr:
  "append_child lst name child self = Inr s \<Longrightarrow>
   \<exists>cs. lst = Collection cs \<and> s = AList.update name (Collection (cs @ [child])) self"
  by (cases lst) simp_all

lemma list_append_Inr:
  assumes "list_append self key built = Inr s"
  shows "\<exists>cs child. built = Inr child
           \<and> map_of self (remove_model_name key False) = Some (Collection cs)
           \<and> s = AList.update (remove_model_name key False) (Collection (cs @ [child])) self
           \<and> \<not> hasattr self ''_remove_model_name''"
proof -
  from assms have nh: "\<not> hasattr self ''_remove_model_name''"
    by (auto simp: list_append_def call_remove_model_name_def method_hidden_def
        split: if_splits)
  then have n: "call_remove_model_name self key False = Inr (remove_model_name key False)"
    by (simp add: call_remove_model_name_def method_hidden_def)
  from assms n obtain lst where g: "getattr self (remove_model_name key False) = Inr lst"
    by (cases "getattr self (remove_model_name key False)") (simp_all add: list_append_def)
  from assms n g obtain child where b: "built = Inr child"
    by (cases built) (simp_all add: list_append_def)
  from assms n g b have "append_child lst (remove_model_name key False) child self = Inr s"
    by (simp add: list_append_def)
  from append_child_Inr [OF this] obtain cs where
    "lst = Collection cs"
    "s = AList.update (remove_model_name key False) (Collection (cs @ [child])) self"
    by blast
  moreover from g have "map_of self (remove_model_name key False) = Some lst"
    by (cases "map_of self (remove_model_name key False)") (simp_all add: getattr_def)
  ultimately show ?thesis using b nh by simp
qed

lemma create_items_other:
  "create_items voc key items self = Inr s \<Longrightarrow> x \<noteq> remove_model_name key False \<Longrightarrow>
   map_of s x = map_of self x"
proof (induction items arbitrary: self)
  case Nil
  then show ?case by simp
next
  case (Cons item items)
  from Cons.prems(1) obtain self1 where
    l: "list_append self key (unpack voc item) = Inr self1"
    and r: "create_items voc key items self1 = Inr s"
    by (cases "list_append self key (unpack voc item)") simp_all
  from list_append_Inr [OF l] Cons.prems(2) have "map_of self1 x = map_of self x"
    by (auto simp: update_conv')
  with Cons.IH [OF r Cons.prems(2)] show ?case by simp
qed


lemma call_remove_model_name_cases:
  "call_remove_model_name self key role =
     (if hasattr self ''_remove_model_name'' then Inl (TypeError ''_remove_model_name'')
      else Inr (remove_model_name key role))"
  by (simp add: call_remove_model_name_def method_hidden_def)

lemma call_remove_model_name_value_cases:
  "call_remove_model_name_value self v =
     (if hasattr self ''_remove_model_name'' then Inl (TypeError ''_remove_model_name'')
      else Inr (remove_model_name_value v False))"
  by (simp add: call_remove_model_name_value_def method_hidden_def)

lemma create_attribute_Inr:
  assumes "create_attribute voc key v self = Inr s"
  shows "\<exists>w self1. \<not> hasattr self ''_remove_model_name''
           \<and> setattr self (remove_model_name key False) (Scalar w) = Inr self1
           \<and> (if key = ''value''
                then (\<exists>dmtype. getattr self ''dmtype'' = Inr dmtype
                        \<and> cast_type_value voc v dmtype = Inr w)
                else w = remove_model_name_value v False)
           \<and> (if key = ''unit''
                then (\<exists>u. unit_lookup_key v = Inr u \<and> attach_unit voc u self1 = Inr s)
                else s = self1)"
proof -
  from assms have nh: "\<not> hasattr self ''_remove_model_name''"
    by (auto simp: create_attribute_def call_remove_model_name_cases split: if_splits)
  show ?thesis
  proof (cases "key = ''value''")
    case True
    with assms nh show ?thesis
      by (auto simp: create_attribute_def call_remove_model_name_cases split: sum.splits)
  next
    case False
    with assms nh show ?thesis
      by (auto simp: create_attribute_def call_remove_model_name_cases
          call_remove_model_name_value_cases split: sum.splits if_splits)
  qed
qed

lemma attach_unit_other:
  "attach_unit voc u self = Inr s \<Longrightarrow> x \<noteq> ''astropy_unit'' \<Longrightarrow> x \<noteq> ''astropy_unit_time'' \<Longrightarrow>
   map_of s x = map_of self x"
  by (cases u) (auto split: option.splits if_splits dest: setattr_other)


lemma set_instance_Inr:
  assumes "set_instance self key role built = Inr s"
  shows "\<exists>child. built = Inr child \<and> \<not> hasattr self ''_remove_model_name''
           \<and> setattr self (remove_model_name key role) (Instance child) = Inr s"
proof -
  from assms have nh: "\<not> hasattr self ''_remove_model_name''"
    by (auto simp: set_instance_def call_remove_model_name_cases split: if_splits)
  with assms show ?thesis
    by (cases built) (simp_all add: set_instance_def call_remove_model_name_cases)
qed

lemma call_is_leaf_Inr:
  "call_is_leaf self d = Inr b \<Longrightarrow>
   b = is_leaf d \<and> \<not> hasattr self ''_is_leaf'' \<and> ''self'' \<notin> set (map fst d)"
  by (auto simp: call_is_leaf_def method_hidden_def split: if_splits)

lemma create_entry_dict_Inr:
  assumes "create_entry voc (key, InDict d) self = Inr s"
  shows "\<exists>child. MivotInstance voc d = Inr child
           \<and> setattr self (remove_model_name key (\<not> is_leaf d)) (Instance child) = Inr s"
proof -
  from assms obtain leaf1 where l1: "call_is_leaf self d = Inr leaf1"
    by (cases "call_is_leaf self d") simp_all
  then have leaf1: "leaf1 = is_leaf d" by (simp add: call_is_leaf_Inr)
  show ?thesis
  proof (cases "is_leaf d")
    case True
    with assms l1 leaf1 have "set_instance self key False (MivotInstance voc d) = Inr s"
      by simp
    from set_instance_Inr [OF this] True show ?thesis
      by (auto simp del: MivotInstance.simps)
  next
    case False
    with assms l1 leaf1 obtain self1 where
      s1: "set_instance self key True (MivotInstance voc d) = Inr self1"
      by (cases "set_instance self key True (MivotInstance voc d)") simp_all
    with assms l1 leaf1 False obtain leaf2 where l2: "call_is_leaf self1 d = Inr leaf2"
      by (cases "call_is_leaf self1 d") simp_all
    then have "leaf2 = is_leaf d" by (simp add: call_is_leaf_Inr)
    with assms l1 leaf1 False s1 l2 have "s = self1" by simp
    with set_instance_Inr [OF s1] False show ?thesis
      by (auto simp del: MivotInstance.simps)
  qed
qed

lemma create_items_Inr:
  "create_items voc key items self = Inr s \<Longrightarrow>
   map_of self (remove_model_name key False) = Some (Collection cs) \<Longrightarrow>
   \<exists>children. list_all2 (\<lambda>item child. unpack voc item = Inr child) items children
     \<and> map_of s (remove_model_name key False) = Some (Collection (cs @ children))"
proof (induction items arbitrary: self cs)
  case Nil
  then show ?case by simp
next
  case (Cons item items)
  from Cons.prems(1) obtain self1 where
    l: "list_append self key (unpack voc item) = Inr self1"
    and r: "create_items voc key items self1 = Inr s"
    by (cases "list_append self key (unpack voc item)") simp_all
  from list_append_Inr [OF l] Cons.prems(2) obtain child where
    c: "unpack voc item = Inr child"
    and s1: "map_of self1 (remove_model_name key False) = Some (Collection (cs @ [child]))"
    by (auto simp: update_conv')
  from Cons.IH [OF r s1] obtain children where
    "list_all2 (\<lambda>item child. unpack voc item = Inr child) items children"
    "map_of s (remove_model_name key False) = Some (Collection ((cs @ [child]) @ children))"
    by blast
  with c have "list_all2 (\<lambda>item child. unpack voc item = Inr child) (item # items) (child # children)
    \<and> map_of s (remove_model_name key False) = Some (Collection (cs @ child # children))"
    by simp
  then show ?case by blast
qed

lemma create_entry_list_Inr:
  assumes "create_entry voc (key, InList items) self = Inr s"
  shows "\<exists>children. list_all2 (\<lambda>item child. unpack voc item = Inr child) items children
           \<and> map_of s (remove_model_name key False) = Some (Collection children)"
proof -
  from assms have nh: "\<not> hasattr self ''_remove_model_name''"
    by (auto simp: call_remove_model_name_cases split: if_splits)
  with assms obtain self1 where
    s1: "setattr self (remove_model_name key False) (Collection []) = Inr self1"
    and r: "create_items voc key items self1 = Inr s"
    by (cases "setattr self (remove_model_name key False) (Collection [])")
       (simp_all add: call_remove_model_name_cases)
  from create_items_Inr [OF r, of "[]"] setattr_same [OF s1] show ?thesis by simp
qed

lemma create_entry_other:
  assumes "create_entry voc e self = Inr s" and "x \<notin> set (writes e)"
  shows "map_of s x = map_of self x"
proof -
  obtain key v where e: "e = (key, v)" by (cases e)
  show ?thesis
  proof (cases v)
    case (InScalar w)
    with assms e have c: "create_attribute voc key w self = Inr s"
      and x: "x \<noteq> remove_model_name key False"
      and xu: "key = ''unit'' \<longrightarrow> x \<noteq> ''astropy_unit'' \<and> x \<noteq> ''astropy_unit_time''"
      by (simp_all split: if_splits)
    from create_attribute_Inr [OF c] obtain w' self1 where
      s1: "setattr self (remove_model_name key False) (Scalar w') = Inr self1"
      and u: "if key = ''unit''
                then (\<exists>u. unit_lookup_key w = Inr u \<and> attach_unit voc u self1 = Inr s)
                else s = self1"
      by blast
    from setattr_other [OF s1 x] have "map_of self1 x = map_of self x" .
    moreover from u xu have "map_of s x = map_of self1 x"
      by (auto split: if_splits dest: attach_unit_other)
    ultimately show ?thesis by simp
  next
    case (InDict d)
    with assms e create_entry_dict_Inr [of voc key d self s] show ?thesis
      by (auto simp del: MivotInstance.simps create_entry.simps dest: setattr_other)
  next
    case (InList items)
    with assms e have c: "create_entry voc (key, InList items) self = Inr s"
      and x: "x \<noteq> remove_model_name key False" by simp_all
    from c have nh: "\<not> hasattr self ''_remove_model_name''"
      by (auto simp: call_remove_model_name_cases split: if_splits)
    with c obtain self1 where
      s1: "setattr self (remove_model_name key False) (Collection []) = Inr self1"
      and r: "create_items voc key items self1 = Inr s"
      by (cases "setattr self (remove_model_name key False) (Collection [])")
         (simp_all add: call_remove_model_name_cases)
    from create_items_other [OF r x] setattr_other [OF s1 x] show ?thesis by simp
  qed
qed

lemma create_class_other:
  "create_class voc kwargs self = Inr s \<Longrightarrow> \<forall>e\<in>set kwargs. x \<notin> set (writes e) \<Longrightarrow>
   map_of s x = map_of self x"
proof (induction kwargs arbitrary: self)
  case Nil
  then show ?case by simp
next
  case (Cons e kwargs)
  from Cons.prems(1) obtain self1 where
    e: "create_entry voc e self = Inr self1" and r: "create_class voc kwargs self1 = Inr s"
    by (cases "create_entry voc e self") (simp_all add: create_class_Cons)
  from Cons.IH [OF r] Cons.prems(2) create_entry_other [OF e, of x] show ?case by simp
qed

lemma create_class_split:
  assumes "create_class voc (pre @ e # post) self = Inr s"
  shows "\<exists>s1 s2. create_class voc pre self = Inr s1 \<and> create_entry voc e s1 = Inr s2
           \<and> create_class voc post s2 = Inr s"
proof -
  from assms obtain s1 where p: "create_class voc pre self = Inr s1"
    and r: "create_class voc (e # post) s1 = Inr s"
    by (cases "create_class voc pre self") (simp_all add: create_class_append)
  from r obtain s2 where "create_entry voc e s1 = Inr s2" "create_class voc post s2 = Inr s"
    by (cases "create_entry voc e s1") (simp_all add: create_class_Cons)
  with p show ?thesis by blast
qed


lemma MivotInstance_Inr:
  "MivotInstance voc d = Inr self \<Longrightarrow>
   ''self'' \<notin> set (map fst d) \<and> create_class voc d [] = Inr self"
  by (auto split: if_splits)

text \<open>
  Claim C9: a dictionary in which the scalar entry \<open>value\<close> comes before every entry that
  assigns \<open>dmtype\<close> cannot be built: the constructor raises. The shape is not checked: when
  the entries before \<open>value\<close> were processed without error and left neither an attribute
  \<open>dmtype\<close> nor one hiding \<open>_remove_model_name\<close>, the error is the missing attribute
  \<open>dmtype\<close>. When the construction succeeds, the attribute \<open>dmtype\<close> was set before \<open>value\<close>
  was processed, and the stored value is the cast of the raw scalar to that \<open>dmtype\<close>
  (provided no later entry assigns \<open>value\<close> again).
\<close>

theorem value_before_dmtype:
  "((\<forall>e\<in>set pre. ''dmtype'' \<notin> set (writes e)) \<longrightarrow>
      (\<exists>err. MivotInstance voc (pre @ (''value'', InScalar v) # post) = Inl err))
   \<and> (''self'' \<notin> set (map fst (pre @ (''value'', InScalar v) # post))
        \<and> create_class voc pre [] = Inr self1
        \<and> \<not> hasattr self1 ''dmtype'' \<and> \<not> hasattr self1 ''_remove_model_name'' \<longrightarrow>
      MivotInstance voc (pre @ (''value'', InScalar v) # post) = Inl (AttributeError ''dmtype''))
   \<and> (MivotInstance voc (pre @ (''value'', InScalar v) # post) = Inr self
        \<and> (\<forall>e\<in>set post. ''value'' \<notin> set (writes e)) \<longrightarrow>
      (\<exists>self2 dmtype w. create_class voc pre [] = Inr self2
         \<and> getattr self2 ''dmtype'' = Inr dmtype
         \<and> cast_type_value voc v dmtype = Inr w
         \<and> map_of self ''value'' = Some (Scalar w)))"
proof (intro conjI impI)
  assume nd: "\<forall>e\<in>set pre. ''dmtype'' \<notin> set (writes e)"
  show "\<exists>err. MivotInstance voc (pre @ (''value'', InScalar v) # post) = Inl err"
  proof (cases "MivotInstance voc (pre @ (''value'', InScalar v) # post)")
    case (Inl err)
    then show ?thesis by blast
  next
    case (Inr self)
    then have "create_class voc (pre @ (''value'', InScalar v) # post) [] = Inr self"
      by (simp add: MivotInstance_Inr)
    from create_class_split [OF this] obtain s1 s2 where
      p: "create_class voc pre [] = Inr s1"
      and e: "create_entry voc (''value'', InScalar v) s1 = Inr s2" by blast
    from create_class_other [OF p nd] have "map_of s1 ''dmtype'' = None" by simp
    then have "getattr s1 ''dmtype'' = Inl (AttributeError ''dmtype'')"
      by (simp add: getattr_def)
    with e create_attribute_Inr [of voc "''value''" v s1 s2] show ?thesis by auto
  qed
next
  assume a: "''self'' \<notin> set (map fst (pre @ (''value'', InScalar v) # post))
        \<and> create_class voc pre [] = Inr self1
        \<and> \<not> hasattr self1 ''dmtype'' \<and> \<not> hasattr self1 ''_remove_model_name''"
  then have "create_attribute voc ''value'' v self1 = Inl (AttributeError ''dmtype'')"
    by (simp add: create_attribute_def call_remove_model_name_cases getattr_missing)
  with a show "MivotInstance voc (pre @ (''value'', InScalar v) # post)
      = Inl (AttributeError ''dmtype'')"
    by (simp add: create_class_append create_class_Cons del: create_class.simps)
next
  assume a: "MivotInstance voc (pre @ (''value'', InScalar v) # post) = Inr self
        \<and> (\<forall>e\<in>set post. ''value'' \<notin> set (writes e))"
  then have "create_class voc (pre @ (''value'', InScalar v) # post) [] = Inr self"
    by (simp add: MivotInstance_Inr)
  from create_class_split [OF this] obtain s1 s2 where
    p: "create_class voc pre [] = Inr s1"
    and e: "create_entry voc (''value'', InScalar v) s1 = Inr s2"
    and r: "create_class voc post s2 = Inr self" by blast
  from e have c: "create_attribute voc ''value'' v s1 = Inr s2" by simp
  have rv: "remove_model_name ''value'' False = ''value''" by code_simp
  from create_attribute_Inr [OF c] rv obtain w dmtype where
    s: "setattr s1 ''value'' (Scalar w) = Inr s2"
    and g: "getattr s1 ''dmtype'' = Inr dmtype"
    and k: "cast_type_value voc v dmtype = Inr w"
    by auto
  from create_class_other [OF r, of "''value''"] a setattr_same [OF s]
  have "map_of self ''value'' = Some (Scalar w)" by simp
  with p g k show "\<exists>self2 dmtype w. create_class voc pre [] = Inr self2
         \<and> getattr self2 ''dmtype'' = Inr dmtype
         \<and> cast_type_value voc v dmtype = Inr w
         \<and> map_of self ''value'' = Some (Scalar w)" by blast
qed

text \<open>Claim C9 at the dictionary with \<open>value\<close> first, and at the one with \<open>dmtype\<close> first.\<close>

theorem value_before_dmtype_witness:
  "MivotInstance example_vocabulary
        [(''value'', InScalar (PStr ''3.5'')), (''dmtype'', InScalar (PStr ''float''))]
      = Inl (AttributeError ''dmtype'')
   \<and> MivotInstance example_vocabulary
        [(''dmtype'', InScalar (PStr ''float'')), (''value'', InScalar (PStr ''3.5''))]
      = Inr [(''dmtype'', Scalar (PStr ''float'')), (''value'', Scalar (PFloat 3.5))]
   \<and> (\<exists>self2 dmtype w.
        create_class example_vocabulary [(''dmtype'', InScalar (PStr ''float''))] [] = Inr self2
        \<and> getattr self2 ''dmtype'' = Inr dmtype
        \<and> cast_type_value example_vocabulary (PStr ''3.5'') dmtype = Inr w
        \<and> map_of [(''dmtype'', Scalar (PStr ''float'')), (''value'', Scalar (PFloat 3.5))]
             ''value'' = Some (Scalar w :: nat pyval))"
proof -
  have a: "MivotInstance example_vocabulary
        [(''value'', InScalar (PStr ''3.5'')), (''dmtype'', InScalar (PStr ''float''))]
      = Inl (AttributeError ''dmtype'')"
    by code_simp
  have b: "MivotInstance example_vocabulary
        [(''dmtype'', InScalar (PStr ''float'')), (''value'', InScalar (PStr ''3.5''))]
      = Inr [(''dmtype'', Scalar (PStr ''float'')), (''value'', Scalar (PFloat 3.5))]"
    by code_simp
  from a b
    value_before_dmtype [of "[]" example_vocabulary "PStr ''3.5''"
      "[(''dmtype'', InScalar (PStr ''float''))]"]
    value_before_dmtype [of "[(''dmtype'', InScalar (PStr ''float''))]" example_vocabulary
      "PStr ''3.5''" "[]" _ "[(''dmtype'', Scalar (PStr ''float'')), (''value'', Scalar (PFloat 3.5))]"]
  show ?thesis by simp
qed


lemma create_unit_step:
  assumes "\<not> hasattr s ''_remove_model_name''"
  shows "create_attribute voc ''unit'' (PStr w) s
        = attach_unit voc (if w = [] then PNone else PStr (str_replace w ''year'' ''yr''))
            (AList.update ''unit'' (Scalar (PStr (remove_model_name w False))) s)"
proof -
  have ru: "remove_model_name ''unit'' False = ''unit''" by code_simp
  from assms show ?thesis
    by (simp add: create_attribute_def call_remove_model_name_cases
        call_remove_model_name_value_cases ru setattr_def setattr_error_def unit_lookup_key_def)
qed

lemma attach_unit_unknown:
  "unit_mapping voc (str_replace w ''year'' ''yr'') = None \<Longrightarrow>
   str_replace w ''year'' ''yr'' \<notin> set (TIME_FORMATS voc) \<Longrightarrow>
   attach_unit voc (if w = [] then PNone else PStr (str_replace w ''year'' ''yr'')) s = Inr s"
  by simp

lemma unit_entry_built:
  assumes "MivotInstance voc (pre @ (''unit'', InScalar (PStr w)) # post) = Inr self"
  shows "\<exists>s1 s2. create_class voc pre [] = Inr s1
           \<and> \<not> hasattr s1 ''_remove_model_name''
           \<and> create_attribute voc ''unit'' (PStr w) s1 = Inr s2
           \<and> create_class voc post s2 = Inr self"
proof -
  from assms have "create_class voc (pre @ (''unit'', InScalar (PStr w)) # post) [] = Inr self"
    by (simp add: MivotInstance_Inr)
  from create_class_split [OF this] obtain s1 s2 where
    p: "create_class voc pre [] = Inr s1"
    and e: "create_entry voc (''unit'', InScalar (PStr w)) s1 = Inr s2"
    and r: "create_class voc post s2 = Inr self" by blast
  from e have c: "create_attribute voc ''unit'' (PStr w) s1 = Inr s2" by simp
  from create_attribute_Inr [OF c] have "\<not> hasattr s1 ''_remove_model_name''" by blast
  with p c r show ?thesis by blast
qed

text \<open>
  Claim C1, amended: the entry \<open>unit = "mas/year"\<close> stores the raw string \<open>mas/year\<close> as it is
  (only name-normalized, which leaves it unchanged); the string rewritten to \<open>mas/yr\<close> is only
  the key of the lookups. When \<open>mas/yr\<close> is in \<open>unit_mapping\<close> the attribute \<open>astropy_unit\<close>
  is set to the mapped object; else, when it is a time format, \<open>astropy_unit_time\<close> is set to
  the rewritten string. For any unit string whose rewritten form is in neither table, only
  the raw string is stored, no derived attribute is added, and the entry raises nothing.
  The statements on the built object hold when no later entry assigns the same attributes.
\<close>

theorem unit_attribute:
  "(\<not> hasattr self0 ''_remove_model_name'' \<longrightarrow>
      create_attribute voc ''unit'' (PStr ''mas/year'') self0
        = Inr (case unit_mapping voc ''mas/yr'' of
                 Some x \<Rightarrow> AList.update ''astropy_unit'' (UnitObj x)
                            (AList.update ''unit'' (Scalar (PStr ''mas/year'')) self0)
               | None \<Rightarrow>
                   if ''mas/yr'' \<in> set (TIME_FORMATS voc)
                   then AList.update ''astropy_unit_time'' (Scalar (PStr ''mas/yr''))
                          (AList.update ''unit'' (Scalar (PStr ''mas/year'')) self0)
                   else AList.update ''unit'' (Scalar (PStr ''mas/year'')) self0))
   \<and> (MivotInstance voc (pre @ (''unit'', InScalar (PStr ''mas/year'')) # post) = Inr self
        \<and> (\<forall>e\<in>set post. ''unit'' \<notin> set (writes e) \<and> ''astropy_unit'' \<notin> set (writes e)) \<longrightarrow>
      map_of self ''unit'' = Some (Scalar (PStr ''mas/year''))
      \<and> (\<forall>x. unit_mapping voc ''mas/yr'' = Some x \<longrightarrow>
            map_of self ''astropy_unit'' = Some (UnitObj x)))
   \<and> (\<not> hasattr self0 ''_remove_model_name''
        \<and> unit_mapping voc (str_replace u ''year'' ''yr'') = None
        \<and> str_replace u ''year'' ''yr'' \<notin> set (TIME_FORMATS voc) \<longrightarrow>
      create_attribute voc ''unit'' (PStr u) self0
        = Inr (AList.update ''unit'' (Scalar (PStr (remove_model_name u False))) self0))
   \<and> (MivotInstance voc (pre @ (''unit'', InScalar (PStr u)) # post) = Inr self
        \<and> unit_mapping voc (str_replace u ''year'' ''yr'') = None
        \<and> str_replace u ''year'' ''yr'' \<notin> set (TIME_FORMATS voc)
        \<and> (\<forall>e\<in>set pre. ''astropy_unit'' \<notin> set (writes e)
              \<and> ''astropy_unit_time'' \<notin> set (writes e))
        \<and> (\<forall>e\<in>set post. ''unit'' \<notin> set (writes e) \<and> ''astropy_unit'' \<notin> set (writes e)
              \<and> ''astropy_unit_time'' \<notin> set (writes e)) \<longrightarrow>
      map_of self ''unit'' = Some (Scalar (PStr (remove_model_name u False)))
      \<and> \<not> hasattr self ''astropy_unit'' \<and> \<not> hasattr self ''astropy_unit_time'')"
proof (intro conjI impI allI)
  have rm: "remove_model_name ''mas/year'' False = ''mas/year''" by code_simp
  have sm: "str_replace ''mas/year'' ''year'' ''yr'' = ''mas/yr''" by code_simp
  {
    assume "\<not> hasattr self0 ''_remove_model_name''"
    from create_unit_step [OF this, of voc "''mas/year''"]
    show "create_attribute voc ''unit'' (PStr ''mas/year'') self0
        = Inr (case unit_mapping voc ''mas/yr'' of
                 Some x \<Rightarrow> AList.update ''astropy_unit'' (UnitObj x)
                            (AList.update ''unit'' (Scalar (PStr ''mas/year'')) self0)
               | None \<Rightarrow>
                   if ''mas/yr'' \<in> set (TIME_FORMATS voc)
                   then AList.update ''astropy_unit_time'' (Scalar (PStr ''mas/yr''))
                          (AList.update ''unit'' (Scalar (PStr ''mas/year'')) self0)
                   else AList.update ''unit'' (Scalar (PStr ''mas/year'')) self0)"
      by (simp add: rm sm setattr_def setattr_error_def split: option.splits)
  }
  {
    assume a: "MivotInstance voc (pre @ (''unit'', InScalar (PStr ''mas/year'')) # post) = Inr self
        \<and> (\<forall>e\<in>set post. ''unit'' \<notin> set (writes e) \<and> ''astropy_unit'' \<notin> set (writes e))"
    from unit_entry_built [of voc pre "''mas/year''" post self] a obtain s1 s2 where
      nh: "\<not> hasattr s1 ''_remove_model_name''"
      and c: "create_attribute voc ''unit'' (PStr ''mas/year'') s1 = Inr s2"
      and r: "create_class voc post s2 = Inr self" by blast
    from c create_unit_step [OF nh, of voc "''mas/year''"]
    have s2: "attach_unit voc (PStr ''mas/yr'')
        (AList.update ''unit'' (Scalar (PStr ''mas/year'')) s1) = Inr s2"
      by (simp add: rm sm)
    from attach_unit_other [OF s2, of "''unit''"]
    have "map_of s2 ''unit'' = Some (Scalar (PStr ''mas/year''))"
      by (simp add: update_conv')
    with create_class_other [OF r, of "''unit''"] a
    show "map_of self ''unit'' = Some (Scalar (PStr ''mas/year''))" by simp
    fix x
    assume "unit_mapping voc ''mas/yr'' = Some x"
    with s2 have "map_of s2 ''astropy_unit'' = Some (UnitObj x)"
      by (auto simp: setattr_def setattr_error_def update_conv')
    with create_class_other [OF r, of "''astropy_unit''"] a
    show "map_of self ''astropy_unit'' = Some (UnitObj x)" by simp
  }
  {
    assume a: "\<not> hasattr self0 ''_remove_model_name''
        \<and> unit_mapping voc (str_replace u ''year'' ''yr'') = None
        \<and> str_replace u ''year'' ''yr'' \<notin> set (TIME_FORMATS voc)"
    then show "create_attribute voc ''unit'' (PStr u) self0
        = Inr (AList.update ''unit'' (Scalar (PStr (remove_model_name u False))) self0)"
      using create_unit_step [of self0 voc u] attach_unit_unknown [of voc u] by simp
  }
  {
    assume a: "MivotInstance voc (pre @ (''unit'', InScalar (PStr u)) # post) = Inr self
        \<and> unit_mapping voc (str_replace u ''year'' ''yr'') = None
        \<and> str_replace u ''year'' ''yr'' \<notin> set (TIME_FORMATS voc)
        \<and> (\<forall>e\<in>set pre. ''astropy_unit'' \<notin> set (writes e)
              \<and> ''astropy_unit_time'' \<notin> set (writes e))
        \<and> (\<forall>e\<in>set post. ''unit'' \<notin> set (writes e) \<and> ''astropy_unit'' \<notin> set (writes e)
              \<and> ''astropy_unit_time'' \<notin> set (writes e))"
    from unit_entry_built [of voc pre u post self] a obtain s1 s2 where
      p: "create_class voc pre [] = Inr s1"
      and nh: "\<not> hasattr s1 ''_remove_model_name''"
      and c: "create_attribute voc ''unit'' (PStr u) s1 = Inr s2"
      and r: "create_class voc post s2 = Inr self" by blast
    from c a create_unit_step [OF nh, of voc u] attach_unit_unknown [of voc u]
    have s2: "s2 = AList.update ''unit'' (Scalar (PStr (remove_model_name u False))) s1"
      by simp
    from create_class_other [OF p, of "''astropy_unit''"] a
    have u1: "map_of s1 ''astropy_unit'' = None" by simp
    from create_class_other [OF p, of "''astropy_unit_time''"] a
    have t1: "map_of s1 ''astropy_unit_time'' = None" by simp
    from create_class_other [OF r, of "''unit''"] a s2
    show "map_of self ''unit'' = Some (Scalar (PStr (remove_model_name u False)))"
      by (simp add: update_conv')
    from create_class_other [OF r, of "''astropy_unit''"] a s2 u1
    show "\<not> hasattr self ''astropy_unit''" by (simp add: hasattr_map_of update_conv')
    from create_class_other [OF r, of "''astropy_unit_time''"] a s2 t1
    show "\<not> hasattr self ''astropy_unit_time''" by (simp add: hasattr_map_of update_conv')
  }
qed

text \<open>
  Claim C1, as stated, fails: the leaf built from \<open>unit = "mas/year"\<close> holds the string
  \<open>mas/year\<close>, not \<open>mas/yr\<close>.
\<close>

theorem unit_attribute_counterexample:
  "MivotInstance example_vocabulary [(''unit'', InScalar (PStr ''mas/year''))]
     = Inr [(''unit'', Scalar (PStr ''mas/year'')), (''astropy_unit'', UnitObj 7)]
   \<and> map_of [(''unit'', Scalar (PStr ''mas/year'')), (''astropy_unit'', UnitObj (7::nat))] ''unit''
     \<noteq> Some (Scalar (PStr ''mas/yr''))"
  by code_simp


text \<open>Claim C1, amended, at the unit \<open>mas/year\<close> and at an unknown unit.\<close>

theorem unit_attribute_witness:
  "\<not> hasattr ([] :: nat obj) ''_remove_model_name''
   \<and> create_attribute example_vocabulary ''unit'' (PStr ''mas/year'') []
        = Inr [(''unit'', Scalar (PStr ''mas/year'')), (''astropy_unit'', UnitObj 7)]
   \<and> MivotInstance example_vocabulary [(''unit'', InScalar (PStr ''mas/year''))]
        = Inr [(''unit'', Scalar (PStr ''mas/year'')), (''astropy_unit'', UnitObj 7)]
   \<and> unit_mapping example_vocabulary ''mas/yr'' = Some 7
   \<and> map_of [(''unit'', Scalar (PStr ''mas/year'')), (''astropy_unit'', UnitObj (7::nat))]
        ''astropy_unit'' = Some (UnitObj 7)
   \<and> unit_mapping example_vocabulary (str_replace ''furlong'' ''year'' ''yr'') = None
   \<and> str_replace ''furlong'' ''year'' ''yr'' \<notin> set (TIME_FORMATS example_vocabulary)
   \<and> MivotInstance example_vocabulary [(''unit'', InScalar (PStr ''furlong''))]
        = Inr [(''unit'', Scalar (PStr ''furlong''))]
   \<and> \<not> hasattr [(''unit'', Scalar (PStr ''furlong'')) :: string \<times> nat pyval] ''astropy_unit''
   \<and> \<not> hasattr [(''unit'', Scalar (PStr ''furlong'')) :: string \<times> nat pyval]
        ''astropy_unit_time''"
proof -
  have a: "MivotInstance example_vocabulary [(''unit'', InScalar (PStr ''mas/year''))]
        = Inr [(''unit'', Scalar (PStr ''mas/year'')), (''astropy_unit'', UnitObj 7)]"
    by code_simp
  have b: "MivotInstance example_vocabulary [(''unit'', InScalar (PStr ''furlong''))]
        = Inr [(''unit'', Scalar (PStr ''furlong''))]"
    by code_simp
  have c: "unit_mapping example_vocabulary (str_replace ''furlong'' ''year'' ''yr'') = None
     \<and> str_replace ''furlong'' ''year'' ''yr'' \<notin> set (TIME_FORMATS example_vocabulary)
     \<and> unit_mapping example_vocabulary ''mas/yr'' = Some 7"
    by (simp add: example_vocabulary_def)
  have d: "\<not> hasattr ([] :: nat obj) ''_remove_model_name''" by (simp add: hasattr_def)
  from a b c d
    unit_attribute [of "[]" example_vocabulary "[]" "[]"
      "[(''unit'', Scalar (PStr ''mas/year'')), (''astropy_unit'', UnitObj 7)]" "''furlong''"]
    unit_attribute [of "[]" example_vocabulary "[]" "[]"
      "[(''unit'', Scalar (PStr ''furlong''))]" "''furlong''"]
  show ?thesis by simp
qed

section \<open>Properties of the row binder\<close>

lemma frame_fields_append:
  "frame_fields b (xs @ ys) = frame_fields b xs @ frame_fields b ys"
proof (induction xs)
  case Nil
  then show ?case by simp
next
  case (Cons a xs)
  obtain k v where a: "a = (k, v)" by (cases a)
  with Cons show ?case by (cases v) simp_all
qed

lemma frame_items_append: "frame_items (xs @ ys) = frame_items xs @ frame_items ys"
  by (induction xs) simp_all

lemma frame_fields_keys: "map fst (frame_fields b xs) = map fst xs"
proof (induction xs)
  case Nil
  then show ?case by simp
next
  case (Cons a xs)
  obtain k v where a: "a = (k, v)" by (cases a)
  with Cons show ?case by (cases v) simp_all
qed

lemma frame_fields_lookup:
  "k \<noteq> ''value'' \<Longrightarrow> bound_opt (map_of (frame_fields b xs) k) = bound_opt (map_of xs k)"
proof (induction xs)
  case Nil
  then show ?case by simp
next
  case (Cons a xs)
  obtain k' v where a: "a = (k', v)" by (cases a)
  with Cons show ?case by (cases v) (simp_all add: is_bound_def)
qed

lemma frame_fields_bound:
  assumes "frame_fields b xs = frame_fields b ys"
  shows "bound xs = bound ys"
proof -
  have "map fst xs = map fst ys"
    using assms frame_fields_keys [of b xs] frame_fields_keys [of b ys] by simp
  then have h: "hasattr xs ''value'' = hasattr ys ''value''" by (simp add: hasattr_def)
  have "bound_opt (map_of xs ''ref'') = bound_opt (map_of ys ''ref'')"
    using assms frame_fields_lookup [of "''ref''" b xs] frame_fields_lookup [of "''ref''" b ys]
    by simp
  with h show ?thesis
    by (cases "map_of xs ''ref''"; cases "map_of ys ''ref''") (simp_all add: bound_def)
qed

lemma update_frame_all:
  "frame_fields (is_bound ref) (fst (update voc row ref self)) = frame_fields (is_bound ref) self"
  "frame_fields (is_bound ref) (fst (update_fields voc row ref seen todo))
     = frame_fields (is_bound ref) (seen @ todo)"
  "frame_items (fst (update_items voc row seen' items)) = frame_items (seen' @ items)"
proof (induction voc row ref self and voc row ref seen todo and voc row seen' items
    rule: update_update_fields_update_items.induct)
  case (1 voc row ref self)
  then show ?case by (simp split: option.splits)
next
  case (2 voc row ref seen)
  then show ?case by simp
next
  case (3 voc row ref seen key items todo)
  then show ?case
    by (auto simp: frame_fields_append split: prod.splits option.splits)
next
  case (4 voc row ref seen key sub todo)
  obtain sub' err where u: "(if \<not> hasattr sub ''value'' then update voc row (Scalar PNone) sub
            else (case getattr sub ''ref'' of
                    Inl e \<Rightarrow> (sub, Some e)
                  | Inr r \<Rightarrow> update voc row r sub)) = (sub', err)"
    by (cases "(if \<not> hasattr sub ''value'' then update voc row (Scalar PNone) sub
            else (case getattr sub ''ref'' of
                    Inl e \<Rightarrow> (sub, Some e)
                  | Inr r \<Rightarrow> update voc row r sub))")
  have fr: "frame_fields (bound sub) sub' = frame_fields (bound sub) sub"
  proof (cases "hasattr sub ''value''")
    case False
    with u "4.IH"(1) show ?thesis by (simp add: bound_def is_bound_def)
  next
    case True
    show ?thesis
    proof (cases "map_of sub ''ref''")
      case None
      with u True show ?thesis by (simp add: getattr_def)
    next
      case (Some r)
      with u True "4.IH"(2) [of r] show ?thesis by (simp add: getattr_def bound_def)
    qed
  qed
  then have b: "bound sub' = bound sub" by (rule frame_fields_bound)
  show ?case
  proof (cases err)
    case None
    with u "4.IH"(3) [of sub' err] fr b show ?thesis
      by (simp add: frame_fields_append)
  next
    case (Some e)
    with u fr b show ?thesis by (simp add: frame_fields_append)
  qed
next
  case (5 voc row ref seen key v todo)
  then show ?case
    by (auto simp: frame_fields_append set_value_def is_bound_def
        split: sum.splits option.splits if_splits)
next
  case (6 voc row ref seen key x todo)
  then show ?case
    by (auto simp: frame_fields_append set_value_def is_bound_def
        split: sum.splits option.splits if_splits)
next
  case (7 voc row seen)
  then show ?case by simp
next
  case (8 voc row seen item items)
  then show ?case
    by (auto simp: frame_items_append is_bound_def split: prod.splits option.splits)
qed


text \<open>An update adds and removes no attribute, and keeps their order.\<close>

lemma update_keys: "map fst (fst (update voc row ref self)) = map fst self"
  using arg_cong [OF update_frame_all(1) [of ref voc row self], of "map fst"]
  by (simp add: frame_fields_keys)

text \<open>
  Claim C6: whatever the tree, the row and the reference, and whether or not the call
  raises, \<open>update\<close> leaves the frame of the tree as it was: the attributes of every node and
  the length and order of every list are unchanged, and the only contents that may differ
  are those of attributes named \<open>value\<close> that hold a scalar, in nodes updated with a bound
  reference. In particular the attribute names of the root are unchanged.
\<close>

theorem update_frame:
  "frame_fields (is_bound ref) (fst (update voc row ref self)) = frame_fields (is_bound ref) self
   \<and> map fst (fst (update voc row ref self)) = map fst self"
proof
  show fr: "frame_fields (is_bound ref) (fst (update voc row ref self))
    = frame_fields (is_bound ref) self"
    by (rule update_frame_all(1))
  show "map fst (fst (update voc row ref self)) = map fst self"
    using arg_cong [OF fr, of "map fst"] by (simp add: frame_fields_keys)
qed

lemma update_prefix_all:
  "length (fst (update voc row ref self)) = length self"
  "prefix seen (fst (update_fields voc row ref seen todo))
   \<and> length (fst (update_fields voc row ref seen todo)) = length seen + length todo"
  "prefix seen' (fst (update_items voc row seen' items))
   \<and> length (fst (update_items voc row seen' items)) = length seen' + length items"
proof (induction voc row ref self and voc row ref seen todo and voc row seen' items
    rule: update_update_fields_update_items.induct)
  case (1 voc row ref self)
  then show ?case by (auto split: option.splits)
next
  case (2 voc row ref seen)
  then show ?case by simp
next
  case (3 voc row ref seen key items todo)
  then show ?case by (fastforce split: prod.splits option.splits intro: append_prefixD)
next
  case (4 voc row ref seen key sub todo)
  then show ?case by (fastforce split: prod.splits option.splits intro: append_prefixD)
next
  case (5 voc row ref seen key v todo)
  then show ?case by (fastforce split: sum.splits option.splits intro: append_prefixD)
next
  case (6 voc row ref seen key x todo)
  then show ?case by (fastforce split: sum.splits option.splits intro: append_prefixD)
next
  case (7 voc row seen)
  then show ?case by simp
next
  case (8 voc row seen item items)
  then show ?case by (fastforce split: prod.splits option.splits intro: append_prefixD)
qed

lemma update_fields_nth_seen:
  "i < length seen \<Longrightarrow> fst (update_fields voc row ref seen todo) ! i = seen ! i"
proof -
  assume i: "i < length seen"
  have "prefix seen (fst (update_fields voc row ref seen todo))"
    using update_prefix_all(2) [of seen voc row ref todo] by simp
  with i show ?thesis by (auto simp: prefix_def nth_append)
qed

lemma update_items_map:
  "snd (update_items voc row seen items) = None \<Longrightarrow>
   fst (update_items voc row seen items)
     = seen @ map (\<lambda>c. fst (update voc row (Scalar PNone) c)) items
   \<and> (\<forall>c\<in>set items. snd (update voc row (Scalar PNone) c) = None)"
proof (induction items arbitrary: seen)
  case Nil
  then show ?case by simp
next
  case (Cons item items)
  obtain item' err where u: "update voc row (Scalar PNone) item = (item', err)"
    by (cases "update voc row (Scalar PNone) item")
  show ?case
  proof (cases err)
    case None
    with u Cons.prems have "snd (update_items voc row (seen @ [item']) items) = None" by simp
    from Cons.IH [OF this] u None show ?thesis by simp
  next
    case (Some e)
    with u Cons.prems show ?thesis by simp
  qed
qed


lemma update_fields_step:
  assumes "snd (update_fields voc row ref seen ((k, v) # todo)) = None"
  shows "\<exists>v'. update_fields voc row ref seen ((k, v) # todo)
             = update_fields voc row ref (seen @ [(k, v')]) todo
           \<and> (\<forall>items. v = Collection items \<longrightarrow>
                 v' = Collection (fst (update_items voc row [] items))
                 \<and> snd (update_items voc row [] items) = None)"
proof (cases v)
  case (Scalar x)
  with assms show ?thesis by (auto split: sum.splits option.splits)
next
  case (UnitObj x)
  with assms show ?thesis by (auto split: sum.splits option.splits)
next
  case (Instance sub)
  with assms show ?thesis by (auto split: prod.splits option.splits)
next
  case (Collection items)
  with assms show ?thesis by (auto split: prod.splits option.splits)
qed

lemma update_fields_collection:
  "snd (update_fields voc row ref seen todo) = None \<Longrightarrow> i < length todo \<Longrightarrow>
   todo ! i = (key, Collection items) \<Longrightarrow>
   fst (update_fields voc row ref seen todo) ! (length seen + i)
     = (key, Collection (map (\<lambda>c. fst (update voc row (Scalar PNone) c)) items))
   \<and> (\<forall>c\<in>set items. snd (update voc row (Scalar PNone) c) = None)"
proof (induction todo arbitrary: seen i)
  case Nil
  then show ?case by simp
next
  case (Cons a todo)
  obtain k v where a: "a = (k, v)" by (cases a)
  from Cons.prems(1) a obtain v' where
    step: "update_fields voc row ref seen ((k, v) # todo)
             = update_fields voc row ref (seen @ [(k, v')]) todo"
    and coll: "\<forall>items. v = Collection items \<longrightarrow>
                 v' = Collection (fst (update_items voc row [] items))
                 \<and> snd (update_items voc row [] items) = None"
    using update_fields_step [of voc row ref seen k v todo] by auto
  show ?case
  proof (cases i)
    case 0
    with Cons.prems(3) a have v: "v = Collection items" and k: "k = key" by simp_all
    from coll v have v': "v' = Collection (fst (update_items voc row [] items))"
      and ok: "snd (update_items voc row [] items) = None" by simp_all
    have "fst (update_fields voc row ref (seen @ [(k, v')]) todo) ! length seen
            = (seen @ [(k, v')]) ! length seen"
      by (rule update_fields_nth_seen) simp
    with step a 0 k v' update_items_map [OF ok] show ?thesis by simp
  next
    case (Suc j)
    from Cons.prems(1) a step
    have "snd (update_fields voc row ref (seen @ [(k, v')]) todo) = None" by simp
    from Cons.IH [OF this, of j] Cons.prems(2,3) Suc a step show ?thesis by simp
  qed
qed

lemma update_refs_present_all:
  "snd (update voc row ref self) = None \<Longrightarrow> refs_present self"
  "snd (update_fields voc row ref seen todo) = None \<Longrightarrow> refs_present todo"
  "snd (update_items voc row seen' items) = None \<Longrightarrow> refs_present_items items"
proof (induction voc row ref self and voc row ref seen todo and voc row seen' items
    rule: update_update_fields_update_items.induct)
  case (1 voc row ref self)
  then show ?case by (auto split: option.splits)
next
  case (2 voc row ref seen)
  then show ?case by simp
next
  case (3 voc row ref seen key items todo)
  then show ?case by (auto split: prod.splits option.splits)
next
  case (4 voc row ref seen key sub todo)
  obtain sub' err where u: "(if \<not> hasattr sub ''value'' then update voc row (Scalar PNone) sub
            else (case getattr sub ''ref'' of
                    Inl e \<Rightarrow> (sub, Some e)
                  | Inr r \<Rightarrow> update voc row r sub)) = (sub', err)"
    by (cases "(if \<not> hasattr sub ''value'' then update voc row (Scalar PNone) sub
            else (case getattr sub ''ref'' of
                    Inl e \<Rightarrow> (sub, Some e)
                  | Inr r \<Rightarrow> update voc row r sub))")
  from u "4.prems" have err: "err = None" by (cases err) simp_all
  have ref: "hasattr sub ''value'' \<longrightarrow> hasattr sub ''ref''"
  proof (rule impI, rule ccontr)
    assume "hasattr sub ''value''" and "\<not> hasattr sub ''ref''"
    with u err show False by (simp add: getattr_missing)
  qed
  have sub: "refs_present sub"
  proof (cases "hasattr sub ''value''")
    case False
    with u err "4.IH"(1) show ?thesis by simp
  next
    case True
    with ref obtain r where r: "getattr sub ''ref'' = Inr r"
      using getattr_present [of sub "''ref''"] by auto
    with True u err "4.IH"(2) [of r] show ?thesis by simp
  qed
  from u err "4.prems" "4.IH"(3) [of sub' err] have "refs_present todo" by simp
  with ref sub show ?case by simp
next
  case (5 voc row ref seen key v todo)
  then show ?case by (auto split: sum.splits option.splits)
next
  case (6 voc row ref seen key x todo)
  then show ?case by (auto split: sum.splits option.splits)
next
  case (7 voc row seen)
  then show ?case by simp
next
  case (8 voc row seen item items)
  then show ?case by (auto split: prod.splits option.splits)
qed

lemma update_error_origin_all:
  "snd (update voc row ref self) = Some e \<Longrightarrow> raised_by_lookup e \<or> raised_outside voc row e"
  "snd (update_fields voc row ref seen todo) = Some e
     \<Longrightarrow> raised_by_lookup e \<or> raised_outside voc row e"
  "snd (update_items voc row seen' items) = Some e
     \<Longrightarrow> raised_by_lookup e \<or> raised_outside voc row e"
proof (induction voc row ref self and voc row ref seen todo and voc row seen' items
    rule: update_update_fields_update_items.induct)
  case (1 voc row ref self)
  then show ?case
    by (auto simp: method_hidden_def raised_by_lookup_def split: option.splits if_splits)
next
  case (2 voc row ref seen)
  then show ?case by simp
next
  case (3 voc row ref seen key items todo)
  then show ?case by (auto split: prod.splits option.splits)
next
  case (4 voc row ref seen key sub todo)
  then show ?case
    by (auto simp: getattr_def raised_by_lookup_def
        split: prod.splits option.splits sum.splits if_splits)
next
  case (5 voc row ref seen key v todo)
  then show ?case
    by (auto simp: set_value_def call_remove_model_name_def method_hidden_def getattr_def
        raised_by_lookup_def raised_outside_def split: sum.splits option.splits if_splits)
next
  case (6 voc row ref seen key x todo)
  then show ?case
    by (auto simp: set_value_def call_remove_model_name_def method_hidden_def getattr_def
        raised_by_lookup_def raised_outside_def split: sum.splits option.splits if_splits)
next
  case (7 voc row seen)
  then show ?case by simp
next
  case (8 voc row seen item items)
  then show ?case by (auto split: prod.splits option.splits)
qed


text \<open>
  Claim C10: when \<open>update\<close> reaches a nested instance that has an attribute \<open>value\<close> and no
  attribute \<open>ref\<close>, it raises \<open>AttributeError\<close> for \<open>ref\<close> and leaves the fields as they are
  at that moment; so does a call of \<open>update\<close> on a parent whose first attribute is such an
  instance. Hence an update that raises nothing was run on a tree in which every nested
  instance with a \<open>value\<close> has a \<open>ref\<close>, at every depth.
\<close>

theorem update_missing_ref:
  "(hasattr sub ''value'' \<and> \<not> hasattr sub ''ref'' \<longrightarrow>
      update_fields voc row ref seen ((key, Instance sub) # todo)
        = (seen @ (key, Instance sub) # todo, Some (AttributeError ''ref'')))
   \<and> (hasattr sub ''value'' \<and> \<not> hasattr sub ''ref'' \<and> key \<noteq> ''update''
        \<and> \<not> hasattr todo ''update'' \<longrightarrow>
      update voc row ref ((key, Instance sub) # todo)
        = ((key, Instance sub) # todo, Some (AttributeError ''ref'')))
   \<and> (snd (update voc row ref self) = None \<longrightarrow> refs_present self)"
proof (intro conjI impI)
  assume "hasattr sub ''value'' \<and> \<not> hasattr sub ''ref''"
  then show "update_fields voc row ref seen ((key, Instance sub) # todo)
        = (seen @ (key, Instance sub) # todo, Some (AttributeError ''ref''))"
    by (simp add: getattr_missing)
next
  assume "hasattr sub ''value'' \<and> \<not> hasattr sub ''ref'' \<and> key \<noteq> ''update''
        \<and> \<not> hasattr todo ''update''"
  then show "update voc row ref ((key, Instance sub) # todo)
        = ((key, Instance sub) # todo, Some (AttributeError ''ref''))"
    by (auto simp: getattr_missing method_hidden_def hasattr_def)
next
  assume "snd (update voc row ref self) = None"
  then show "refs_present self" by (rule update_refs_present_all(1))
qed

text \<open>Claim C10 at a leaf without \<open>ref\<close>, and at a tree whose leaf has one.\<close>

theorem update_missing_ref_witness:
  "hasattr [(''dmtype'', Scalar (PStr ''float'')), (''value'', Scalar (PFloat 1.5))] ''value''
   \<and> \<not> hasattr [(''dmtype'', Scalar (PStr ''float'')), (''value'', Scalar (PFloat 1.5))] ''ref''
   \<and> ''pos'' \<noteq> ''update'' \<and> \<not> hasattr ([] :: nat obj) ''update''
   \<and> update example_vocabulary (dict_row [''c1'' \<mapsto> PStr ''3.5'']) (Scalar PNone)
        [(''pos'', Instance [(''dmtype'', Scalar (PStr ''float'')),
                            (''value'', Scalar (PFloat 1.5))])]
      = ([(''pos'', Instance [(''dmtype'', Scalar (PStr ''float'')),
                            (''value'', Scalar (PFloat 1.5))])],
         Some (AttributeError ''ref''))
   \<and> snd (update example_vocabulary (dict_row [''c1'' \<mapsto> PStr ''3.5'']) (Scalar PNone)
        [(''pos'', Instance (attribute_leaf (PFloat 1.5) (PStr ''deg'') (PStr ''c1'')))]) = None
   \<and> refs_present [(''pos'', Instance (attribute_leaf (PFloat 1.5) (PStr ''deg'') (PStr ''c1'')) :: nat pyval)]"
  using update_missing_ref [of "[(''dmtype'', Scalar (PStr ''float'')), (''value'', Scalar (PFloat 1.5))]"
      example_vocabulary "dict_row [''c1'' \<mapsto> PStr ''3.5'']" "Scalar PNone" "[]" "''pos''" "[]"
      "[(''pos'', Instance (attribute_leaf (PFloat 1.5) (PStr ''deg'') (PStr ''c1'')))]"]
  by (simp add: hasattr_def example_vocabulary_def attribute_leaf_def method_hidden_def
      getattr_def set_value_def call_remove_model_name_def dict_row_def)

section \<open>The loop of the row binder, turn by turn\<close>

lemma update_fields_Cons:
  "update_fields voc row ref seen (x # todo) =
     (case update_entry voc row ref (seen @ x # todo) x of
        (x', Some e) \<Rightarrow> (seen @ x' # todo, Some e)
      | (x', None) \<Rightarrow> update_fields voc row ref (seen @ [x']) todo)"
proof -
  obtain k v where x: "x = (k, v)" by (cases x)
  show ?thesis unfolding x
    by (cases v) (simp_all split: prod.splits option.splits sum.splits)
qed

lemma update_entry_key: "fst (fst (update_entry voc row ref cur x)) = fst x"
proof -
  obtain k v where x: "x = (k, v)" by (cases x)
  show ?thesis unfolding x
    by (cases v) (simp_all split: prod.splits option.splits sum.splits)
qed

lemma update_fields_stops:
  "n < length todo \<Longrightarrow> length res = length todo \<Longrightarrow>
   \<forall>j<n. update_entry voc row ref (seen @ take j res @ drop j todo) (todo ! j) = (res ! j, None) \<Longrightarrow>
   update_entry voc row ref (seen @ take n res @ drop n todo) (todo ! n) = (res ! n, Some e) \<Longrightarrow>
   drop (Suc n) res = drop (Suc n) todo \<Longrightarrow>
   update_fields voc row ref seen todo = (seen @ res, Some e)"
proof (induction todo arbitrary: seen n res)
  case Nil
  then show ?case by simp
next
  case (Cons x todo)
  from Cons.prems(2) obtain y ys where res: "res = y # ys" by (cases res) simp_all
  show ?case
  proof (cases n)
    case 0
    with Cons.prems res show ?thesis
      by (simp add: update_fields_Cons del: update_fields.simps)
  next
    case (Suc m)
    from Cons.prems(3) Suc res
    have first: "update_entry voc row ref (seen @ x # todo) x = (y, None)" by auto
    have rest: "\<forall>j<m. update_entry voc row ref ((seen @ [y]) @ take j ys @ drop j todo) (todo ! j)
        = (ys ! j, None)"
    proof (intro allI impI)
      fix j assume "j < m"
      with Cons.prems(3) Suc res
      have "update_entry voc row ref (seen @ take (Suc j) (y # ys) @ drop (Suc j) (x # todo))
          ((x # todo) ! Suc j) = ((y # ys) ! Suc j, None)" by auto
      then show "update_entry voc row ref ((seen @ [y]) @ take j ys @ drop j todo) (todo ! j)
        = (ys ! j, None)" by simp
    qed
    from Cons.prems Suc res
    have "update_fields voc row ref (seen @ [y]) todo = ((seen @ [y]) @ ys, Some e)"
      by (intro Cons.IH [of m ys "seen @ [y]"] rest) simp_all
    with first res show ?thesis
      by (simp add: update_fields_Cons del: update_fields.simps)
  qed
qed

lemma update_fields_stopped:
  "update_fields voc row ref seen todo = (res, Some e) \<Longrightarrow>
   \<exists>res' n. res = seen @ res' \<and> length res' = length todo \<and> n < length todo
     \<and> (\<forall>j<n. update_entry voc row ref (seen @ take j res' @ drop j todo) (todo ! j)
           = (res' ! j, None))
     \<and> update_entry voc row ref (seen @ take n res' @ drop n todo) (todo ! n) = (res' ! n, Some e)
     \<and> drop (Suc n) res' = drop (Suc n) todo"
proof (induction todo arbitrary: seen res)
  case Nil
  then show ?case by simp
next
  case (Cons x todo)
  obtain x' err where u: "update_entry voc row ref (seen @ x # todo) x = (x', err)"
    by (cases "update_entry voc row ref (seen @ x # todo) x")
  show ?case
  proof (cases err)
    case (Some e')
    with Cons.prems u have "res = seen @ x' # todo" "e' = e"
      by (simp_all add: update_fields_Cons del: update_fields.simps)
    with u Some show ?thesis
      by (intro exI [of _ "x' # todo"] exI [of _ 0]) simp
  next
    case None
    with Cons.prems u have "update_fields voc row ref (seen @ [x']) todo = (res, Some e)"
      by (simp add: update_fields_Cons del: update_fields.simps)
    from Cons.IH [OF this] obtain res' n where
      r: "res = (seen @ [x']) @ res'" and l: "length res' = length todo" and n: "n < length todo"
      and a: "\<forall>j<n. update_entry voc row ref ((seen @ [x']) @ take j res' @ drop j todo) (todo ! j)
           = (res' ! j, None)"
      and b: "update_entry voc row ref ((seen @ [x']) @ take n res' @ drop n todo) (todo ! n)
           = (res' ! n, Some e)"
      and c: "drop (Suc n) res' = drop (Suc n) todo" by blast
    have a': "\<forall>j<Suc n. update_entry voc row ref (seen @ take j (x' # res') @ drop j (x # todo))
        ((x # todo) ! j) = ((x' # res') ! j, None)"
    proof (intro allI impI)
      fix j assume j: "j < Suc n"
      show "update_entry voc row ref (seen @ take j (x' # res') @ drop j (x # todo))
        ((x # todo) ! j) = ((x' # res') ! j, None)"
      proof (cases j)
        case 0
        with u None show ?thesis by simp
      next
        case (Suc i)
        with j a show ?thesis by simp
      qed
    qed
    from r l n a' b c show ?thesis
      by (intro exI [of _ "x' # res'"] exI [of _ "Suc n"]) simp
  qed
qed

lemma update_fields_done:
  "update_fields voc row ref seen todo = (res, None) \<Longrightarrow>
   \<exists>res'. res = seen @ res' \<and> length res' = length todo
     \<and> (\<forall>j<length todo. update_entry voc row ref (seen @ take j res' @ drop j todo) (todo ! j)
           = (res' ! j, None))"
proof (induction todo arbitrary: seen res)
  case Nil
  then show ?case by simp
next
  case (Cons x todo)
  obtain x' err where u: "update_entry voc row ref (seen @ x # todo) x = (x', err)"
    by (cases "update_entry voc row ref (seen @ x # todo) x")
  show ?case
  proof (cases err)
    case (Some e')
    with Cons.prems u show ?thesis
      by (simp add: update_fields_Cons del: update_fields.simps)
  next
    case None
    with Cons.prems u have "update_fields voc row ref (seen @ [x']) todo = (res, None)"
      by (simp add: update_fields_Cons del: update_fields.simps)
    from Cons.IH [OF this] obtain res' where
      r: "res = (seen @ [x']) @ res'" and l: "length res' = length todo"
      and a: "\<forall>j<length todo.
           update_entry voc row ref ((seen @ [x']) @ take j res' @ drop j todo) (todo ! j)
           = (res' ! j, None)" by blast
    have a': "\<forall>j<length (x # todo).
        update_entry voc row ref (seen @ take j (x' # res') @ drop j (x # todo))
        ((x # todo) ! j) = ((x' # res') ! j, None)"
    proof (intro allI impI)
      fix j assume j: "j < length (x # todo)"
      show "update_entry voc row ref (seen @ take j (x' # res') @ drop j (x # todo))
        ((x # todo) ! j) = ((x' # res') ! j, None)"
      proof (cases j)
        case 0
        with u None show ?thesis by simp
      next
        case (Suc i)
        with j a show ?thesis by simp
      qed
    qed
    from r l a' show ?thesis
      by (intro exI [of _ "x' # res'"]) simp
  qed
qed

lemma update_fields_runs:
  "length res = length todo \<Longrightarrow>
   \<forall>j<length todo. update_entry voc row ref (seen @ take j res @ drop j todo) (todo ! j)
      = (res ! j, None) \<Longrightarrow>
   update_fields voc row ref seen todo = (seen @ res, None)"
proof (induction todo arbitrary: seen res)
  case Nil
  then show ?case by simp
next
  case (Cons x todo)
  from Cons.prems(1) obtain y ys where res: "res = y # ys" by (cases res) simp_all
  from Cons.prems(2) res
  have first: "update_entry voc row ref (seen @ x # todo) x = (y, None)" by auto
  have rest: "\<forall>j<length todo.
      update_entry voc row ref ((seen @ [y]) @ take j ys @ drop j todo) (todo ! j)
        = (ys ! j, None)"
  proof (intro allI impI)
    fix j assume "j < length todo"
    with Cons.prems(2) res
    have "update_entry voc row ref (seen @ take (Suc j) (y # ys) @ drop (Suc j) (x # todo))
        ((x # todo) ! Suc j) = ((y # ys) ! Suc j, None)" by auto
    then show "update_entry voc row ref ((seen @ [y]) @ take j ys @ drop j todo) (todo ! j)
      = (ys ! j, None)" by simp
  qed
  from Cons.prems res
  have "update_fields voc row ref (seen @ [y]) todo = ((seen @ [y]) @ ys, None)"
    by (intro Cons.IH [of ys "seen @ [y]"] rest) simp_all
  with first res show ?case
    by (simp add: update_fields_Cons del: update_fields.simps)
qed

lemma update_items_stops:
  "n < length items \<Longrightarrow> length res = length items \<Longrightarrow>
   \<forall>j<n. update voc row (Scalar PNone) (items ! j) = (res ! j, None) \<Longrightarrow>
   update voc row (Scalar PNone) (items ! n) = (res ! n, Some e) \<Longrightarrow>
   drop (Suc n) res = drop (Suc n) items \<Longrightarrow>
   update_items voc row seen items = (seen @ res, Some e)"
proof (induction items arbitrary: seen n res)
  case Nil
  then show ?case by simp
next
  case (Cons x items)
  from Cons.prems(2) obtain y ys where res: "res = y # ys" by (cases res) simp_all
  show ?case
  proof (cases n)
    case 0
    with Cons.prems res show ?thesis by (simp del: update.simps)
  next
    case (Suc m)
    from Cons.prems(3) [rule_format, of 0] Suc res
    have first: "update voc row (Scalar PNone) x = (y, None)" by (simp del: update.simps)
    have rest: "\<forall>j<m. update voc row (Scalar PNone) (items ! j) = (ys ! j, None)"
    proof (intro allI impI)
      fix j assume "j < m"
      with Cons.prems(3) [rule_format, of "Suc j"] Suc res
      show "update voc row (Scalar PNone) (items ! j) = (ys ! j, None)"
        by (simp del: update.simps)
    qed
    from Cons.prems Suc res
    have "update_items voc row (seen @ [y]) items = ((seen @ [y]) @ ys, Some e)"
      by (intro Cons.IH [of m ys "seen @ [y]"] rest) simp_all
    with first res show ?thesis by (simp del: update.simps)
  qed
qed

lemma update_items_stopped:
  "update_items voc row seen items = (res, Some e) \<Longrightarrow>
   \<exists>res' n. res = seen @ res' \<and> length res' = length items \<and> n < length items
     \<and> (\<forall>j<n. update voc row (Scalar PNone) (items ! j) = (res' ! j, None))
     \<and> update voc row (Scalar PNone) (items ! n) = (res' ! n, Some e)
     \<and> drop (Suc n) res' = drop (Suc n) items"
proof (induction items arbitrary: seen res)
  case Nil
  then show ?case by simp
next
  case (Cons x items)
  obtain x' err where u: "update voc row (Scalar PNone) x = (x', err)"
    by (cases "update voc row (Scalar PNone) x")
  show ?case
  proof (cases err)
    case (Some e')
    with Cons.prems u have "res = seen @ x' # items" "e' = e"
      by (simp_all del: update.simps)
    with u Some show ?thesis
      by (intro exI [of _ "x' # items"] exI [of _ 0]) (simp del: update.simps)
  next
    case None
    with Cons.prems u have "update_items voc row (seen @ [x']) items = (res, Some e)"
      by (simp del: update.simps)
    from Cons.IH [OF this] obtain res' n where
      r: "res = (seen @ [x']) @ res'" and l: "length res' = length items" and n: "n < length items"
      and a: "\<forall>j<n. update voc row (Scalar PNone) (items ! j) = (res' ! j, None)"
      and b: "update voc row (Scalar PNone) (items ! n) = (res' ! n, Some e)"
      and c: "drop (Suc n) res' = drop (Suc n) items" by blast
    have a': "\<forall>j<Suc n. update voc row (Scalar PNone) ((x # items) ! j) = ((x' # res') ! j, None)"
    proof (intro allI impI)
      fix j assume j: "j < Suc n"
      show "update voc row (Scalar PNone) ((x # items) ! j) = ((x' # res') ! j, None)"
      proof (cases j)
        case 0
        with u None show ?thesis by (simp del: update.simps)
      next
        case (Suc i)
        with j a show ?thesis by (simp del: update.simps)
      qed
    qed
    from r l n a' b c show ?thesis
      by (intro exI [of _ "x' # res'"] exI [of _ "Suc n"]) (simp del: update.simps)
  qed
qed

lemma update_unhidden:
  "\<not> hasattr self ''update'' \<Longrightarrow> update voc row ref self = update_fields voc row ref [] self"
  by (simp add: method_hidden_def)

lemma update_hidden:
  "hasattr self ''update'' \<Longrightarrow> update voc row ref self = (self, Some (TypeError ''update''))"
  by (simp add: method_hidden_def)

lemma map_of_nth_first:
  "map_of xs k = Some v \<Longrightarrow> \<exists>j<length xs. xs ! j = (k, v) \<and> (\<forall>i<j. fst (xs ! i) \<noteq> k)"
proof (induction xs)
  case Nil
  then show ?case by simp
next
  case (Cons a xs)
  show ?case
  proof (cases "fst a = k")
    case True
    with Cons.prems have "a = (k, v)" by (cases a) simp
    then show ?thesis by (intro exI [of _ 0]) simp
  next
    case False
    with Cons.prems have "map_of xs k = Some v" by (cases a) simp
    from Cons.IH [OF this] obtain j where
      j: "j < length xs" "xs ! j = (k, v)" "\<forall>i<j. fst (xs ! i) \<noteq> k" by blast
    have "\<forall>i<Suc j. fst ((a # xs) ! i) \<noteq> k"
    proof (intro allI impI)
      fix i assume "i < Suc j"
      with j(3) False show "fst ((a # xs) ! i) \<noteq> k" by (cases i) simp_all
    qed
    with j show ?thesis by (intro exI [of _ "Suc j"]) simp
  qed
qed

lemma map_of_first_nth:
  "j < length ys \<Longrightarrow> fst (ys ! j) = k \<Longrightarrow> \<forall>i<j. fst (ys ! i) \<noteq> k \<Longrightarrow>
   map_of ys k = Some (snd (ys ! j))"
proof (induction ys arbitrary: j)
  case Nil
  then show ?case by simp
next
  case (Cons a ys)
  show ?case
  proof (cases j)
    case 0
    with Cons.prems show ?thesis by (cases a) simp
  next
    case (Suc m)
    with Cons.prems(3) have ne: "fst a \<noteq> k" by auto
    have "\<forall>i<m. fst (ys ! i) \<noteq> k"
    proof (intro allI impI)
      fix i assume "i < m"
      with Cons.prems(3) Suc have "fst ((a # ys) ! Suc i) \<noteq> k" by auto
      then show "fst (ys ! i) \<noteq> k" by simp
    qed
    with Cons.IH [of m] Cons.prems Suc have "map_of ys k = Some (snd (ys ! m))" by simp
    with ne Suc show ?thesis by (cases a) simp
  qed
qed

text \<open>The object in the middle of a run: the first \<open>j\<close> fields visited, the others not yet.\<close>

lemma run_state_nth:
  "length res = length self \<Longrightarrow> i < length self \<Longrightarrow>
   (take j res @ drop j self) ! i = (if i < j then res ! i else self ! i)"
  by (auto simp: nth_append min_def)

lemma update_entry_other:
  assumes "key \<noteq> ''value''"
  shows "update_entry voc row ref cur (key, Scalar s) = ((key, Scalar s), None)"
  using assms by (simp add: set_value_def)

lemma update_entry_unbound:
  assumes "\<not> is_bound ref"
  shows "update_entry voc row ref cur (key, Scalar s) = ((key, Scalar s), None)"
  using assms by (auto simp: set_value_def is_bound_def)

lemma update_entry_value:
  assumes "update_entry voc row ref cur (''value'', Scalar v) = (y, None)" and "is_bound ref"
    and "map_of cur ''dmtype'' = Some d"
  shows "\<exists>raw w. row ref = Inr raw \<and> cast_type_value voc raw d = Inr w
           \<and> y = (''value'', Scalar w)"
  using assms
  by (auto simp: set_value_def is_bound_def getattr_def split: sum.splits option.splits)

section \<open>What an update does to a node of the tree\<close>

lemma update_done:
  assumes "update voc row ref self = (res, None)"
  shows "\<not> hasattr self ''update''" and "length res = length self"
    and "\<forall>j<length self. update_entry voc row ref (take j res @ drop j self) (self ! j)
           = (res ! j, None)"
proof -
  show h: "\<not> hasattr self ''update''"
  proof
    assume "hasattr self ''update''"
    from update_hidden [OF this, of voc row ref] assms show False by simp
  qed
  from assms update_unhidden [OF h, of voc row ref]
  have "update_fields voc row ref [] self = (res, None)" by simp
  from update_fields_done [OF this]
  show "length res = length self"
    and "\<forall>j<length self. update_entry voc row ref (take j res @ drop j self) (self ! j)
           = (res ! j, None)" by simp_all
qed

lemma run_state_key:
  assumes "length res = length self"
    and "\<forall>j<length self. update_entry voc row ref (take j res @ drop j self) (self ! j)
           = (res ! j, e j)"
    and "i < length self"
  shows "fst (res ! i) = fst (self ! i)"
    and "fst ((take j res @ drop j self) ! i) = fst (self ! i)"
proof -
  from assms(2,3) update_entry_key [of voc row ref "take i res @ drop i self" "self ! i"]
  show a: "fst (res ! i) = fst (self ! i)" by simp
  from a assms(1,3) show "fst ((take j res @ drop j self) ! i) = fst (self ! i)"
    by (simp add: run_state_nth)
qed

lemma update_done_lookup:
  assumes "update voc row ref self = (res, None)" and "map_of self k = Some v"
  shows "\<exists>j<length self. update_entry voc row ref (take j res @ drop j self) (k, v)
             = ((k, snd (res ! j)), None)
           \<and> map_of res k = Some (snd (res ! j))"
proof -
  note d = update_done [OF assms(1)]
  from map_of_nth_first [OF assms(2)] obtain j where
    j: "j < length self" "self ! j = (k, v)" "\<forall>i<j. fst (self ! i) \<noteq> k" by blast
  have key: "\<And>i. i < length self \<Longrightarrow> fst (res ! i) = fst (self ! i)"
    using run_state_key(1) [OF d(2), of voc row ref "\<lambda>_. None"] d(3) by simp
  from d(3) j have e: "update_entry voc row ref (take j res @ drop j self) (k, v)
      = (res ! j, None)" by auto
  from key [OF j(1)] j(2) have fk: "fst (res ! j) = k" by simp
  have "\<forall>i<j. fst (res ! i) \<noteq> k"
  proof (intro allI impI)
    fix i assume "i < j"
    with j key [of i] show "fst (res ! i) \<noteq> k" by simp
  qed
  with map_of_first_nth [of j res k] j(1) d(2) fk
  have m: "map_of res k = Some (snd (res ! j))" by simp
  from fk have "res ! j = (k, snd (res ! j))" by (cases "res ! j") simp
  with e m j(1) show ?thesis by auto
qed

lemma update_done_state:
  assumes "update voc row ref self = (res, None)" and "map_of self k = Some (Scalar s)"
    and "k \<noteq> ''value''"
  shows "map_of (take j res @ drop j self) k = Some (Scalar s)"
proof -
  note d = update_done [OF assms(1)]
  let ?cur = "take j res @ drop j self"
  from map_of_nth_first [OF assms(2)] obtain n where
    n: "n < length self" "self ! n = (k, Scalar s)" "\<forall>i<n. fst (self ! i) \<noteq> k" by blast
  have key: "\<And>i. i < length self \<Longrightarrow> fst (?cur ! i) = fst (self ! i)"
    using run_state_key(2) [OF d(2), of voc row ref "\<lambda>_. None"] d(3) by simp
  from d(3) n assms(3) have "res ! n = (k, Scalar s)"
    using update_entry_other [of k voc row ref "take n res @ drop n self" s] by auto
  with n d(2) have c: "?cur ! n = (k, Scalar s)" by (simp add: run_state_nth)
  have "\<forall>i<n. fst (?cur ! i) \<noteq> k"
  proof (intro allI impI)
    fix i assume "i < n"
    with n key [of i] show "fst (?cur ! i) \<noteq> k" by simp
  qed
  with map_of_first_nth [of n ?cur k] n(1) d(2) c show ?thesis by simp
qed

lemma update_leaf_value:
  assumes "update voc row r node = (node', None)"
    and "map_of node ''value'' = Some (Scalar v)"
    and "map_of node ''dmtype'' = Some (Scalar t)"
  shows "if is_bound r
         then \<exists>raw w. row r = Inr raw \<and> cast_type_value voc raw (Scalar t) = Inr w
                \<and> map_of node' ''value'' = Some (Scalar w)
         else map_of node' ''value'' = Some (Scalar v)"
proof -
  from update_done_lookup [OF assms(1,2)] obtain j where
    e: "update_entry voc row r (take j node' @ drop j node) (''value'', Scalar v)
          = ((''value'', snd (node' ! j)), None)"
    and m: "map_of node' ''value'' = Some (snd (node' ! j))" by blast
  have dm: "map_of (take j node' @ drop j node) ''dmtype'' = Some (Scalar t)"
    by (rule update_done_state [OF assms(1,3)]) simp
  show ?thesis
  proof (cases "is_bound r")
    case True
    from update_entry_value [OF e True dm] m True show ?thesis by auto
  next
    case False
    from update_entry_unbound [OF False, of voc row "take j node' @ drop j node" "''value''" v] e m
      False
    show ?thesis by simp
  qed
qed

lemma update_instance_lookup:
  assumes "update voc row ref self = (res, None)" and "map_of self k = Some (Instance sub)"
  shows "\<exists>r. passed_ref sub = Inr r \<and> snd (update voc row r sub) = None
           \<and> map_of res k = Some (Instance (fst (update voc row r sub)))"
proof -
  from update_done_lookup [OF assms] obtain j where
    e: "update_entry voc row ref (take j res @ drop j self) (k, Instance sub)
          = ((k, snd (res ! j)), None)"
    and m: "map_of res k = Some (snd (res ! j))" by blast
  show ?thesis
  proof (cases "hasattr sub ''value''")
    case False
    with e m show ?thesis
      by (auto simp: passed_ref_def simp del: update.simps split: prod.splits)
  next
    case True
    show ?thesis
    proof (cases "getattr sub ''ref''")
      case (Inl err)
      with e True show ?thesis by (simp del: update.simps)
    next
      case (Inr r)
      with e m True show ?thesis
        by (auto simp: passed_ref_def simp del: update.simps split: prod.splits)
    qed
  qed
qed

lemma update_collection_lookup:
  assumes "update voc row ref self = (res, None)" and "map_of self k = Some (Collection items)"
  shows "map_of res k = Some (Collection (map (\<lambda>c. fst (update voc row (Scalar PNone) c)) items))
         \<and> (\<forall>c\<in>set items. snd (update voc row (Scalar PNone) c) = None)"
proof -
  from update_done_lookup [OF assms] obtain j where
    e: "update_entry voc row ref (take j res @ drop j self) (k, Collection items)
          = ((k, snd (res ! j)), None)"
    and m: "map_of res k = Some (snd (res ! j))" by blast
  from e have s: "snd (update_items voc row [] items) = None"
    and f: "snd (res ! j) = Collection (fst (update_items voc row [] items))"
    by (auto simp del: update.simps split: prod.splits)
  from update_items_map [OF s] f m show ?thesis by (simp del: update.simps)
qed

lemma reach_node: "map_option snd (reach a self path) = map_option snd (reach b self path)"
proof (cases path)
  case Nil
  then show ?thesis by simp
next
  case (Cons p ps)
  then show ?thesis by (cases p) simp_all
qed

lemma passed_ref_keys:
  assumes "map fst sub' = map fst sub" and "passed_ref sub = Inr r"
  shows "\<exists>r'. passed_ref sub' = Inr r'"
proof (cases "hasattr sub ''value''")
  case False
  with assms(1) show ?thesis by (simp add: passed_ref_def hasattr_def)
next
  case True
  with assms(2) have "getattr sub ''ref'' = Inr r" by (simp add: passed_ref_def)
  then have "hasattr sub ''ref''"
    by (cases "map_of sub ''ref''") (auto simp: getattr_def hasattr_def dest: map_of_SomeD
        intro: rev_image_eqI)
  with assms(1) have "hasattr sub' ''ref''" by (simp add: hasattr_def)
  from getattr_present [OF this] True assms(1) show ?thesis
    by (auto simp: passed_ref_def hasattr_def)
qed

lemma reach_update:
  "snd (update voc row ref self) = None \<Longrightarrow> reach ref self path = Some (r, node) \<Longrightarrow>
   map_option snd (reach ref (fst (update voc row ref self)) path)
     = Some (fst (update voc row r node))
   \<and> snd (update voc row r node) = None"
proof (induction path arbitrary: ref self)
  case Nil
  then show ?case by (simp del: update.simps)
next
  case (Cons p path)
  obtain res where u: "update voc row ref self = (res, None)"
    using Cons.prems(1) by (cases "update voc row ref self") (simp del: update.simps)
  show ?case
  proof (cases p)
    case (Attr k)
    with Cons.prems(2) obtain sub r1 where
      m: "map_of self k = Some (Instance sub)" and p: "passed_ref sub = Inr r1"
      and r: "reach r1 sub path = Some (r, node)"
      by (auto split: option.splits pyval.splits sum.splits)
    from update_instance_lookup [OF u m] p
    have s: "snd (update voc row r1 sub) = None"
      and m': "map_of res k = Some (Instance (fst (update voc row r1 sub)))"
      by (simp_all del: update.simps)
    from passed_ref_keys [OF update_keys p, of voc row r1] obtain r' where
      p': "passed_ref (fst (update voc row r1 sub)) = Inr r'" by blast
    from Cons.IH [OF s r] reach_node [of r' "fst (update voc row r1 sub)" path r1]
    have "map_option snd (reach r' (fst (update voc row r1 sub)) path)
            = Some (fst (update voc row r node))
          \<and> snd (update voc row r node) = None" by (simp del: update.simps)
    with u Attr m' p' show ?thesis by (simp del: update.simps)
  next
    case (Elem k i)
    with Cons.prems(2) obtain items where
      m: "map_of self k = Some (Collection items)" and i: "i < length items"
      and r: "reach (Scalar PNone) (items ! i) path = Some (r, node)"
      by (auto split: option.splits pyval.splits if_splits)
    from update_collection_lookup [OF u m] i
    have m': "map_of res k
        = Some (Collection (map (\<lambda>c. fst (update voc row (Scalar PNone) c)) items))"
      and s: "snd (update voc row (Scalar PNone) (items ! i)) = None"
      by (simp_all del: update.simps)
    from Cons.IH [OF s r] u Elem m' i show ?thesis by (simp del: update.simps)
  qed
qed

lemma castableD:
  assumes "castable voc row ref self"
  shows "\<not> hasattr self ''_remove_model_name''
         \<and> (\<exists>raw t w. row ref = Inr raw \<and> map_of self ''dmtype'' = Some (Scalar t)
               \<and> cast_type_value voc raw (Scalar t) = Inr w)"
proof -
  from assms obtain raw t where
    a: "\<not> hasattr self ''_remove_model_name''" "row ref = Inr raw"
       "map_of self ''dmtype'' = Some (Scalar t)"
    and c: "case cast_type_value voc raw (Scalar t) of Inl e \<Rightarrow> False | Inr w \<Rightarrow> True"
    by (auto simp: castable_def split: sum.splits option.splits pyval.splits)
  from c obtain w where "cast_type_value voc raw (Scalar t) = Inr w"
    by (cases "cast_type_value voc raw (Scalar t)") simp_all
  with a show ?thesis by blast
qed

lemma reads_kept:
  assumes "\<forall>t. map_of self0 n = Some (Scalar t)
             \<longrightarrow> map_of (seen @ (key, v) # todo) n = Some (Scalar t)"
    and "key = n \<Longrightarrow> (\<exists>t. v = Scalar t) \<Longrightarrow> v' = v"
  shows "\<forall>t. map_of self0 n = Some (Scalar t)
             \<longrightarrow> map_of ((seen @ [(key, v')]) @ todo) n = Some (Scalar t)"
  using assms by (cases "map_of seen n") (auto simp: map_add_def split: if_splits)

lemma updatable_ok:
  "updatable voc row ref self \<Longrightarrow> snd (update voc row ref self) = None"
  "updatable_fields voc row ref self0 todo \<Longrightarrow>
     (\<forall>seen. hasattr (seen @ todo) ''_remove_model_name'' = hasattr self0 ''_remove_model_name''
        \<longrightarrow> (\<forall>t. map_of self0 ''dmtype'' = Some (Scalar t)
               \<longrightarrow> map_of (seen @ todo) ''dmtype'' = Some (Scalar t))
        \<longrightarrow> snd (update_fields voc row ref seen todo) = None)"
  "updatable_items voc row items \<Longrightarrow> (\<forall>seen'. snd (update_items voc row seen' items) = None)"
proof (induction voc row ref self and voc row ref self0 todo and voc row items
    rule: updatable_updatable_fields_updatable_items.induct)
  case (1 voc row ref self)
  then show ?case by (simp add: method_hidden_def)
next
  case (2 voc row ref self)
  then show ?case by simp
next
  case (3 voc row ref self key v todo)
  show ?case
  proof (intro allI impI)
    fix seen
    let ?cur = "seen @ (key, Scalar v) # todo"
    assume h: "hasattr ?cur ''_remove_model_name'' = hasattr self ''_remove_model_name''"
      and d: "\<forall>t. map_of self ''dmtype'' = Some (Scalar t)
               \<longrightarrow> map_of ?cur ''dmtype'' = Some (Scalar t)"
    from "3.prems" have rest: "updatable_fields voc row ref self todo" by simp
    show "snd (update_fields voc row ref seen ((key, Scalar v) # todo)) = None"
    proof (cases "key = ''value'' \<and> is_bound ref")
      case True
      with "3.prems" have c: "castable voc row ref self" by simp
      from castableD [OF this] obtain raw t w where
        "\<not> hasattr self ''_remove_model_name''" "row ref = Inr raw"
        "map_of self ''dmtype'' = Some (Scalar t)" "cast_type_value voc raw (Scalar t) = Inr w"
        by blast
      with h d True have sv: "set_value voc row ref ?cur key = Inr (Some w)"
        by (simp add: set_value_def is_bound_def call_remove_model_name_def method_hidden_def
            getattr_def)
      have h': "hasattr ((seen @ [(key, Scalar w)]) @ todo) ''_remove_model_name''
          = hasattr self ''_remove_model_name''"
        using h by (simp add: hasattr_def)
      have d': "\<forall>t. map_of self ''dmtype'' = Some (Scalar t)
               \<longrightarrow> map_of ((seen @ [(key, Scalar w)]) @ todo) ''dmtype'' = Some (Scalar t)"
        using True by (intro reads_kept [OF d]) simp
      from "3.IH" [OF rest, rule_format, OF h' d' [rule_format]] sv show ?thesis by simp
    next
      case False
      then have sv: "set_value voc row ref ?cur key = Inr None"
        by (auto simp: set_value_def is_bound_def)
      from "3.IH" [OF rest, rule_format, of "seen @ [(key, Scalar v)]"] h d sv show ?thesis by simp
    qed
  qed
next
  case (4 voc row ref self key x todo)
  show ?case
  proof (intro allI impI)
    fix seen
    let ?cur = "seen @ (key, UnitObj x) # todo"
    assume h: "hasattr ?cur ''_remove_model_name'' = hasattr self ''_remove_model_name''"
      and d: "\<forall>t. map_of self ''dmtype'' = Some (Scalar t)
               \<longrightarrow> map_of ?cur ''dmtype'' = Some (Scalar t)"
    from "4.prems" have rest: "updatable_fields voc row ref self todo" by simp
    show "snd (update_fields voc row ref seen ((key, UnitObj x) # todo)) = None"
    proof (cases "key = ''value'' \<and> is_bound ref")
      case True
      with "4.prems" have c: "castable voc row ref self" by simp
      from castableD [OF this] obtain raw t w where
        "\<not> hasattr self ''_remove_model_name''" "row ref = Inr raw"
        "map_of self ''dmtype'' = Some (Scalar t)" "cast_type_value voc raw (Scalar t) = Inr w"
        by blast
      with h d True have sv: "set_value voc row ref ?cur key = Inr (Some w)"
        by (simp add: set_value_def is_bound_def call_remove_model_name_def method_hidden_def
            getattr_def)
      have h': "hasattr ((seen @ [(key, Scalar w)]) @ todo) ''_remove_model_name''
          = hasattr self ''_remove_model_name''"
        using h by (simp add: hasattr_def)
      have d': "\<forall>t. map_of self ''dmtype'' = Some (Scalar t)
               \<longrightarrow> map_of ((seen @ [(key, Scalar w)]) @ todo) ''dmtype'' = Some (Scalar t)"
        using True by (intro reads_kept [OF d]) simp
      from "4.IH" [OF rest, rule_format, OF h' d' [rule_format]] sv show ?thesis by simp
    next
      case False
      then have sv: "set_value voc row ref ?cur key = Inr None"
        by (auto simp: set_value_def is_bound_def)
      from "4.IH" [OF rest, rule_format, of "seen @ [(key, UnitObj x)]"] h d sv show ?thesis by simp
    qed
  qed
next
  case (5 voc row ref self key sub todo)
  show ?case
  proof (intro allI impI)
    fix seen
    let ?cur = "seen @ (key, Instance sub) # todo"
    assume h: "hasattr ?cur ''_remove_model_name'' = hasattr self ''_remove_model_name''"
      and d: "\<forall>t. map_of self ''dmtype'' = Some (Scalar t)
               \<longrightarrow> map_of ?cur ''dmtype'' = Some (Scalar t)"
    from "5.prems" obtain r where p: "passed_ref sub = Inr r" and s: "updatable voc row r sub"
      and rest: "updatable_fields voc row ref self todo"
      by (auto split: sum.splits)
    from "5.IH"(1) [OF p s] have ok: "snd (update voc row r sub) = None" .
    obtain sub' where u: "update voc row r sub = (sub', None)"
      using ok by (cases "update voc row r sub") (simp del: update.simps)
    from p u have e: "(if \<not> hasattr sub ''value'' then update voc row (Scalar PNone) sub
            else (case getattr sub ''ref'' of
                    Inl e \<Rightarrow> (sub, Some e)
                  | Inr r \<Rightarrow> update voc row r sub)) = (sub', None)"
      by (auto simp: passed_ref_def simp del: update.simps)
    have h': "hasattr ((seen @ [(key, Instance sub')]) @ todo) ''_remove_model_name''
        = hasattr self ''_remove_model_name''"
      using h by (simp add: hasattr_def)
    have d': "\<forall>t. map_of self ''dmtype'' = Some (Scalar t)
             \<longrightarrow> map_of ((seen @ [(key, Instance sub')]) @ todo) ''dmtype'' = Some (Scalar t)"
      by (intro reads_kept [OF d]) simp
    from "5.IH"(2) [OF rest, rule_format, OF h' d' [rule_format]] e
    show "snd (update_fields voc row ref seen ((key, Instance sub) # todo)) = None"
      by (simp del: update.simps)
  qed
next
  case (6 voc row ref self key items todo)
  show ?case
  proof (intro allI impI)
    fix seen
    let ?cur = "seen @ (key, Collection items) # todo"
    assume h: "hasattr ?cur ''_remove_model_name'' = hasattr self ''_remove_model_name''"
      and d: "\<forall>t. map_of self ''dmtype'' = Some (Scalar t)
               \<longrightarrow> map_of ?cur ''dmtype'' = Some (Scalar t)"
    from "6.prems" have i: "updatable_items voc row items"
      and rest: "updatable_fields voc row ref self todo" by simp_all
    from "6.IH"(1) [OF i] have ok: "snd (update_items voc row [] items) = None" by simp
    obtain items' where u: "update_items voc row [] items = (items', None)"
      using ok by (cases "update_items voc row [] items") simp
    have h': "hasattr ((seen @ [(key, Collection items')]) @ todo) ''_remove_model_name''
        = hasattr self ''_remove_model_name''"
      using h by (simp add: hasattr_def)
    have d': "\<forall>t. map_of self ''dmtype'' = Some (Scalar t)
             \<longrightarrow> map_of ((seen @ [(key, Collection items')]) @ todo) ''dmtype'' = Some (Scalar t)"
      by (intro reads_kept [OF d]) simp
    from "6.IH"(2) [OF rest, rule_format, OF h' d' [rule_format]] u
    show "snd (update_fields voc row ref seen ((key, Collection items) # todo)) = None"
      by (simp del: update.simps)
  qed
next
  case (7 voc row)
  then show ?case by simp
next
  case (8 voc row item items)
  show ?case
  proof (intro allI)
    fix seen'
    from "8.prems" have a: "updatable voc row (Scalar PNone) item"
      and b: "updatable_items voc row items" by simp_all
    from "8.IH"(1) [OF a] obtain item' where
      u: "update voc row (Scalar PNone) item = (item', None)"
      by (cases "update voc row (Scalar PNone) item") (simp del: update.simps)
    from "8.IH"(2) [OF b] u show "snd (update_items voc row seen' (item # items)) = None"
      by (simp del: update.simps)
  qed
qed

lemma reach_caller:
  "path \<noteq> [] \<Longrightarrow> reach ref self path = reach ref' self path"
proof (cases path)
  case Nil
  assume "path \<noteq> []"
  with Nil show ?thesis by simp
next
  case (Cons p ps)
  then show ?thesis by (cases p) simp_all
qed

text \<open>
  Claim C2, amended: let \<open>update\<close> raise nothing on a tree, and let a path of attributes and
  list items lead to a leaf whose \<open>value\<close> and \<open>dmtype\<close> hold scalars. When the reference
  that reaches the leaf is bound (for a leaf held by an attribute: what its own attribute
  \<open>ref\<close> holds), the row has that reference and the leaf's \<open>value\<close> becomes the cast of the
  row value to the leaf's \<open>dmtype\<close>, whatever the row and the cast helper; when it is \<open>None\<close>
  or \<open>null\<close> the \<open>value\<close> is unchanged. The reference the caller gives for the tree plays no
  part below the root. An update of an updatable tree raises nothing.
\<close>

theorem update_attribute_leaf:
  "(updatable voc row ref self \<longrightarrow> snd (update voc row ref self) = None)
   \<and> (path \<noteq> [] \<longrightarrow> reach ref self path = reach ref' self path)
   \<and> (snd (update voc row ref self) = None \<and> reach ref self path = Some (r, leaf)
        \<and> map_of leaf ''value'' = Some (Scalar v)
        \<and> map_of leaf ''dmtype'' = Some (Scalar t) \<longrightarrow>
      (\<exists>leaf'. map_option snd (reach ref (fst (update voc row ref self)) path) = Some leaf'
         \<and> (if is_bound r
            then \<exists>raw w. row r = Inr raw \<and> cast_type_value voc raw (Scalar t) = Inr w
                   \<and> map_of leaf' ''value'' = Some (Scalar w)
            else map_of leaf' ''value'' = Some (Scalar v))))"
proof (intro conjI impI)
  assume "updatable voc row ref self"
  then show "snd (update voc row ref self) = None" by (rule updatable_ok(1))
next
  assume "path \<noteq> []"
  then show "reach ref self path = reach ref' self path" by (rule reach_caller)
next
  assume a: "snd (update voc row ref self) = None \<and> reach ref self path = Some (r, leaf)
        \<and> map_of leaf ''value'' = Some (Scalar v)
        \<and> map_of leaf ''dmtype'' = Some (Scalar t)"
  from reach_update [of voc row ref self path r leaf] a
  have n: "map_option snd (reach ref (fst (update voc row ref self)) path)
      = Some (fst (update voc row r leaf))"
    and s: "snd (update voc row r leaf) = None" by (simp_all del: update.simps)
  from s have u: "update voc row r leaf = (fst (update voc row r leaf), None)"
    by (cases "update voc row r leaf") (simp del: update.simps)
  from a have "map_of leaf ''value'' = Some (Scalar v)" "map_of leaf ''dmtype'' = Some (Scalar t)"
    by simp_all
  from update_leaf_value [OF u this] n
  show "\<exists>leaf'. map_option snd (reach ref (fst (update voc row ref self)) path) = Some leaf'
         \<and> (if is_bound r
            then \<exists>raw w. row r = Inr raw \<and> cast_type_value voc raw (Scalar t) = Inr w
                   \<and> map_of leaf' ''value'' = Some (Scalar w)
            else map_of leaf' ''value'' = Some (Scalar v))"
    by (intro exI [of _ "fst (update voc row r leaf)"] conjI)
qed

text \<open>
  Claim C2, as stated, fails in its second half: on the tree whose attribute \<open>pos\<close> holds the
  leaf bound to \<open>c1\<close>, \<open>update\<close> called with the reference \<open>None\<close>, or with \<open>null\<close>, changes
  the value of the leaf from 1.5 to 3.5.
\<close>

theorem update_attribute_leaf_counterexample:
  "update example_vocabulary example_row (Scalar PNone)
      [(''pos'', Instance (attribute_leaf (PFloat 1.5) (PStr ''deg'') (PStr ''c1'')))]
     = ([(''pos'', Instance (attribute_leaf (PFloat 3.5) (PStr ''deg'') (PStr ''c1'')))], None)
   \<and> update example_vocabulary example_row (Scalar (PStr ''null''))
      [(''pos'', Instance (attribute_leaf (PFloat 1.5) (PStr ''deg'') (PStr ''c1'')))]
     = ([(''pos'', Instance (attribute_leaf (PFloat 3.5) (PStr ''deg'') (PStr ''c1'')))], None)
   \<and> map_of (attribute_leaf (PFloat 3.5) (PStr ''deg'') (PStr ''c1'') :: nat obj) ''value''
       \<noteq> map_of (attribute_leaf (PFloat 1.5) (PStr ''deg'') (PStr ''c1'')) ''value''"
  by (simp add: example_vocabulary_def example_row_def attribute_leaf_def method_hidden_def
      hasattr_def getattr_def set_value_def call_remove_model_name_def dict_row_def)

text \<open>
  Claim C2, amended, at the example tree: the leaf below \<open>position\<close> and the leaf below the
  first item of \<open>obs\<close> get the float 3.5, and the leaf that is itself an item of \<open>obs\<close>, which
  is updated without a reference, keeps 1.5.
\<close>

theorem update_attribute_leaf_witness:
  "updatable example_vocabulary example_row (Scalar PNone)
      (example_source (PFloat 1.5) (PFloat 1.5) (PFloat 1.5))
   \<and> snd (update example_vocabulary example_row (Scalar PNone)
        (example_source (PFloat 1.5) (PFloat 1.5) (PFloat 1.5))) = None
   \<and> reach (Scalar PNone) (example_source (PFloat 1.5) (PFloat 1.5) (PFloat 1.5))
        [Attr ''position'', Attr ''ra'']
      = Some (Scalar (PStr ''c1''), attribute_leaf (PFloat 1.5) (PStr ''deg'') (PStr ''c1''))
   \<and> is_bound (Scalar (PStr ''c1'') :: nat pyval)
   \<and> (\<exists>leaf'. map_option snd (reach (Scalar PNone)
          (fst (update example_vocabulary example_row (Scalar PNone)
             (example_source (PFloat 1.5) (PFloat 1.5) (PFloat 1.5))))
          [Attr ''position'', Attr ''ra'']) = Some leaf'
        \<and> map_of leaf' ''value'' = Some (Scalar (PFloat 3.5)))
   \<and> reach (Scalar PNone) (example_source (PFloat 1.5) (PFloat 1.5) (PFloat 1.5))
        [Elem ''obs'' 0, Attr ''mag'']
      = Some (Scalar (PStr ''c1''), attribute_leaf (PFloat 1.5) (PStr []) (PStr ''c1''))
   \<and> (\<exists>leaf'. map_option snd (reach (Scalar PNone)
          (fst (update example_vocabulary example_row (Scalar PNone)
             (example_source (PFloat 1.5) (PFloat 1.5) (PFloat 1.5))))
          [Elem ''obs'' 0, Attr ''mag'']) = Some leaf'
        \<and> map_of leaf' ''value'' = Some (Scalar (PFloat 3.5)))
   \<and> reach (Scalar PNone) (example_source (PFloat 1.5) (PFloat 1.5) (PFloat 1.5))
        [Elem ''obs'' (Suc 0)]
      = Some (Scalar PNone, attribute_leaf (PFloat 1.5) (PStr []) (PStr ''c1''))
   \<and> \<not> is_bound (Scalar PNone :: nat pyval)
   \<and> (\<exists>leaf'. map_option snd (reach (Scalar PNone)
          (fst (update example_vocabulary example_row (Scalar PNone)
             (example_source (PFloat 1.5) (PFloat 1.5) (PFloat 1.5))))
          [Elem ''obs'' (Suc 0)]) = Some leaf'
        \<and> map_of leaf' ''value'' = Some (Scalar (PFloat 1.5)))
   \<and> update example_vocabulary example_row (Scalar PNone)
        (example_source (PFloat 1.5) (PFloat 1.5) (PFloat 1.5))
      = (example_source (PFloat 3.5) (PFloat 3.5) (PFloat 1.5), None)"
proof -
  let ?self = "example_source (PFloat 1.5) (PFloat 1.5) (PFloat 1.5)"
  let ?row = "example_row"
  have up: "updatable example_vocabulary ?row (Scalar PNone) ?self"
    by (simp add: example_vocabulary_def example_row_def example_source_def attribute_leaf_def
        hasattr_def getattr_def passed_ref_def castable_def is_bound_def dict_row_def)
  have ok: "snd (update example_vocabulary ?row (Scalar PNone) ?self) = None"
    using up update_attribute_leaf [where voc = example_vocabulary and row = ?row
        and ref = "Scalar PNone" and self = ?self]
    by (simp del: update.simps updatable.simps)
  have r1: "reach (Scalar PNone) ?self [Attr ''position'', Attr ''ra'']
      = Some (Scalar (PStr ''c1''), attribute_leaf (PFloat 1.5) (PStr ''deg'') (PStr ''c1''))"
    by (simp add: example_source_def attribute_leaf_def passed_ref_def hasattr_def getattr_def)
  have r2: "reach (Scalar PNone) ?self [Elem ''obs'' 0, Attr ''mag'']
      = Some (Scalar (PStr ''c1''), attribute_leaf (PFloat 1.5) (PStr []) (PStr ''c1''))"
    by (simp add: example_source_def attribute_leaf_def passed_ref_def hasattr_def getattr_def)
  have r3: "reach (Scalar PNone) ?self [Elem ''obs'' (Suc 0)]
      = Some (Scalar PNone, attribute_leaf (PFloat 1.5) (PStr []) (PStr ''c1''))"
    by (simp add: example_source_def attribute_leaf_def passed_ref_def hasattr_def getattr_def)
  have b: "is_bound (Scalar (PStr ''c1'') :: nat pyval)" "\<not> is_bound (Scalar PNone :: nat pyval)"
    by (simp_all add: is_bound_def)
  have c: "?row (Scalar (PStr ''c1'')) = Inr (PStr ''3.5'')"
    "cast_type_value example_vocabulary (PStr ''3.5'') (Scalar (PStr ''float''))
      = Inr (PFloat 3.5)"
    by (simp_all add: example_row_def dict_row_def example_vocabulary_def)
  have m: "map_of (attribute_leaf (PFloat 1.5) u (PStr ''c1'') :: nat obj) ''value''
      = Some (Scalar (PFloat 1.5))"
    "map_of (attribute_leaf (PFloat 1.5) u (PStr ''c1'') :: nat obj) ''dmtype''
      = Some (Scalar (PStr ''float''))" for u
    by (simp_all add: attribute_leaf_def)
  have v1: "\<exists>leaf'. map_option snd (reach (Scalar PNone)
          (fst (update example_vocabulary ?row (Scalar PNone) ?self))
          [Attr ''position'', Attr ''ra'']) = Some leaf'
        \<and> map_of leaf' ''value'' = Some (Scalar (PFloat 3.5))"
    using ok r1 b c m [of "PStr ''deg''"]
      update_attribute_leaf [where voc = example_vocabulary and row = ?row
        and ref = "Scalar PNone" and self = ?self and path = "[Attr ''position'', Attr ''ra'']"
        and r = "Scalar (PStr ''c1'')"
        and leaf = "attribute_leaf (PFloat 1.5) (PStr ''deg'') (PStr ''c1'')"
        and v = "PFloat 1.5" and t = "PStr ''float''"]
    by (auto simp del: update.simps updatable.simps reach.simps)
  have v2: "\<exists>leaf'. map_option snd (reach (Scalar PNone)
          (fst (update example_vocabulary ?row (Scalar PNone) ?self))
          [Elem ''obs'' 0, Attr ''mag'']) = Some leaf'
        \<and> map_of leaf' ''value'' = Some (Scalar (PFloat 3.5))"
    using ok r2 b c m [of "PStr []"]
      update_attribute_leaf [where voc = example_vocabulary and row = ?row
        and ref = "Scalar PNone" and self = ?self and path = "[Elem ''obs'' 0, Attr ''mag'']"
        and r = "Scalar (PStr ''c1'')"
        and leaf = "attribute_leaf (PFloat 1.5) (PStr []) (PStr ''c1'')"
        and v = "PFloat 1.5" and t = "PStr ''float''"]
    by (auto simp del: update.simps updatable.simps reach.simps)
  have v3: "\<exists>leaf'. map_option snd (reach (Scalar PNone)
          (fst (update example_vocabulary ?row (Scalar PNone) ?self))
          [Elem ''obs'' (Suc 0)]) = Some leaf'
        \<and> map_of leaf' ''value'' = Some (Scalar (PFloat 1.5))"
    using ok r3 b m [of "PStr []"]
      update_attribute_leaf [where voc = example_vocabulary and row = ?row
        and ref = "Scalar PNone" and self = ?self and path = "[Elem ''obs'' (Suc 0)]"
        and r = "Scalar PNone"
        and leaf = "attribute_leaf (PFloat 1.5) (PStr []) (PStr ''c1'')"
        and v = "PFloat 1.5" and t = "PStr ''float''"]
    by (auto simp del: update.simps updatable.simps reach.simps)
  have whole: "update example_vocabulary ?row (Scalar PNone) ?self
      = (example_source (PFloat 3.5) (PFloat 3.5) (PFloat 1.5), None)"
    by (simp add: example_vocabulary_def example_row_def example_source_def attribute_leaf_def
        method_hidden_def hasattr_def getattr_def set_value_def call_remove_model_name_def
        dict_row_def)
  from up ok r1 r2 r3 b v1 v2 v3 whole show ?thesis by blast
qed

section \<open>An update that raises\<close>

lemma update_stopped:
  assumes "\<not> hasattr self ''update''" and "update voc row ref self = (res, Some e)"
  shows "length res = length self"
    and "\<exists>n<length self.
            (\<forall>j<n. update_entry voc row ref (take j res @ drop j self) (self ! j)
               = (res ! j, None))
            \<and> update_entry voc row ref (take n res @ drop n self) (self ! n)
               = (res ! n, Some e)
            \<and> drop (Suc n) res = drop (Suc n) self"
proof -
  from assms update_unhidden [of self voc row ref]
  have "update_fields voc row ref [] self = (res, Some e)" by simp
  from update_fields_stopped [OF this]
  show "length res = length self"
    and "\<exists>n<length self.
            (\<forall>j<n. update_entry voc row ref (take j res @ drop j self) (self ! j)
               = (res ! j, None))
            \<and> update_entry voc row ref (take n res @ drop n self) (self ! n)
               = (res ! n, Some e)
            \<and> drop (Suc n) res = drop (Suc n) self"
    by auto
qed

lemma items_stopped:
  assumes "update_items voc row [] items = (res, Some e)"
  shows "length res = length items"
    and "\<exists>m<length items.
            (\<forall>j<m. update voc row (Scalar PNone) (items ! j) = (res ! j, None))
            \<and> update voc row (Scalar PNone) (items ! m) = (res ! m, Some e)
            \<and> drop (Suc m) res = drop (Suc m) items"
  using update_items_stopped [OF assms] by (auto simp del: update.simps)

text \<open>
  Claim C8: when the cast helper returns an error \<open>e\<close> for the row value of a node updated
  with a bound reference, the turn of the loop on the attribute \<open>value\<close> ends with that same
  \<open>e\<close> and the attribute as it was. The turn on a nested instance, and on a list, ends with
  the outcome of the update of the instance, and of the items. When the turns on the first
  \<open>n\<close> fields of an object raise nothing and the turn on the next field ends with \<open>e\<close>, the
  call of \<open>update\<close> on the object ends with \<open>e\<close>, the first \<open>n\<close> fields holding what their
  turns gave them, the next one what its turn left, and the others untouched; likewise for
  the items of a list, at any position. Every call of \<open>update\<close> that raises is of this form,
  and what it raises was returned by the row or by the cast helper, or raised by a lookup
  of \<open>update\<close> itself.
\<close>

theorem update_cast_error:
  "(is_bound ref \<and> \<not> hasattr cur ''_remove_model_name'' \<and> row ref = Inr raw
      \<and> getattr cur ''dmtype'' = Inr dmtype \<and> cast_type_value voc raw dmtype = Inl e \<longrightarrow>
      update_entry voc row ref cur (''value'', Scalar v) = ((''value'', Scalar v), Some e))
   \<and> (passed_ref sub = Inr r \<longrightarrow>
      update_entry voc row ref cur (key, Instance sub)
        = ((key, Instance (fst (update voc row r sub))), snd (update voc row r sub)))
   \<and> update_entry voc row ref cur (key, Collection items)
        = ((key, Collection (fst (update_items voc row [] items))),
           snd (update_items voc row [] items))
   \<and> (\<not> hasattr self ''update'' \<and> n < length self \<and> length res = length self
        \<and> (\<forall>j<n. update_entry voc row ref (take j res @ drop j self) (self ! j)
               = (res ! j, None))
        \<and> update_entry voc row ref (take n res @ drop n self) (self ! n) = (res ! n, Some e)
        \<and> drop (Suc n) res = drop (Suc n) self \<longrightarrow>
      update voc row ref self = (res, Some e))
   \<and> (m < length items \<and> length res_items = length items
        \<and> (\<forall>j<m. update voc row (Scalar PNone) (items ! j) = (res_items ! j, None))
        \<and> update voc row (Scalar PNone) (items ! m) = (res_items ! m, Some e)
        \<and> drop (Suc m) res_items = drop (Suc m) items \<longrightarrow>
      update_items voc row [] items = (res_items, Some e))
   \<and> (\<not> hasattr self ''update'' \<and> update voc row ref self = (res, Some e) \<longrightarrow>
      length res = length self
      \<and> (\<exists>n<length self.
            (\<forall>j<n. update_entry voc row ref (take j res @ drop j self) (self ! j)
               = (res ! j, None))
            \<and> update_entry voc row ref (take n res @ drop n self) (self ! n)
               = (res ! n, Some e)
            \<and> drop (Suc n) res = drop (Suc n) self))
   \<and> (update_items voc row [] items = (res_items, Some e) \<longrightarrow>
      length res_items = length items
      \<and> (\<exists>m<length items.
            (\<forall>j<m. update voc row (Scalar PNone) (items ! j) = (res_items ! j, None))
            \<and> update voc row (Scalar PNone) (items ! m) = (res_items ! m, Some e)
            \<and> drop (Suc m) res_items = drop (Suc m) items))
   \<and> (snd (update voc row ref self) = Some e \<longrightarrow>
        raised_by_lookup e \<or> raised_outside voc row e)"
proof (intro conjI impI)
  assume "is_bound ref \<and> \<not> hasattr cur ''_remove_model_name'' \<and> row ref = Inr raw
      \<and> getattr cur ''dmtype'' = Inr dmtype \<and> cast_type_value voc raw dmtype = Inl e"
  then show "update_entry voc row ref cur (''value'', Scalar v) = ((''value'', Scalar v), Some e)"
    by (simp add: set_value_def is_bound_def call_remove_model_name_def method_hidden_def)
next
  assume "passed_ref sub = Inr r"
  then show "update_entry voc row ref cur (key, Instance sub)
        = ((key, Instance (fst (update voc row r sub))), snd (update voc row r sub))"
    by (auto simp: passed_ref_def simp del: update.simps split: prod.splits)
next
  show "update_entry voc row ref cur (key, Collection items)
        = ((key, Collection (fst (update_items voc row [] items))),
           snd (update_items voc row [] items))"
    by (simp split: prod.splits)
next
  assume a: "\<not> hasattr self ''update'' \<and> n < length self \<and> length res = length self
        \<and> (\<forall>j<n. update_entry voc row ref (take j res @ drop j self) (self ! j)
               = (res ! j, None))
        \<and> update_entry voc row ref (take n res @ drop n self) (self ! n) = (res ! n, Some e)
        \<and> drop (Suc n) res = drop (Suc n) self"
  then have "update_fields voc row ref [] self = ([] @ res, Some e)"
    by (intro update_fields_stops [of n]) simp_all
  with a update_unhidden [of self voc row ref] show "update voc row ref self = (res, Some e)"
    by simp
next
  assume "m < length items \<and> length res_items = length items
        \<and> (\<forall>j<m. update voc row (Scalar PNone) (items ! j) = (res_items ! j, None))
        \<and> update voc row (Scalar PNone) (items ! m) = (res_items ! m, Some e)
        \<and> drop (Suc m) res_items = drop (Suc m) items"
  then have "update_items voc row [] items = ([] @ res_items, Some e)"
    by (intro update_items_stops [of m]) simp_all
  then show "update_items voc row [] items = (res_items, Some e)" by simp
next
  assume "\<not> hasattr self ''update'' \<and> update voc row ref self = (res, Some e)"
  then show "length res = length self" using update_stopped(1) by blast
next
  assume "\<not> hasattr self ''update'' \<and> update voc row ref self = (res, Some e)"
  then show "\<exists>n<length self.
            (\<forall>j<n. update_entry voc row ref (take j res @ drop j self) (self ! j)
               = (res ! j, None))
            \<and> update_entry voc row ref (take n res @ drop n self) (self ! n)
               = (res ! n, Some e)
            \<and> drop (Suc n) res = drop (Suc n) self"
    using update_stopped(2) by blast
next
  assume "update_items voc row [] items = (res_items, Some e)"
  then show "length res_items = length items" by (rule items_stopped(1))
next
  assume "update_items voc row [] items = (res_items, Some e)"
  then show "\<exists>m<length items.
            (\<forall>j<m. update voc row (Scalar PNone) (items ! j) = (res_items ! j, None))
            \<and> update voc row (Scalar PNone) (items ! m) = (res_items ! m, Some e)
            \<and> drop (Suc m) res_items = drop (Suc m) items"
    by (rule items_stopped(2))
next
  assume "snd (update voc row ref self) = Some e"
  then show "raised_by_lookup e \<or> raised_outside voc row e"
    by (rule update_error_origin_all(1))
qed

text \<open>
  Claim C8 at the example catalog: the leaf below \<open>position\<close> and the leaf of the first item
  of \<open>obs\<close> are rewritten, the cast fails in the second item, and the call ends with the
  error of the cast, the two rewritten leaves keeping 3.5 and everything after the failing
  leaf untouched.
\<close>

theorem update_cast_error_witness:
  "update_entry example_vocabulary example_bad_row (Scalar (PStr ''c2''))
      (attribute_leaf (PFloat 1.5) (PStr []) (PStr ''c2'')) (''value'', Scalar (PFloat 1.5))
     = ((''value'', Scalar (PFloat 1.5)), Some (ValueError ''cast''))
   \<and> update_items example_vocabulary example_bad_row []
        [[(''mag'', Instance (attribute_leaf (PFloat 1.5) (PStr []) (PStr ''c1'')))],
         [(''mag'', Instance (attribute_leaf (PFloat 1.5) (PStr []) (PStr ''c2'')))],
         [(''mag'', Instance (attribute_leaf (PFloat 1.5) (PStr []) (PStr ''c1'')))]]
     = ([[(''mag'', Instance (attribute_leaf (PFloat 3.5) (PStr []) (PStr ''c1'')))],
         [(''mag'', Instance (attribute_leaf (PFloat 1.5) (PStr []) (PStr ''c2'')))],
         [(''mag'', Instance (attribute_leaf (PFloat 1.5) (PStr []) (PStr ''c1'')))]],
        Some (ValueError ''cast''))
   \<and> update example_vocabulary example_bad_row (Scalar PNone)
        (example_catalog (PFloat 1.5) (PFloat 1.5))
     = (example_catalog (PFloat 3.5) (PFloat 3.5), Some (ValueError ''cast''))"
proof -
  have leaf: "update_entry example_vocabulary example_bad_row (Scalar (PStr ''c2''))
      (attribute_leaf (PFloat 1.5) (PStr []) (PStr ''c2'')) (''value'', Scalar (PFloat 1.5))
     = ((''value'', Scalar (PFloat 1.5)), Some (ValueError ''cast''))"
    using update_cast_error [where voc = example_vocabulary and row = example_bad_row
        and ref = "Scalar (PStr ''c2'')"
        and cur = "attribute_leaf (PFloat 1.5) (PStr []) (PStr ''c2'')"
        and raw = "PStr ''n/a''" and dmtype = "Scalar (PStr ''float'')"
        and e = "ValueError ''cast''" and v = "PFloat 1.5"]
    by (simp add: is_bound_def hasattr_def getattr_def attribute_leaf_def example_bad_row_def
        dict_row_def example_vocabulary_def)
  have items: "update_items example_vocabulary example_bad_row []
        [[(''mag'', Instance (attribute_leaf (PFloat 1.5) (PStr []) (PStr ''c1'')))],
         [(''mag'', Instance (attribute_leaf (PFloat 1.5) (PStr []) (PStr ''c2'')))],
         [(''mag'', Instance (attribute_leaf (PFloat 1.5) (PStr []) (PStr ''c1'')))]]
     = ([[(''mag'', Instance (attribute_leaf (PFloat 3.5) (PStr []) (PStr ''c1'')))],
         [(''mag'', Instance (attribute_leaf (PFloat 1.5) (PStr []) (PStr ''c2'')))],
         [(''mag'', Instance (attribute_leaf (PFloat 1.5) (PStr []) (PStr ''c1'')))]],
        Some (ValueError ''cast''))"
    using update_cast_error [where voc = example_vocabulary and row = example_bad_row
        and m = "Suc 0" and e = "ValueError ''cast''"
        and items = "[[(''mag'', Instance (attribute_leaf (PFloat 1.5) (PStr []) (PStr ''c1'')))],
         [(''mag'', Instance (attribute_leaf (PFloat 1.5) (PStr []) (PStr ''c2'')))],
         [(''mag'', Instance (attribute_leaf (PFloat 1.5) (PStr []) (PStr ''c1'')))]]"
        and res_items = "[[(''mag'', Instance (attribute_leaf (PFloat 3.5) (PStr []) (PStr ''c1'')))],
         [(''mag'', Instance (attribute_leaf (PFloat 1.5) (PStr []) (PStr ''c2'')))],
         [(''mag'', Instance (attribute_leaf (PFloat 1.5) (PStr []) (PStr ''c1'')))]]"]
    by (simp add: is_bound_def hasattr_def getattr_def attribute_leaf_def example_bad_row_def
        dict_row_def example_vocabulary_def method_hidden_def set_value_def
        call_remove_model_name_def)
  have tree: "update example_vocabulary example_bad_row (Scalar PNone)
        (example_catalog (PFloat 1.5) (PFloat 1.5))
     = (example_catalog (PFloat 3.5) (PFloat 3.5), Some (ValueError ''cast''))"
    using update_cast_error [where voc = example_vocabulary and row = example_bad_row
        and ref = "Scalar PNone" and n = "Suc 0" and e = "ValueError ''cast''"
        and self = "example_catalog (PFloat 1.5) (PFloat 1.5)"
        and res = "example_catalog (PFloat 3.5) (PFloat 3.5)"]
    by (simp add: is_bound_def hasattr_def getattr_def attribute_leaf_def example_bad_row_def
        dict_row_def example_vocabulary_def method_hidden_def set_value_def
        call_remove_model_name_def example_catalog_def)
  from leaf items tree show ?thesis by blast
qed

section \<open>Collections\<close>

text \<open>
  Claim C7: an entry whose value is a list of N item dictionaries gives an attribute that
  holds a list of N children, the i-th being the instance built from the i-th item
  (provided no later entry assigns the same attribute). An update that raises nothing has
  updated every child of a list attribute with the same row and without a reference,
  whatever reference the caller gave, and each of these updates raised nothing.
\<close>

theorem collection_built_and_updated:
  "(MivotInstance voc (pre @ (key, InList (map InDict ds)) # post) = Inr self
      \<and> (\<forall>e\<in>set post. remove_model_name key False \<notin> set (writes e)) \<longrightarrow>
    (\<exists>children. map_of self (remove_model_name key False) = Some (Collection children)
       \<and> list_all2 (\<lambda>d child. MivotInstance voc d = Inr child) ds children))
   \<and> (snd (update voc row ref self') = None \<and> i < length self'
        \<and> self' ! i = (name, Collection children') \<longrightarrow>
      fst (update voc row ref self') ! i
        = (name, Collection (map (\<lambda>c. fst (update voc row (Scalar PNone) c)) children'))
      \<and> (\<forall>c\<in>set children'. snd (update voc row (Scalar PNone) c) = None))"
proof (intro conjI impI)
  assume a: "MivotInstance voc (pre @ (key, InList (map InDict ds)) # post) = Inr self
      \<and> (\<forall>e\<in>set post. remove_model_name key False \<notin> set (writes e))"
  then have "create_class voc (pre @ (key, InList (map InDict ds)) # post) [] = Inr self"
    by (simp add: MivotInstance_Inr)
  from create_class_split [OF this] obtain s1 s2 where
    e: "create_entry voc (key, InList (map InDict ds)) s1 = Inr s2"
    and r: "create_class voc post s2 = Inr self" by blast
  from create_entry_list_Inr [OF e] obtain children where
    l: "list_all2 (\<lambda>item child. unpack voc item = Inr child) (map InDict ds) children"
    and m: "map_of s2 (remove_model_name key False) = Some (Collection children)" by blast
  from l have "list_all2 (\<lambda>d child. MivotInstance voc d = Inr child) ds children"
    by (simp add: list_all2_map1 del: MivotInstance.simps)
  moreover from create_class_other [OF r, of "remove_model_name key False"] a m
  have "map_of self (remove_model_name key False) = Some (Collection children)" by simp
  ultimately show "\<exists>children. map_of self (remove_model_name key False) = Some (Collection children)
       \<and> list_all2 (\<lambda>d child. MivotInstance voc d = Inr child) ds children" by blast
next
  assume a: "snd (update voc row ref self') = None \<and> i < length self'
        \<and> self' ! i = (name, Collection children')"
  then have u: "update voc row ref self' = update_fields voc row ref [] self'"
    by (cases "method_hidden self' ''update''") simp_all
  with a update_fields_collection [of voc row ref "[]" self' i name children']
  have both: "fst (update voc row ref self') ! i
        = (name, Collection (map (\<lambda>c. fst (update voc row (Scalar PNone) c)) children'))
      \<and> (\<forall>c\<in>set children'. snd (update voc row (Scalar PNone) c) = None)"
    by simp
  from both show "fst (update voc row ref self') ! i
        = (name, Collection (map (\<lambda>c. fst (update voc row (Scalar PNone) c)) children'))"
    by simp
  from both show "\<forall>c\<in>set children'. snd (update voc row (Scalar PNone) c) = None"
    by simp
qed

text \<open>Claim C7 at a list of two items, the first holding a bound leaf.\<close>

theorem collection_built_and_updated_witness:
  "MivotInstance example_vocabulary [(''m:Sky.points'', InList (map InDict example_points))]
     = Inr (example_sky (PFloat 1.5))
   \<and> (\<exists>children.
        map_of (example_sky (PFloat 1.5)) (remove_model_name ''m:Sky.points'' False)
          = Some (Collection children)
        \<and> list_all2 (\<lambda>d child. MivotInstance example_vocabulary d = Inr child)
            example_points children)
   \<and> update example_vocabulary (dict_row [''c1'' \<mapsto> PStr ''3.5'']) (Scalar PNone)
        (example_sky (PFloat 1.5))
      = (example_sky (PFloat 3.5), None)
   \<and> (0::nat) < length (example_sky (PFloat 1.5))
   \<and> fst (update example_vocabulary (dict_row [''c1'' \<mapsto> PStr ''3.5'']) (Scalar PNone)
        (example_sky (PFloat 1.5))) ! 0
      = (''points'', Collection (map (\<lambda>c. fst (update example_vocabulary
            (dict_row [''c1'' \<mapsto> PStr ''3.5'']) (Scalar PNone) c))
          [[(''x'', Instance [(''dmtype'', Scalar (PStr ''float'')),
              (''value'', Scalar (PFloat 1.5)), (''ref'', Scalar (PStr ''c1''))])],
           []]))"
proof -
  have a: "MivotInstance example_vocabulary
      [(''m:Sky.points'', InList (map InDict example_points))]
     = Inr (example_sky (PFloat 1.5))"
    by code_simp
  have b: "update example_vocabulary (dict_row [''c1'' \<mapsto> PStr ''3.5'']) (Scalar PNone)
        (example_sky (PFloat 1.5))
      = (example_sky (PFloat 3.5), None)"
    by code_simp
  have c: "example_sky (PFloat 1.5) ! 0
      = (''points'', Collection
          [[(''x'', Instance [(''dmtype'', Scalar (PStr ''float'')),
              (''value'', Scalar (PFloat 1.5)), (''ref'', Scalar (PStr ''c1''))])],
           []])"
    by (simp add: example_sky_def)
  have d: "(0::nat) < length (example_sky (PFloat 1.5))" by (simp add: example_sky_def)
  from a b c d
    collection_built_and_updated [of example_vocabulary "[]" "''m:Sky.points''"
      example_points "[]" "example_sky (PFloat 1.5)"
      "dict_row [''c1'' \<mapsto> PStr ''3.5'']" "Scalar PNone" "example_sky (PFloat 1.5)" 0
      "''points''"
      "[[(''x'', Instance [(''dmtype'', Scalar (PStr ''float'')),
              (''value'', Scalar (PFloat 1.5)), (''ref'', Scalar (PStr ''c1''))])],
           []]"]
  show ?thesis by simp
qed

section \<open>Properties of the projection\<close>

lemma class_dict_fields_keys:
  "class_dict_fields ins attrs classkey slim = Inr data \<Longrightarrow>
   map fst data = map fst (filter (visible ins) attrs)"
proof (induction attrs arbitrary: data)
  case Nil
  then show ?case by simp
next
  case (Cons a attrs)
  obtain k v where a: "a = (k, v)" by (cases a)
  show ?case
  proof (cases "visible ins (k, v)")
    case True
    with Cons.prems a obtain p rest where
      "class_dict_fields ins attrs classkey slim = Inr rest" "data = (k, p) # rest"
      by (auto simp: visible_def split: sum.splits)
    with Cons.IH [of rest] True a show ?thesis by simp
  next
    case False
    with Cons.prems a have "class_dict_fields ins attrs classkey slim = Inr data"
      by (auto simp: visible_def)
    with Cons.IH [of data] False a show ?thesis by simp
  qed
qed

lemma class_dict_fields_lookup:
  "class_dict_fields ins attrs classkey slim = Inr data \<Longrightarrow>
   map_of attrs k = Some v \<Longrightarrow> visible ins (k, v) \<Longrightarrow>
   \<exists>p. get_class_dict ins v classkey slim = Inr p \<and> map_of data k = Some p"
proof (induction attrs arbitrary: data)
  case Nil
  then show ?case by simp
next
  case (Cons a attrs)
  obtain k' v' where a: "a = (k', v')" by (cases a)
  show ?case
  proof (cases "k' = k")
    case True
    with Cons.prems a have v: "v' = v" by simp
    with Cons.prems a True obtain p rest where
      "get_class_dict ins v classkey slim = Inr p" "data = (k, p) # rest"
      by (auto simp: visible_def split: sum.splits)
    then show ?thesis by simp
  next
    case False
    with Cons.prems a have m: "map_of attrs k = Some v" by simp
    show ?thesis
    proof (cases "visible ins (k', v')")
      case True
      with Cons.prems a obtain p' rest where
        r: "class_dict_fields ins attrs classkey slim = Inr rest" and d: "data = (k', p') # rest"
        by (auto simp: visible_def split: sum.splits)
      from Cons.IH [OF r m Cons.prems(3)] d False show ?thesis by simp
    next
      case vis: False
      with Cons.prems a have "class_dict_fields ins attrs classkey slim = Inr data"
        by (auto simp: visible_def)
      from Cons.IH [OF this m Cons.prems(3)] show ?thesis .
    qed
  qed
qed

lemma map_fst_delete: "map fst (AList.delete k xs) = filter (\<lambda>x. x \<noteq> k) (map fst xs)"
  by (induction xs) auto

lemma remove_housekeeping_keys:
  "map fst (remove_housekeeping ins data) =
     filter (\<lambda>k. k \<noteq> ''ref'' \<and> k \<noteq> ''astropy_unit''
               \<and> (k = ''dmtype'' \<longrightarrow> ''ref'' \<notin> set (map fst data) \<and> ''value'' \<notin> set (map fst data))
               \<and> (k = ''unit'' \<longrightarrow>
                    (case map_of data ''unit'' of Some u \<Rightarrow> plain_truthy ins u | None \<Rightarrow> True)))
       (map fst data)"
  by (auto simp: remove_housekeeping_def hk_parameters_def pop_def map_fst_delete Let_def
      delete_conv' intro!: filter_cong split: option.splits)


lemma get_class_dict_Instance:
  assumes "get_class_dict ins (Instance attrs) None slim = Inr p"
  shows "\<exists>data. class_dict_fields ins attrs None slim = Inr data
           \<and> p = PDict (if slim then remove_housekeeping ins data else data)"
proof -
  from assms have n: "\<not> hasattr attrs ''_ast''" "\<not> hasattr attrs ''__iter__''"
    by (auto split: if_splits)
  with assms show ?thesis
    by (cases "class_dict_fields ins attrs None slim") (simp_all add: add_classkey_def)
qed

lemma plain_scalar_lookup:
  assumes "class_dict_fields ins attrs classkey slim = Inr data"
    and "map_of attrs k = Some (Scalar v)" and "\<not> prefix ''_'' k"
  shows "map_of data k = Some (PScalar v)"
proof -
  from assms(3) have "visible ins (k, Scalar v)" by (simp add: visible_def)
  from class_dict_fields_lookup [OF assms(1,2) this] show ?thesis by simp
qed

text \<open>
  The keys of the two projections of a node. The slim projection shows the visible
  attributes except \<open>ref\<close> and \<open>astropy_unit\<close>, except \<open>dmtype\<close> when \<open>ref\<close> or \<open>value\<close> is
  shown by the comprehension, and except \<open>unit\<close> when its projected value is false, in
  order; in particular an empty \<open>unit\<close> is dropped. The full projection shows exactly the
  visible attributes. The properties \<open>dict\<close> and \<open>hk_dict\<close> are the slim and the full
  projection of the object.
\<close>

lemma projection_keys:
  "(get_class_dict ins (Instance attrs) None True = Inr p \<longrightarrow>
      (\<exists>data0 data. class_dict_fields ins attrs None True = Inr data0 \<and> p = PDict data
         \<and> map fst data0 = map fst (filter (visible ins) attrs)
         \<and> map fst data =
             filter (\<lambda>k. k \<noteq> ''ref'' \<and> k \<noteq> ''astropy_unit''
                 \<and> (k = ''dmtype'' \<longrightarrow>
                      ''ref'' \<notin> set (map fst data0) \<and> ''value'' \<notin> set (map fst data0))
                 \<and> (k = ''unit'' \<longrightarrow>
                      (case map_of data0 ''unit'' of
                         Some u \<Rightarrow> plain_truthy ins u | None \<Rightarrow> True)))
               (map fst data0)))
   \<and> (get_class_dict ins (Instance attrs) None True = Inr p
        \<and> map_of attrs ''unit'' = Some (Scalar s) \<and> \<not> truthy s \<longrightarrow>
      (\<exists>data. p = PDict data \<and> ''unit'' \<notin> set (map fst data)))
   \<and> (get_class_dict ins (Instance attrs) None False = Inr p \<longrightarrow>
      (\<exists>data. p = PDict data \<and> map fst data = map fst (filter (visible ins) attrs)))
   \<and> (\<not> hasattr attrs ''_get_class_dict'' \<longrightarrow>
        dict ins attrs = get_class_dict ins (Instance attrs) None True
        \<and> hk_dict ins attrs = get_class_dict ins (Instance attrs) None False)"
proof (intro conjI impI)
  assume a: "get_class_dict ins (Instance attrs) None True = Inr p"
  from get_class_dict_Instance [OF a] obtain data0 where
    d0: "class_dict_fields ins attrs None True = Inr data0"
    and p: "p = PDict (remove_housekeeping ins data0)" by auto
  from d0 p class_dict_fields_keys [OF d0] remove_housekeeping_keys [of ins data0]
  show "\<exists>data0 data. class_dict_fields ins attrs None True = Inr data0 \<and> p = PDict data
         \<and> map fst data0 = map fst (filter (visible ins) attrs)
         \<and> map fst data =
             filter (\<lambda>k. k \<noteq> ''ref'' \<and> k \<noteq> ''astropy_unit''
                 \<and> (k = ''dmtype'' \<longrightarrow>
                      ''ref'' \<notin> set (map fst data0) \<and> ''value'' \<notin> set (map fst data0))
                 \<and> (k = ''unit'' \<longrightarrow>
                      (case map_of data0 ''unit'' of
                         Some u \<Rightarrow> plain_truthy ins u | None \<Rightarrow> True)))
               (map fst data0)"
    by blast
next
  assume a: "get_class_dict ins (Instance attrs) None True = Inr p
        \<and> map_of attrs ''unit'' = Some (Scalar s) \<and> \<not> truthy s"
  from get_class_dict_Instance [of ins attrs True p] a obtain data0 where
    d0: "class_dict_fields ins attrs None True = Inr data0"
    and p: "p = PDict (remove_housekeeping ins data0)" by auto
  have "\<not> prefix ''_'' ''unit''" by simp
  from plain_scalar_lookup [OF d0 _ this, of s] a
  have "map_of data0 ''unit'' = Some (PScalar s)" by simp
  with a have "''unit'' \<notin> set (map fst (remove_housekeeping ins data0))"
    by (simp add: remove_housekeeping_keys)
  with p show "\<exists>data. p = PDict data \<and> ''unit'' \<notin> set (map fst data)" by blast
next
  assume a: "get_class_dict ins (Instance attrs) None False = Inr p"
  from get_class_dict_Instance [OF a] obtain data where
    d: "class_dict_fields ins attrs None False = Inr data" and p: "p = PDict data" by auto
  with class_dict_fields_keys [OF d]
  show "\<exists>data. p = PDict data \<and> map fst data = map fst (filter (visible ins) attrs)"
    by blast
next
  assume "\<not> hasattr attrs ''_get_class_dict''"
  then show "dict ins attrs = get_class_dict ins (Instance attrs) None True"
    by (simp add: dict_def method_hidden_def)
next
  assume "\<not> hasattr attrs ''_get_class_dict''"
  then show "hk_dict ins attrs = get_class_dict ins (Instance attrs) None False"
    by (simp add: hk_dict_def method_hidden_def)
qed

text \<open>
  Claim C4: the code departs from it on the time-format tag. The observation built from two
  leaves, one with the unit \<open>mjd\<close>, a time format, and one with the unit \<open>deg\<close>, carries the
  derived attribute \<open>astropy_unit_time\<close> in the first leaf and \<open>astropy_unit\<close> in the second.
  The slim projection drops \<open>dmtype\<close>, \<open>ref\<close> and \<open>astropy_unit\<close> in both leaves and still
  shows \<open>astropy_unit_time\<close>, which \<open>hk_parameters\<close> does not list; the full projection keeps
  every attribute.
\<close>

theorem slim_projection_time_format:
  "MivotInstance example_vocabulary example_observation = Inr example_observation_tree
   \<and> dict example_introspection example_observation_tree
     = Inr (PDict
         [(''time'', PDict [(''value'', PScalar (PFloat 3.5)), (''unit'', PScalar (PStr ''mjd'')),
                           (''astropy_unit_time'', PScalar (PStr ''mjd''))]),
          (''ra'', PDict [(''value'', PScalar (PFloat 1.5)), (''unit'', PScalar (PStr ''deg''))])])
   \<and> hk_dict example_introspection example_observation_tree
     = Inr (PDict
         [(''time'', PDict [(''dmtype'', PScalar (PStr ''float'')),
                           (''value'', PScalar (PFloat 3.5)), (''unit'', PScalar (PStr ''mjd'')),
                           (''astropy_unit_time'', PScalar (PStr ''mjd'')),
                           (''ref'', PScalar (PStr ''c1''))]),
          (''ra'', PDict [(''dmtype'', PScalar (PStr ''float'')),
                         (''value'', PScalar (PFloat 1.5)), (''unit'', PScalar (PStr ''deg'')),
                         (''astropy_unit'', PObj 1), (''ref'', PScalar (PStr ''c2''))])])"
  by code_simp

lemma create_attribute_stored:
  assumes "create_attribute voc key v s1 = Inr s2" and "key \<noteq> ''value''"
  shows "map_of s2 (remove_model_name key False) = Some (Scalar (remove_model_name_value v False))"
proof -
  from create_attribute_Inr [OF assms(1)] assms(2) obtain self1 where
    s: "setattr s1 (remove_model_name key False) (Scalar (remove_model_name_value v False))
          = Inr self1"
    and u: "if key = ''unit''
              then (\<exists>u. unit_lookup_key v = Inr u \<and> attach_unit voc u self1 = Inr s2)
              else s2 = self1"
    by auto
  show ?thesis
  proof (cases "key = ''unit''")
    case True
    have ru: "remove_model_name ''unit'' False = ''unit''" by code_simp
    from u True obtain w where a: "attach_unit voc w self1 = Inr s2" by auto
    from attach_unit_other [OF a, of "''unit''"] setattr_same [OF s] True ru
    show ?thesis by simp
  next
    case False
    with u setattr_same [OF s] show ?thesis by simp
  qed
qed

text \<open>
  Claim C5, amended: let a dictionary be built and the tree be projected in full. A scalar
  entry other than \<open>value\<close> is shown under its normalized key with its normalized value; the
  entry \<open>value\<close> is shown with the cast of its raw scalar to the \<open>dmtype\<close> set before it; a
  dict entry is shown under its normalized key (the role form when it is no leaf) with the
  full projection of the tree built from it. Each statement holds when no later entry
  assigns the same attribute and the normalized key does not start with an underscore.
\<close>

theorem full_projection_round_trip:
  "(MivotInstance voc (pre @ (key, InScalar v) # post) = Inr self
      \<and> key \<noteq> ''value''
      \<and> (\<forall>e\<in>set post. remove_model_name key False \<notin> set (writes e))
      \<and> \<not> prefix ''_'' (remove_model_name key False)
      \<and> get_class_dict ins (Instance self) None False = Inr p \<longrightarrow>
    (\<exists>data. p = PDict data
       \<and> map_of data (remove_model_name key False)
           = Some (PScalar (remove_model_name_value v False))))
   \<and> (MivotInstance voc (pre @ (''value'', InScalar v) # post) = Inr self
      \<and> (\<forall>e\<in>set post. ''value'' \<notin> set (writes e))
      \<and> get_class_dict ins (Instance self) None False = Inr p \<longrightarrow>
    (\<exists>data self1 dmtype w. p = PDict data
       \<and> create_class voc pre [] = Inr self1 \<and> getattr self1 ''dmtype'' = Inr dmtype
       \<and> cast_type_value voc v dmtype = Inr w
       \<and> map_of data ''value'' = Some (PScalar w)))
   \<and> (MivotInstance voc (pre @ (key, InDict d) # post) = Inr self
      \<and> (\<forall>e\<in>set post. remove_model_name key (\<not> is_leaf d) \<notin> set (writes e))
      \<and> \<not> prefix ''_'' (remove_model_name key (\<not> is_leaf d))
      \<and> get_class_dict ins (Instance self) None False = Inr p \<longrightarrow>
    (\<exists>data child q. p = PDict data
       \<and> MivotInstance voc d = Inr child
       \<and> get_class_dict ins (Instance child) None False = Inr q
       \<and> map_of data (remove_model_name key (\<not> is_leaf d)) = Some q))"
proof (intro conjI impI)
  assume a: "MivotInstance voc (pre @ (key, InScalar v) # post) = Inr self
      \<and> key \<noteq> ''value''
      \<and> (\<forall>e\<in>set post. remove_model_name key False \<notin> set (writes e))
      \<and> \<not> prefix ''_'' (remove_model_name key False)
      \<and> get_class_dict ins (Instance self) None False = Inr p"
  then have "create_class voc (pre @ (key, InScalar v) # post) [] = Inr self"
    by (simp add: MivotInstance_Inr)
  from create_class_split [OF this] obtain s1 s2 where
    e: "create_entry voc (key, InScalar v) s1 = Inr s2"
    and r: "create_class voc post s2 = Inr self" by blast
  from e have c: "create_attribute voc key v s1 = Inr s2" by simp
  from create_attribute_stored [OF c] a create_class_other [OF r, of "remove_model_name key False"]
  have m: "map_of self (remove_model_name key False)
      = Some (Scalar (remove_model_name_value v False))" by simp
  from get_class_dict_Instance [of ins self False p] a obtain data where
    d: "class_dict_fields ins self None False = Inr data" and p: "p = PDict data" by auto
  from plain_scalar_lookup [OF d m] a p
  show "\<exists>data. p = PDict data
       \<and> map_of data (remove_model_name key False)
           = Some (PScalar (remove_model_name_value v False))" by simp
next
  assume a: "MivotInstance voc (pre @ (''value'', InScalar v) # post) = Inr self
      \<and> (\<forall>e\<in>set post. ''value'' \<notin> set (writes e))
      \<and> get_class_dict ins (Instance self) None False = Inr p"
  then have "create_class voc (pre @ (''value'', InScalar v) # post) [] = Inr self"
    by (simp add: MivotInstance_Inr)
  from create_class_split [OF this] obtain s1 s2 where
    pr: "create_class voc pre [] = Inr s1"
    and e: "create_entry voc (''value'', InScalar v) s1 = Inr s2"
    and r: "create_class voc post s2 = Inr self" by blast
  from e have c: "create_attribute voc ''value'' v s1 = Inr s2" by simp
  have rv: "remove_model_name ''value'' False = ''value''" by code_simp
  from create_attribute_Inr [OF c] rv obtain w dmtype where
    s: "setattr s1 ''value'' (Scalar w) = Inr s2"
    and g: "getattr s1 ''dmtype'' = Inr dmtype"
    and k: "cast_type_value voc v dmtype = Inr w"
    by auto
  from create_class_other [OF r, of "''value''"] a setattr_same [OF s]
  have m: "map_of self ''value'' = Some (Scalar w)" by simp
  from get_class_dict_Instance [of ins self False p] a obtain data where
    d: "class_dict_fields ins self None False = Inr data" and p: "p = PDict data" by auto
  have "\<not> prefix ''_'' ''value''" by simp
  from plain_scalar_lookup [OF d m this] p pr g k
  show "\<exists>data self1 dmtype w. p = PDict data
       \<and> create_class voc pre [] = Inr self1 \<and> getattr self1 ''dmtype'' = Inr dmtype
       \<and> cast_type_value voc v dmtype = Inr w
       \<and> map_of data ''value'' = Some (PScalar w)" by blast
next
  assume a: "MivotInstance voc (pre @ (key, InDict d) # post) = Inr self
      \<and> (\<forall>e\<in>set post. remove_model_name key (\<not> is_leaf d) \<notin> set (writes e))
      \<and> \<not> prefix ''_'' (remove_model_name key (\<not> is_leaf d))
      \<and> get_class_dict ins (Instance self) None False = Inr p"
  then have "create_class voc (pre @ (key, InDict d) # post) [] = Inr self"
    by (simp add: MivotInstance_Inr)
  from create_class_split [OF this] obtain s1 s2 where
    e: "create_entry voc (key, InDict d) s1 = Inr s2"
    and r: "create_class voc post s2 = Inr self" by blast
  from create_entry_dict_Inr [OF e] obtain child where
    b: "MivotInstance voc d = Inr child"
    and s: "setattr s1 (remove_model_name key (\<not> is_leaf d)) (Instance child) = Inr s2"
    by blast
  from create_class_other [OF r, of "remove_model_name key (\<not> is_leaf d)"] a setattr_same [OF s]
  have m: "map_of self (remove_model_name key (\<not> is_leaf d)) = Some (Instance child)" by simp
  from get_class_dict_Instance [of ins self False p] a obtain data where
    dd: "class_dict_fields ins self None False = Inr data" and p: "p = PDict data" by auto
  from a have "visible ins (remove_model_name key (\<not> is_leaf d), Instance child)"
    by (simp add: visible_def)
  from class_dict_fields_lookup [OF dd m this] obtain q where
    "get_class_dict ins (Instance child) None False = Inr q"
    "map_of data (remove_model_name key (\<not> is_leaf d)) = Some q" by blast
  with p b show "\<exists>data child q. p = PDict data
       \<and> MivotInstance voc d = Inr child
       \<and> get_class_dict ins (Instance child) None False = Inr q
       \<and> map_of data (remove_model_name key (\<not> is_leaf d)) = Some q" by blast
qed

text \<open>
  Claim C5, as stated, fails: the entry \<open>value = "3.5"\<close> of a float leaf is shown as the
  float 3.5, not as the string; and an entry whose key starts with an underscore is not
  shown at all.
\<close>

theorem full_projection_round_trip_counterexample:
  "MivotInstance example_vocabulary
     [(''dmtype'', InScalar (PStr ''float'')), (''value'', InScalar (PStr ''3.5''))]
     = Inr [(''dmtype'', Scalar (PStr ''float'')), (''value'', Scalar (PFloat 3.5))]
   \<and> hk_dict example_introspection
        [(''dmtype'', Scalar (PStr ''float'')), (''value'', Scalar (PFloat 3.5))]
     = Inr (PDict [(''dmtype'', PScalar (PStr ''float'')), (''value'', PScalar (PFloat 3.5))])
   \<and> map_of [(''dmtype'', PScalar (PStr ''float'')), (''value'', PScalar (PFloat 3.5) :: nat plain)]
        (remove_model_name ''value'' False)
     \<noteq> Some (PScalar (remove_model_name_value (PStr ''3.5'') False))
   \<and> MivotInstance example_vocabulary [(''_id'', InScalar (PStr ''x''))]
     = Inr [(''_id'', Scalar (PStr ''x''))]
   \<and> hk_dict example_introspection [(''_id'', Scalar (PStr ''x''))] = Inr (PDict [])"
  by code_simp


text \<open>Claim C5, amended, at the example dictionary.\<close>

theorem full_projection_round_trip_witness:
  "MivotInstance example_vocabulary example_star = Inr example_star_tree
   \<and> get_class_dict example_introspection (Instance example_star_tree) None False
        = Inr example_star_plain
   \<and> ''m:Star.kind'' \<noteq> ''value''
   \<and> \<not> prefix ''_'' (remove_model_name ''m:Star.kind'' False)
   \<and> (\<exists>data. example_star_plain = PDict data
        \<and> map_of data (remove_model_name ''m:Star.kind'' False)
            = Some (PScalar (remove_model_name_value (PStr ''m:Kind.dwarf'') False)))
   \<and> (\<exists>data child q. example_star_plain = PDict data
        \<and> MivotInstance example_vocabulary
             [(''dmtype'', InScalar (PStr ''float'')), (''value'', InScalar (PStr ''3.5'')),
              (''ref'', InScalar (PStr ''c1''))] = Inr child
        \<and> get_class_dict example_introspection (Instance child) None False = Inr q
        \<and> map_of data ''pos'' = Some q)"
proof -
  have a: "MivotInstance example_vocabulary
      ([(''m:Star.pos'', InDict [(''dmtype'', InScalar (PStr ''float'')),
         (''value'', InScalar (PStr ''3.5'')), (''ref'', InScalar (PStr ''c1''))])]
       @ (''m:Star.kind'', InScalar (PStr ''m:Kind.dwarf'')) # [])
      = Inr example_star_tree"
    by code_simp
  have a': "MivotInstance example_vocabulary
      ([] @ (''m:Star.pos'', InDict [(''dmtype'', InScalar (PStr ''float'')),
         (''value'', InScalar (PStr ''3.5'')), (''ref'', InScalar (PStr ''c1''))])
       # [(''m:Star.kind'', InScalar (PStr ''m:Kind.dwarf''))])
      = Inr example_star_tree"
    by code_simp
  have b: "get_class_dict example_introspection (Instance example_star_tree) None False
        = Inr example_star_plain"
    by code_simp
  have c: "''m:Star.kind'' \<noteq> ''value''
      \<and> \<not> prefix ''_'' (remove_model_name ''m:Star.kind'' False)"
    by code_simp
  have d: "remove_model_name ''m:Star.pos''
      (\<not> is_leaf [(''dmtype'', InScalar (PStr ''float'')),
         (''value'', InScalar (PStr ''3.5'')), (''ref'', InScalar (PStr ''c1''))]) = ''pos''"
    by code_simp
  have e: "\<forall>e\<in>set [(''m:Star.kind'', InScalar (PStr ''m:Kind.dwarf''))].
       ''pos'' \<notin> set (writes e)"
    by code_simp
  have f: "\<not> prefix ''_'' ''pos''" by simp
  have g: "MivotInstance example_vocabulary example_star = Inr example_star_tree"
    by code_simp
  have one: "\<exists>data. example_star_plain = PDict data
        \<and> map_of data (remove_model_name ''m:Star.kind'' False)
            = Some (PScalar (remove_model_name_value (PStr ''m:Kind.dwarf'') False))"
    using a b c
      full_projection_round_trip [of example_vocabulary
        "[(''m:Star.pos'', InDict [(''dmtype'', InScalar (PStr ''float'')),
           (''value'', InScalar (PStr ''3.5'')), (''ref'', InScalar (PStr ''c1''))])]"
        "''m:Star.kind''" "PStr ''m:Kind.dwarf''" "[]" example_star_tree
        example_introspection example_star_plain]
    by simp
  have two: "\<exists>data child q. example_star_plain = PDict data
        \<and> MivotInstance example_vocabulary
             [(''dmtype'', InScalar (PStr ''float'')), (''value'', InScalar (PStr ''3.5'')),
              (''ref'', InScalar (PStr ''c1''))] = Inr child
        \<and> get_class_dict example_introspection (Instance child) None False = Inr q
        \<and> map_of data ''pos'' = Some q"
    using a' b d e f
      full_projection_round_trip [of example_vocabulary "[]" "''m:Star.pos''" _
        "[(''m:Star.kind'', InScalar (PStr ''m:Kind.dwarf''))]" example_star_tree
        example_introspection example_star_plain
        "[(''dmtype'', InScalar (PStr ''float'')), (''value'', InScalar (PStr ''3.5'')),
          (''ref'', InScalar (PStr ''c1''))]"]
    by (simp del: MivotInstance.simps)
  from g b c one two show ?thesis by blast
qed

end
